(* ===== verification/Custody_Prelude.thy ===== *)
theory Custody_Prelude
  imports Main "HOL-Library.AList" "HOL-Library.Stream" "HOL-Library.Word"
begin

section \<open>Prelude: programs over a shared state, Go maps, proof collections\<close>

text \<open>
  Shared material of the development.
  \<^item> A Go request handler is a sequence of calls, each of which is atomic with respect to
    the other goroutines (it runs under a mutex, or touches only its own data). It is
    modelled as a \<^emph>\<open>program\<close>: either finished, or one atomic transformer of the shared
    state that yields the rest of the program. One definition of a handler then has two
    semantics: running it alone to the end (\<open>exec\<close>) and interleaving it with any number
    of other handlers (\<open>cstep\<close>, \<open>csteps\<close>).
  \<^item> \<open>safe\<close> is the proof notion for interleaved programs: whatever the other programs do
    between the atomic steps, as long as they keep the invariant, this program keeps it too,
    each of its steps meets the guarantee and its result meets the postcondition.
  \<^item> A Go map that is ranged over or counted is an association list with distinct keys.
\<close>

named_theorems prog_simps \<open>unfolding rules for running programs\<close>

subsection \<open>Programs\<close>

datatype ('s, 'a) prog =
    Return 'a
  | Atomic "'s \<Rightarrow> ('s, 'a) prog \<times> 's"

primrec bindP :: "('s, 'a) prog \<Rightarrow> ('a \<Rightarrow> ('s, 'b) prog) \<Rightarrow> ('s, 'b) prog" where
  "bindP (Return x) k = k x"
| "bindP (Atomic f) k = Atomic (\<lambda>s. map_prod (\<lambda>p. bindP p k) id (f s))"

text \<open>One atomic call.\<close>

definition actP :: "('s \<Rightarrow> 'a \<times> 's) \<Rightarrow> ('s, 'a) prog" where
  "actP f = Atomic (\<lambda>s. case f s of (x, s') \<Rightarrow> (Return x, s'))"

text \<open>
  \<^verbatim>\<open>x, err := m; if err != nil { return ..., err }\<close>: the error is the handler's result,
  and what \<open>m\<close> did to the state stays done.
\<close>

definition tryP :: "('s, 'e + 'a) prog \<Rightarrow> ('a \<Rightarrow> ('s, 'e + 'b) prog) \<Rightarrow> ('s, 'e + 'b) prog" where
  "tryP m k = bindP m (\<lambda>r. case r of Inl e \<Rightarrow> Return (Inl e) | Inr x \<Rightarrow> k x)"

text \<open>A call whose result is ignored (\<^verbatim>\<open>_ = m\<close>).\<close>

definition seqP :: "('s, 'a) prog \<Rightarrow> ('s, 'b) prog \<Rightarrow> ('s, 'b) prog" where
  "seqP m p = bindP m (\<lambda>_. p)"

text \<open>Running a program alone, to the end.\<close>

primrec exec :: "('s, 'a) prog \<Rightarrow> 's \<Rightarrow> 'a \<times> 's" where
  "exec (Return x) = (\<lambda>s. (x, s))"
| "exec (Atomic f) = (\<lambda>s. case map_prod exec id (f s) of (g, s') \<Rightarrow> g s')"

lemma exec_Atomic: "exec (Atomic f) s = (case f s of (p, s') \<Rightarrow> exec p s')"
  by (cases "f s") simp

declare exec.simps(2) [simp del]

lemma exec_Return [prog_simps, simp]: "exec (Return x) s = (x, s)"
  by simp

lemma exec_actP [prog_simps, simp]: "exec (actP f) s = f s"
  by (simp add: actP_def exec_Atomic split: prod.splits)

lemma exec_bindP [prog_simps, simp]:
  "exec (bindP m k) s = (case exec m s of (x, s') \<Rightarrow> exec (k x) s')"
proof (induction m arbitrary: s)
  case (Return x)
  then show ?case by simp
next
  case (Atomic f)
  obtain p s' where f: "f s = (p, s')" by (cases "f s")
  have "exec (bindP p k) s' = (case exec p s' of (x, t) \<Rightarrow> exec (k x) t)"
    using f by (intro Atomic) (auto simp: f intro: range_eqI [of _ _ s])
  with f show ?case by (simp add: exec_Atomic)
qed

lemma exec_tryP [prog_simps, simp]:
  "exec (tryP m k) s =
     (case exec m s of (r, s') \<Rightarrow> (case r of Inl e \<Rightarrow> (Inl e, s') | Inr x \<Rightarrow> exec (k x) s'))"
  by (auto simp: tryP_def split: prod.splits sum.splits)

lemma exec_seqP [prog_simps, simp]: "exec (seqP m p) s = exec p (snd (exec m s))"
  by (auto simp: seqP_def split: prod.splits)

subsection \<open>Safe programs\<close>

text \<open>
  Rely and guarantee with one relation \<open>G\<close>, a preorder: every atomic step of every
  program is a \<open>G\<close> step that keeps the invariant \<open>I\<close>, so between two steps of one
  program the state moves by \<open>G\<close> and within \<open>I\<close>. \<open>safe I G Q s p\<close>: from state \<open>s\<close>,
  whatever the others do, \<open>p\<close> keeps \<open>I\<close>, moves by \<open>G\<close> only, and where it returns \<open>x\<close>
  the (stable) postcondition \<open>Q x\<close> holds.
\<close>

locale rely_guarantee =
  fixes I :: "'s \<Rightarrow> bool" and G :: "'s \<Rightarrow> 's \<Rightarrow> bool"
  assumes G_refl [simp, intro]: "G s s"
    and G_trans: "G s t \<Longrightarrow> G t u \<Longrightarrow> G s u"

inductive safe ::
  "('s \<Rightarrow> bool) \<Rightarrow> ('s \<Rightarrow> 's \<Rightarrow> bool) \<Rightarrow> ('a \<Rightarrow> 's \<Rightarrow> bool) \<Rightarrow> 's \<Rightarrow> ('s, 'a) prog \<Rightarrow> bool"
  for I G Q where
  safe_Return: "(\<And>t. G s t \<Longrightarrow> I t \<Longrightarrow> Q x t) \<Longrightarrow> safe I G Q s (Return x)"
| safe_Atomic:
    "(\<And>t. G s t \<Longrightarrow> I t \<Longrightarrow>
        I (snd (f t)) \<and> G t (snd (f t)) \<and> safe I G Q (snd (f t)) (fst (f t)))
      \<Longrightarrow> safe I G Q s (Atomic f)"

inductive_simps safe_Return_iff: "safe I G Q s (Return x)"
inductive_simps safe_Atomic_iff: "safe I G Q s (Atomic f)"

lemma safe_AtomicD:
  assumes "safe I G Q s (Atomic f)" and "G s t" and "I t" and "f t = (p, t')"
  shows "I t'" and "G t t'" and "safe I G Q t' p"
proof -
  from assms(1) have "I (snd (f t)) \<and> G t (snd (f t)) \<and> safe I G Q (snd (f t)) (fst (f t))"
    using assms(2,3) by (auto simp: safe_Atomic_iff)
  with assms(4) show "I t'" and "G t t'" and "safe I G Q t' p" by simp_all
qed

context rely_guarantee
begin

lemma safe_stable: "safe I G Q s p \<Longrightarrow> G s t \<Longrightarrow> safe I G Q t p"
  by (cases p) (auto simp: safe_Return_iff safe_Atomic_iff intro: G_trans)

lemma safe_ret: "(\<And>t. G s t \<Longrightarrow> I t \<Longrightarrow> Q x t) \<Longrightarrow> safe I G Q s (Return x)"
  by (rule safe_Return)

lemma safe_act:
  assumes "\<And>t x t'. G s t \<Longrightarrow> I t \<Longrightarrow> f t = (x, t') \<Longrightarrow>
      I t' \<and> G t t' \<and> (\<forall>u. G t' u \<longrightarrow> I u \<longrightarrow> Q x u)"
  shows "safe I G Q s (actP f)"
  unfolding actP_def
proof (rule safe_Atomic)
  fix t
  assume "G s t" "I t"
  obtain x t' where "f t = (x, t')" by (cases "f t")
  with assms [OF \<open>G s t\<close> \<open>I t\<close> this]
  show "I (snd (case f t of (x, s') \<Rightarrow> (Return x, s'))) \<and>
     G t (snd (case f t of (x, s') \<Rightarrow> (Return x, s'))) \<and>
     safe I G Q (snd (case f t of (x, s') \<Rightarrow> (Return x, s'))) (fst (case f t of (x, s') \<Rightarrow> (Return x, s')))"
    by (simp add: safe_Return_iff)
qed

lemma safe_bind:
  assumes "safe I G P s m" and "\<And>x t. G s t \<Longrightarrow> I t \<Longrightarrow> P x t \<Longrightarrow> safe I G Q t (k x)" and "I s"
  shows "safe I G Q s (bindP m k)"
  using assms
proof (induction arbitrary: k)
  case (safe_Return s x)
  then show ?case by simp
next
  case (safe_Atomic s f)
  have "safe I G Q s (Atomic (\<lambda>s. map_prod (\<lambda>p. bindP p k) id (f s)))"
  proof (rule safe.safe_Atomic, simp, intro conjI)
    fix t
    assume t: "G s t" "I t"
    note step = safe_Atomic.IH [OF t]
    then show "I (snd (f t))" and "G t (snd (f t))" by blast+
    show "safe I G Q (snd (f t)) (bindP (fst (f t)) k)"
      using step t safe_Atomic.prems(1) by (meson G_trans)
  qed
  then show ?case by simp
qed

lemma safe_try:
  assumes "safe I G P s m" and "I s"
    and "\<And>e t. G s t \<Longrightarrow> I t \<Longrightarrow> P (Inl e) t \<Longrightarrow> safe I G Q t (Return (Inl e))"
    and "\<And>x t. G s t \<Longrightarrow> I t \<Longrightarrow> P (Inr x) t \<Longrightarrow> safe I G Q t (k x)"
  shows "safe I G Q s (tryP m k)"
  unfolding tryP_def
  by (rule safe_bind [OF assms(1) _ assms(2)]) (auto intro: assms(3,4) split: sum.splits)

lemma safe_seq:
  assumes "safe I G P s m" and "I s" and "\<And>x t. G s t \<Longrightarrow> I t \<Longrightarrow> P x t \<Longrightarrow> safe I G Q t p"
  shows "safe I G Q s (seqP m p)"
  unfolding seqP_def by (rule safe_bind [OF assms(1) _ assms(2)]) (rule assms(3))

text \<open>The same rules for a proof that refers back to one earlier state \<open>b\<close>.\<close>

lemma safe_bind_from:
  assumes "G b s" and "safe I G P s m" and "I s"
    and "\<And>x t. G b t \<Longrightarrow> I t \<Longrightarrow> P x t \<Longrightarrow> safe I G Q t (k x)"
  shows "safe I G Q s (bindP m k)"
  by (rule safe_bind [OF assms(2) _ assms(3)]) (meson G_trans assms(1,4))

lemma safe_try_from:
  assumes "G b s" and "safe I G P s m" and "I s"
    and "\<And>e t. G b t \<Longrightarrow> I t \<Longrightarrow> P (Inl e) t \<Longrightarrow> safe I G Q t (Return (Inl e))"
    and "\<And>x t. G b t \<Longrightarrow> I t \<Longrightarrow> P (Inr x) t \<Longrightarrow> safe I G Q t (k x)"
  shows "safe I G Q s (tryP m k)"
  by (rule safe_try [OF assms(2,3)]) (meson G_trans assms(1,4,5))+

lemma safe_seq_from:
  assumes "G b s" and "safe I G P s m" and "I s" and "\<And>x t. G b t \<Longrightarrow> I t \<Longrightarrow> P x t \<Longrightarrow> safe I G Q t p"
  shows "safe I G Q s (seqP m p)"
  by (rule safe_seq [OF assms(2,3)]) (meson G_trans assms(1,4))

lemma safe_mono:
  assumes "safe I G P s m" and "\<And>x t. G s t \<Longrightarrow> I t \<Longrightarrow> P x t \<Longrightarrow> Q x t" and "I s"
  shows "safe I G Q s m"
  using assms
proof induction
  case (safe_Return s x)
  then show ?case by (simp add: safe_Return_iff)
next
  case (safe_Atomic s f)
  then show ?case by (intro safe.safe_Atomic) (meson G_trans)
qed

text \<open>Running a safe program alone.\<close>

lemma safe_exec:
  assumes "safe I G Q s p" and "I s" and "exec p s = (x, s')"
  shows "I s' \<and> G s s' \<and> Q x s'"
  using assms
proof induction
  case (safe_Return s y)
  then show ?case by auto
next
  case (safe_Atomic s f)
  obtain p t where f: "f s = (p, t)" by (cases "f s")
  have step: "I t" "G s t" and IH: "exec p t = (x, s') \<Longrightarrow> I s' \<and> G t s' \<and> Q x s'"
    using safe_Atomic.IH [of s] safe_Atomic.prems(1) f by auto
  moreover have "exec p t = (x, s')" using safe_Atomic.prems(2) f by (simp add: exec_Atomic)
  ultimately show ?case by (blast intro: G_trans)
qed

end

subsection \<open>Interleaving\<close>

text \<open>
  A configuration is the shared state and the programs in flight. A step starts a new
  handler \<open>H q\<close> for any request \<open>q\<close>, or lets any program in flight make one atomic step.
\<close>

type_synonym ('s, 'a) config = "'s \<times> ('s, 'a) prog list"

inductive cstep :: "('q \<Rightarrow> ('s, 'a) prog) \<Rightarrow> ('s, 'a) config \<Rightarrow> ('s, 'a) config \<Rightarrow> bool"
  for H where
  spawn: "cstep H (s, ts) (s, ts @ [H q])"
| run: "i < length ts \<Longrightarrow> ts ! i = Atomic f \<Longrightarrow> f s = (p, s') \<Longrightarrow>
     cstep H (s, ts) (s', ts[i := p])"

inductive csteps :: "('q \<Rightarrow> ('s, 'a) prog) \<Rightarrow> ('s, 'a) config \<Rightarrow> ('s, 'a) config \<Rightarrow> bool"
  for H c where
  csteps_refl: "csteps H c c"
| csteps_step: "csteps H c d \<Longrightarrow> cstep H d e \<Longrightarrow> csteps H c e"

lemma csteps_trans:
  assumes "csteps H c d" and "csteps H d e"
  shows "csteps H c e"
  using assms(2,1) by induction (auto intro: csteps.intros)

context rely_guarantee
begin

lemma cstep_safe:
  assumes "cstep H (s, ts) (s', ts')" and "I s"
    and "\<forall>t \<in> set ts. safe I G Q s t" and "\<And>q s. I s \<Longrightarrow> safe I G Q s (H q)"
  shows "I s' \<and> G s s' \<and> (\<forall>t \<in> set ts'. safe I G Q s' t)"
  using assms(1)
proof cases
  case (spawn q)
  with assms show ?thesis by auto
next
  case (run i f p)
  from run assms(3) have sf: "safe I G Q s (Atomic f)" by (metis nth_mem)
  note step = safe_AtomicD [OF sf G_refl assms(2) \<open>f s = (p, s')\<close>]
  have "\<forall>t \<in> set (ts[i := p]). safe I G Q s' t"
    using assms(3) step(2,3) set_update_subset_insert [of ts i p] safe_stable by fastforce
  with run step show ?thesis by simp
qed

lemma csteps_safe:
  assumes "csteps H (s, ts) c" and "I s"
    and "\<forall>t \<in> set ts. safe I G Q s t" and "\<And>q s. I s \<Longrightarrow> safe I G Q s (H q)"
  shows "I (fst c) \<and> G s (fst c) \<and> (\<forall>t \<in> set (snd c). safe I G Q (fst c) t)"
  using assms(1)
proof induction
  case csteps_refl
  with assms show ?case by simp
next
  case (csteps_step d e)
  obtain s1 t1 s2 t2 where c: "d = (s1, t1)" "e = (s2, t2)" by (cases d, cases e)
  with csteps_step cstep_safe [of H s1 t1 s2 t2 Q] assms(4) show ?case by (auto intro: G_trans)
qed

end

text \<open>A program in flight can run to its end while the others wait.\<close>

lemma exec_csteps_at:
  assumes "exec p s = (x, s')" and "i < length ts" and "ts ! i = p"
  shows "csteps H (s, ts) (s', ts[i := Return x])"
  using assms
proof (induction p arbitrary: s ts)
  case (Return y)
  then show ?case by (metis csteps_refl exec_Return list_update_id prod.inject)
next
  case (Atomic f)
  obtain q s1 where f: "f s = (q, s1)" by (cases "f s")
  have "cstep H (s, ts) (s1, ts[i := q])"
    using Atomic.prems f by (intro cstep.run [where f = f]) auto
  then have "csteps H (s, ts) (s1, ts[i := q])" by (auto intro: csteps_step [OF csteps_refl])
  moreover have "exec q s1 = (x, s')"
    using Atomic.prems f by (simp add: exec_Atomic)
  then have "csteps H (s1, ts[i := q]) (s', (ts[i := q])[i := Return x])"
    using f Atomic.prems(2) by (intro Atomic.IH [of "f s" q]) (auto intro: range_eqI [of _ _ s])
  ultimately show ?case by (auto intro: csteps_trans)
qed

text \<open>A handler run alone is one of the interleavings.\<close>

lemma exec_csteps:
  assumes "exec p s = (x, s')"
  shows "csteps H (s, ts @ [p]) (s', ts @ [Return x])"
  using exec_csteps_at [OF assms, of "length ts" "ts @ [p]"] by simp

text \<open>The first step of a program that starts with a call.\<close>

lemma bindP_actP: "bindP (actP f) k = Atomic (\<lambda>s. case f s of (x, s') \<Rightarrow> (k x, s'))"
  by (simp add: actP_def fun_eq_iff split: prod.splits)

lemma bindP_assoc: "bindP (bindP m k) h = bindP m (\<lambda>x. bindP (k x) h)"
proof (induction m)
  case (Return x)
  then show ?case by simp
next
  case (Atomic f)
  then have "bindP (bindP (fst (f s)) k) h = bindP (fst (f s)) (\<lambda>x. bindP (k x) h)" for s
    by (auto intro: range_eqI [of _ _ s] simp: fsts.simps)
  then show ?case by (simp add: fun_eq_iff map_prod_def case_prod_beta)
qed

lemma cstep_call:
  assumes "i < length ts" and "ts ! i = bindP (actP f) k" and "f s = (x, s')"
  shows "csteps H (s, ts) (s', ts[i := k x])"
proof -
  have "cstep H (s, ts) (s', ts[i := k x])"
    by (rule cstep.run [OF assms(1), where f = "\<lambda>s. case f s of (x, s') \<Rightarrow> (k x, s')"])
       (use assms in \<open>simp_all add: bindP_actP\<close>)
  then show ?thesis by (auto intro: csteps_step [OF csteps_refl])
qed

lemma exec_handler_csteps:
  assumes "exec (H q) s = (x, s')"
  shows "csteps H (s, ts) (s', ts @ [Return x])"
proof (rule csteps_trans)
  show "csteps H (s, ts) (s, ts @ [H q])" by (auto intro: csteps_step [OF csteps_refl] cstep.spawn)
  show "csteps H (s, ts @ [H q]) (s', ts @ [Return x])" using assms by (rule exec_csteps)
qed

subsection \<open>Go maps as association lists\<close>

text \<open>
  A Go map: the entries in some iteration order, keys distinct. \<open>gput\<close> is
  \<^verbatim>\<open>m[k] = v\<close>, \<open>map_of m k\<close> is \<^verbatim>\<open>v, ok := m[k]\<close>, \<open>length m\<close> is \<^verbatim>\<open>len(m)\<close>.
\<close>

type_synonym ('k, 'v) gomap = "('k \<times> 'v) list"

abbreviation gput :: "'k \<Rightarrow> 'v \<Rightarrow> ('k, 'v) gomap \<Rightarrow> ('k, 'v) gomap" where
  "gput \<equiv> AList.update"

abbreviation gkeys :: "('k, 'v) gomap \<Rightarrow> 'k list" where
  "gkeys m \<equiv> map fst m"

abbreviation wf_map :: "('k, 'v) gomap \<Rightarrow> bool" where
  "wf_map m \<equiv> distinct (gkeys m)"

text \<open>\<^verbatim>\<open>c := make(map); for k, v := range m { c[k] = v }\<close>\<close>

definition gcopy :: "('k, 'v) gomap \<Rightarrow> ('k, 'v) gomap" where
  "gcopy m = foldl (\<lambda>acc (k, v). gput k v acc) [] m"

lemma map_of_gput [simp]: "map_of (gput k v m) = (map_of m)(k \<mapsto> v)"
  by (rule update_conv')

lemma wf_gput [simp, intro]: "wf_map m \<Longrightarrow> wf_map (gput k v m)"
  by (rule distinct_update)

lemma gput_new: "k \<notin> set (gkeys m) \<Longrightarrow> gput k v m = m @ [(k, v)]"
  by (induction m) auto

lemma length_gput:
  "length (gput k v m) = (if k \<in> set (gkeys m) then length m else Suc (length m))"
  by (induction m) auto

lemma gput_not_Nil [simp]: "gput k v m \<noteq> []"
  by (cases m) auto

lemma length_gput_mono: "length m \<le> length (gput k v m)"
  by (simp add: length_gput)

lemma set_gput_subset: "set (gput k v m) \<subseteq> insert (k, v) (set m)"
  by (induction m) auto

lemma gcopy_wf_aux:
  assumes "wf_map (acc @ m)"
  shows "foldl (\<lambda>acc (k, v). gput k v acc) acc m = acc @ m"
  using assms
proof (induction m arbitrary: acc)
  case Nil
  then show ?case by simp
next
  case (Cons kv m)
  obtain k v where kv: "kv = (k, v)" by (cases kv)
  with Cons.prems have "gput k v acc = acc @ [(k, v)]" by (intro gput_new) auto
  with kv Cons.prems Cons.IH [of "acc @ [(k, v)]"] show ?case by simp
qed

lemma gcopy_wf [simp]: "wf_map m \<Longrightarrow> gcopy m = m"
  using gcopy_wf_aux [of "[]" m] by (simp add: gcopy_def)

text \<open>The number of entries of a well-formed map is the number of its keys.\<close>

lemma card_keys: "wf_map m \<Longrightarrow> card (dom (map_of m)) = length m"
  by (simp add: dom_map_of_conv_image_fst) (metis distinct_card length_map set_map)

lemma map_of_None_keys [simp]: "map_of m k = None \<longleftrightarrow> k \<notin> set (gkeys m)"
  by (simp add: map_of_eq_None_iff)

lemma map_le_gput: "k \<notin> set (gkeys m) \<Longrightarrow> map_of m \<subseteq>\<^sub>m map_of (gput k v m)"
  unfolding map_le_def by (metis domIff fun_upd_apply map_of_None_keys map_of_gput)

end
