(* ===== verification/Go_Base.thy ===== *)
theory Go_Base
  imports Custody_Prelude
begin

section \<open>The parts of Go's standard library the service relies on\<close>

text \<open>
  Error values, the functions of \<^verbatim>\<open>strings\<close>, \<^verbatim>\<open>encoding/hex\<close>, \<^verbatim>\<open>strconv\<close> and
  \<^verbatim>\<open>math/big\<close> that the sources call, on byte strings (a Go string is a sequence of
  bytes and \<^typ>\<open>char\<close> is a byte), with the laws the components use: round trips,
  what a parser accepts, what a splitter returns.
\<close>

type_synonym byte = "8 word"
type_synonym time = int \<comment> \<open>nanoseconds since the epoch, UTC\<close>
text \<open>The zero value of \<^verbatim>\<open>time.Time\<close>: January 1 of year 1.\<close>

definition zero_time :: time where
  "zero_time = - 62135596800 * 10 ^ 9"

type_synonym uint64 = "64 word"
type_synonym int64 = "64 word" \<comment> \<open>read by \<^const>\<open>sint\<close>\<close>

subsection \<open>Errors\<close>

text \<open>
  \<open>Sentinel\<close>: a package-level \<^verbatim>\<open>var Err... = errors.New(msg)\<close>, identified by its message
  (all messages of the program's sentinels differ). \<open>Fresh\<close>: an error made where it is
  returned, or by code outside the program; it matches no sentinel. \<open>Wrap\<close>:
  \<^verbatim>\<open>fmt.Errorf\<close> with \<^verbatim>\<open>%w\<close>, carrying the whole text and the wrapped error.
\<close>

datatype error = Sentinel string | Fresh string | Wrap string error

fun Error :: "error \<Rightarrow> string" where
  "Error (Sentinel m) = m"
| "Error (Fresh m) = m"
| "Error (Wrap m _) = m"

text \<open>\<^verbatim>\<open>errors.Is\<close> walks the chain of wrapped errors.\<close>

fun errors_Is :: "error \<Rightarrow> error \<Rightarrow> bool" where
  "errors_Is (Wrap m e) t = (Wrap m e = t \<or> errors_Is e t)"
| "errors_Is e t = (e = t)"

text \<open>\<^verbatim>\<open>fmt.Errorf("%w: %s", e, detail)\<close>\<close>

definition wrapf :: "error \<Rightarrow> string \<Rightarrow> error" where
  "wrapf e detail = Wrap (Error e @ '': '' @ detail) e"

lemma errors_Is_wrapf [simp]:
  "errors_Is (wrapf e d) (Sentinel m) = errors_Is e (Sentinel m)"
  by (simp add: wrapf_def)

subsection \<open>Contexts\<close>

text \<open>
  What a poll of \<^verbatim>\<open>ctx.Done()\<close> finds: \<open>None\<close> while the context is live, otherwise the
  value of \<^verbatim>\<open>ctx.Err()\<close>.
\<close>

type_synonym ctx = "error option"

subsection \<open>Package strings\<close>

definition HasPrefix :: "string \<Rightarrow> string \<Rightarrow> bool" where
  "HasPrefix s p = (take (length p) s = p)"

definition TrimPrefix :: "string \<Rightarrow> string \<Rightarrow> string" where
  "TrimPrefix s p = (if HasPrefix s p then drop (length p) s else s)"

text \<open>\<^verbatim>\<open>strings.Trim(s, c)\<close> for a cutset of one byte.\<close>

definition Trim :: "string \<Rightarrow> char \<Rightarrow> string" where
  "Trim s c = rev (dropWhile ((=) c) (rev (dropWhile ((=) c) s)))"

text \<open>\<^verbatim>\<open>strings.Split(s, c)\<close> for a separator of one byte; never returns an empty slice.\<close>

fun Split :: "string \<Rightarrow> char \<Rightarrow> string list" where
  "Split [] c = [[]]"
| "Split (x # xs) c =
     (if x = c then [] # Split xs c
      else (case Split xs c of [] \<Rightarrow> [[x]] | p # ps \<Rightarrow> (x # p) # ps))"

text \<open>\<^verbatim>\<open>strings.Join\<close>\<close>

fun Join :: "string list \<Rightarrow> string \<Rightarrow> string" where
  "Join [] sep = []"
| "Join [p] sep = p"
| "Join (p # q # ps) sep = p @ sep @ Join (q # ps) sep"

text \<open>\<^verbatim>\<open>strings.ReplaceAll(s, c, r)\<close> for an old string of one byte.\<close>

definition ReplaceAll :: "string \<Rightarrow> char \<Rightarrow> string \<Rightarrow> string" where
  "ReplaceAll s c r = concat (map (\<lambda>x. if x = c then r else [x]) s)"

lemma HasPrefix_append [simp]: "HasPrefix (p @ s) p"
  by (simp add: HasPrefix_def)

lemma HasPrefix_iff: "HasPrefix s p \<longleftrightarrow> (\<exists>r. s = p @ r)"
  by (auto simp: HasPrefix_def) (metis append_take_drop_id)

lemma TrimPrefix_append [simp]: "TrimPrefix (p @ s) p = s"
  by (simp add: TrimPrefix_def)

lemma TrimPrefix_no_prefix: "\<not> HasPrefix s p \<Longrightarrow> TrimPrefix s p = s"
  by (simp add: TrimPrefix_def)

lemma TrimPrefix_eq_iff: "TrimPrefix s p = s \<longleftrightarrow> p = [] \<or> \<not> HasPrefix s p"
proof
  assume "TrimPrefix s p = s"
  then have "HasPrefix s p \<Longrightarrow> p = []"
    by (metis HasPrefix_iff TrimPrefix_append append_self_conv2)
  then show "p = [] \<or> \<not> HasPrefix s p" by blast
qed (auto simp: TrimPrefix_def)

lemma dropWhile_notin: "c \<notin> set s \<Longrightarrow> dropWhile ((=) c) s = s"
  by (cases s) auto

lemma Trim_notin: "c \<notin> set s \<Longrightarrow> Trim s c = s"
  by (simp add: Trim_def dropWhile_notin)

lemma Trim_ends:
  assumes "s \<noteq> []" and "hd s \<noteq> c" and "last s \<noteq> c"
  shows "Trim s c = s"
proof -
  have "dropWhile ((=) c) s = s" using assms by (cases s) auto
  moreover have "dropWhile ((=) c) (rev s) = rev s"
    using assms by (cases s rule: rev_cases) auto
  ultimately show ?thesis by (simp add: Trim_def)
qed

lemma Split_not_Nil [simp]: "Split s c \<noteq> []"
  by (induction s) (auto split: list.splits)

lemma Split_notin: "c \<notin> set s \<Longrightarrow> Split s c = [s]"
  by (induction s) auto

lemma Split_append: "c \<notin> set s \<Longrightarrow> Split (s @ c # t) c = s # Split t c"
  by (induction s) auto

lemma Split_parts: "p \<in> set (Split s c) \<Longrightarrow> c \<notin> set p"
proof (induction s arbitrary: p)
  case Nil
  then show ?case by simp
next
  case (Cons x xs)
  obtain q qs where q: "Split xs c = q # qs" by (cases "Split xs c") auto
  with Cons show ?case by (auto split: if_splits)
qed

lemma Join_Split: "Join (Split s c) [c] = s"
proof (induction s)
  case Nil
  then show ?case by simp
next
  case (Cons x xs)
  obtain q qs where q: "Split xs c = q # qs" by (cases "Split xs c") auto
  with Cons show ?case by (cases qs) auto
qed

subsection \<open>Package encoding/hex\<close>

definition hextable :: string where
  "hextable = ''0123456789abcdef''"

definition hex_byte :: "byte \<Rightarrow> string" where
  "hex_byte b = [hextable ! (unat b div 16), hextable ! (unat b mod 16)]"

definition hex_EncodeToString :: "byte list \<Rightarrow> string" where
  "hex_EncodeToString bs = concat (map hex_byte bs)"

definition fromHexChar :: "char \<Rightarrow> nat option" where
  "fromHexChar c =
     (let n = of_char c :: nat in
      if 48 \<le> n \<and> n \<le> 57 then Some (n - 48)
      else if 97 \<le> n \<and> n \<le> 102 then Some (n - 87)
      else if 65 \<le> n \<and> n \<le> 70 then Some (n - 55)
      else None)"

text \<open>
  \<^verbatim>\<open>hex.InvalidByteError\<close> prints the byte as a code point with \<^verbatim>\<open>%#U\<close>: four
  upper-case digits and, where the character is printable, the character in quotes
  (in UTF-8, two bytes from \<open>0x80\<close> on).
\<close>

definition utf8_latin1 :: "nat \<Rightarrow> string" where
  "utf8_latin1 n =
     (if n < 128 then [char_of n] else [char_of (192 + n div 64), char_of (128 + n mod 64)])"

definition format_U :: "char \<Rightarrow> string" where
  "format_U c =
     (let n = of_char c :: nat; digits = ''0123456789ABCDEF'' in
      ''U+00'' @ [digits ! (n div 16), digits ! (n mod 16)] @
      (if 32 \<le> n \<and> n \<le> 126 \<or> 161 \<le> n \<and> n \<noteq> 173
       then '' '' @ [CHR 0x27] @ utf8_latin1 n @ [CHR 0x27] else []))"

definition InvalidByteError :: "char \<Rightarrow> error" where
  "InvalidByteError c = Fresh (''encoding/hex: invalid byte: '' @ format_U c)"

definition hex_ErrLength :: error where
  "hex_ErrLength = Sentinel ''encoding/hex: odd length hex string''"

fun hex_DecodeString :: "string \<Rightarrow> error + byte list" where
  "hex_DecodeString [] = Inr []"
| "hex_DecodeString [c] =
     (if fromHexChar c = None then Inl (InvalidByteError c) else Inl hex_ErrLength)"
| "hex_DecodeString (p # q # s) =
     (case fromHexChar p of None \<Rightarrow> Inl (InvalidByteError p)
      | Some a \<Rightarrow>
          (case fromHexChar q of None \<Rightarrow> Inl (InvalidByteError q)
           | Some b \<Rightarrow>
               (case hex_DecodeString s of Inl e \<Rightarrow> Inl e
                | Inr bs \<Rightarrow> Inr (of_nat (16 * a + b) # bs))))"

lemma fromHexChar_hextable: "n < 16 \<Longrightarrow> fromHexChar (hextable ! n) = Some n"
proof -
  have "\<forall>n \<in> set [0..<16]. fromHexChar (hextable ! n) = Some n" by code_simp
  then show "n < 16 \<Longrightarrow> fromHexChar (hextable ! n) = Some n" by simp
qed

lemma unat_byte_lt [simp]: "unat (b :: byte) < 256"
  using unsigned_less [of b] by simp

lemma hex_Decode_Encode: "hex_DecodeString (hex_EncodeToString bs) = Inr bs"
proof (induction bs)
  case Nil
  then show ?case by (simp add: hex_EncodeToString_def)
next
  case (Cons b bs)
  have "unat b div 16 < 16" using unat_byte_lt [of b] by linarith
  moreover have "unat b mod 16 < 16" by simp
  moreover have "(of_nat (16 * (unat b div 16) + unat b mod 16) :: byte) = b" by simp
  ultimately show ?case
    using Cons by (simp add: hex_EncodeToString_def hex_byte_def fromHexChar_hextable)
qed

lemma hex_Encode_inj: "hex_EncodeToString xs = hex_EncodeToString ys \<Longrightarrow> xs = ys"
  by (metis hex_Decode_Encode sum.inject(2))

lemma length_hex_Encode [simp]: "length (hex_EncodeToString bs) = 2 * length bs"
  by (induction bs) (auto simp: hex_EncodeToString_def hex_byte_def)

lemma set_hex_byte: "set (hex_byte b) \<subseteq> set hextable"
proof -
  have l: "length hextable = 16" by (simp add: hextable_def)
  have "unat b div 16 < 16" using unat_byte_lt [of b] by linarith
  then show ?thesis by (auto simp: hex_byte_def l)
qed

lemma set_hex_Encode: "set (hex_EncodeToString bs) \<subseteq> set hextable"
  using set_hex_byte by (auto simp: hex_EncodeToString_def)

subsection \<open>Decimal numbers: strconv and math/big\<close>

definition is_digit :: "char \<Rightarrow> bool" where
  "is_digit c = (let n = of_char c :: nat in 48 \<le> n \<and> n \<le> 57)"

definition digit_val :: "char \<Rightarrow> nat" where
  "digit_val c = of_char c - 48"

definition dec_val :: "string \<Rightarrow> nat" where
  "dec_val ds = foldl (\<lambda>n c. 10 * n + digit_val c) 0 ds"

text \<open>An optional sign and what follows it.\<close>

definition split_sign :: "string \<Rightarrow> bool \<times> string" where
  "split_sign s =
     (case s of [] \<Rightarrow> (False, [])
      | c # cs \<Rightarrow> if c = CHR ''-'' then (True, cs) else if c = CHR ''+'' then (False, cs)
                 else (False, s))"

text \<open>\<^verbatim>\<open>new(big.Int).SetString(s, 10)\<close>: an optional sign, then one or more digits.\<close>

definition big_SetString :: "string \<Rightarrow> int option" where
  "big_SetString s =
     (let (neg, ds) = split_sign s in
      if ds = [] \<or> \<not> list_all is_digit ds then None
      else Some (if neg then - int (dec_val ds) else int (dec_val ds)))"

text \<open>\<^verbatim>\<open>strconv.ParseInt(s, 10, 64)\<close>, also \<^verbatim>\<open>strconv.Atoi\<close> on a 64-bit platform.\<close>

definition ParseInt64 :: "string \<Rightarrow> int option" where
  "ParseInt64 s =
     (case big_SetString s of None \<Rightarrow> None
      | Some v \<Rightarrow> if - (2 ^ 63) \<le> v \<and> v < 2 ^ 63 then Some v else None)"

text \<open>\<^verbatim>\<open>strconv.ParseUint(s, 10, 64)\<close>: no sign.\<close>

definition ParseUint64 :: "string \<Rightarrow> uint64 option" where
  "ParseUint64 s =
     (if s = [] \<or> \<not> list_all is_digit s \<or> 2 ^ 64 \<le> dec_val s then None
      else Some (of_nat (dec_val s)))"

definition digit_char :: "nat \<Rightarrow> char" where
  "digit_char n = char_of (48 + n)"

fun show_nat :: "nat \<Rightarrow> string" where
  "show_nat n = (if n < 10 then [digit_char n] else show_nat (n div 10) @ [digit_char (n mod 10)])"

declare show_nat.simps [simp del]

text \<open>Rules that evaluate it on literals.\<close>

lemma show_nat_eval:
  "show_nat (numeral k) =
     (if numeral k < (10 :: nat) then [digit_char (numeral k)]
      else show_nat (numeral k div 10) @ [digit_char (numeral k mod 10)])"
  "show_nat 0 = [digit_char 0]" "show_nat 1 = [digit_char 1]" "show_nat (Suc 0) = [digit_char 1]"
  by (simp_all add: show_nat.simps [of "numeral k"] show_nat.simps [of 0] show_nat.simps [of 1]
      show_nat.simps [of "Suc 0"])

lemma replicate_eval: "replicate (numeral k) x = x # replicate (pred_numeral k) x"
  by (simp add: numeral_eq_Suc)

lemma digit_char_eval:
  "digit_char 0 = CHR ''0''" "digit_char 1 = CHR ''1''" "digit_char (Suc 0) = CHR ''1''" "digit_char 2 = CHR ''2''"
  "digit_char 3 = CHR ''3''" "digit_char 4 = CHR ''4''" "digit_char 5 = CHR ''5''" "digit_char 6 = CHR ''6''"
  "digit_char 7 = CHR ''7''" "digit_char 8 = CHR ''8''" "digit_char 9 = CHR ''9''"
  by code_simp+

definition show_int :: "int \<Rightarrow> string" where
  "show_int i = (if i < 0 then CHR ''-'' # show_nat (nat (- i)) else show_nat (nat i))"

lemma of_char_digit_char: "n < 10 \<Longrightarrow> (of_char (digit_char n) :: nat) = 48 + n"
  by (simp add: digit_char_def)

lemma is_digit_digit_char [simp]: "n < 10 \<Longrightarrow> is_digit (digit_char n)"
  by (simp add: is_digit_def of_char_digit_char)

lemma digit_val_digit_char [simp]: "n < 10 \<Longrightarrow> digit_val (digit_char n) = n"
  by (simp add: digit_val_def of_char_digit_char)

lemma dec_val_snoc: "dec_val (ds @ [c]) = 10 * dec_val ds + digit_val c"
  by (simp add: dec_val_def)

lemma show_nat_digits: "show_nat n \<noteq> [] \<and> list_all is_digit (show_nat n) \<and> dec_val (show_nat n) = n"
proof (induction n rule: show_nat.induct)
  case (1 n)
  show ?case
  proof (cases "n < 10")
    case True
    then show ?thesis by (simp add: show_nat.simps [of n] dec_val_def)
  next
    case False
    with 1 show ?thesis by (simp add: show_nat.simps [of n] dec_val_snoc)
  qed
qed

lemma split_sign_digits:
  assumes "list_all is_digit ds"
  shows "split_sign ds = (False, ds)"
proof (cases ds)
  case (Cons c cs)
  with assms have "is_digit c" by simp
  then have "c \<noteq> CHR ''-''" and "c \<noteq> CHR ''+''" by (auto simp: is_digit_def)
  with Cons show ?thesis by (simp add: split_sign_def)
qed (simp add: split_sign_def)

text \<open>Parsing what was printed gives the number back.\<close>

lemma big_SetString_show_int: "big_SetString (show_int i) = Some i"
proof (cases "i < 0")
  case True
  have "split_sign (CHR ''-'' # show_nat (nat (- i))) = (True, show_nat (nat (- i)))"
    by (simp add: split_sign_def)
  with True show_nat_digits [of "nat (- i)"] show ?thesis
    by (simp add: big_SetString_def show_int_def)
next
  case False
  with show_nat_digits [of "nat i"] show ?thesis
    by (simp add: big_SetString_def show_int_def split_sign_digits)
qed

lemma ParseInt64_range: "ParseInt64 s = Some v \<Longrightarrow> - (2 ^ 63) \<le> v \<and> v < 2 ^ 63"
  by (auto simp: ParseInt64_def split: option.splits if_splits)

lemma ParseUint64_val: "ParseUint64 s = Some v \<Longrightarrow> unat v = dec_val s \<and> list_all is_digit s \<and> s \<noteq> []"
  by (auto simp: ParseUint64_def unat_of_nat split: if_splits)

lemma big_SetString_Nil [simp]: "big_SetString [] = None"
  by (simp add: big_SetString_def split_sign_def)

end
