(* ===== verification/Custody_Types.thy ===== *)
theory Custody_Types
  imports Go_Base
begin

section \<open>Domain types of the wallet package\<close>

text \<open>
  The structs of \<^verbatim>\<open>internal/wallet/types.go\<close> as records (field names carry a one-letter
  prefix because several structs share them), the string-typed enumerations with their
  constants, and the sentinel errors of the packages \<^verbatim>\<open>wallet\<close> and \<^verbatim>\<open>store\<close>.
\<close>

subsection \<open>Enumerations\<close>

text \<open>\<^verbatim>\<open>type Chain string\<close>: any string can arrive in a request.\<close>

type_synonym Chain = string

definition ChainBitcoin :: Chain where "ChainBitcoin = ''bitcoin''"
definition ChainEVM :: Chain where "ChainEVM = ''evm''"

type_synonym TransactionStatus = string

definition TransactionStatusProposed :: TransactionStatus where
  "TransactionStatusProposed = ''proposed''"
definition TransactionStatusSigned :: TransactionStatus where
  "TransactionStatusSigned = ''signed''"
definition TransactionStatusBroadcast :: TransactionStatus where
  "TransactionStatusBroadcast = ''broadcast''"
definition TransactionStatusFailed :: TransactionStatus where
  "TransactionStatusFailed = ''failed''"

type_synonym AuditEventType = string

definition AuditEventWalletCreated :: AuditEventType where
  "AuditEventWalletCreated = ''wallet.created''"
definition AuditEventTransactionProposed :: AuditEventType where
  "AuditEventTransactionProposed = ''transaction.proposed''"
definition AuditEventTransactionApproved :: AuditEventType where
  "AuditEventTransactionApproved = ''transaction.approved''"
definition AuditEventTransactionSigned :: AuditEventType where
  "AuditEventTransactionSigned = ''transaction.signed''"
definition AuditEventTransactionBroadcast :: AuditEventType where
  "AuditEventTransactionBroadcast = ''transaction.broadcast''"
definition AuditEventTransactionFailed :: AuditEventType where
  "AuditEventTransactionFailed = ''transaction.failed''"

lemmas chain_defs = ChainBitcoin_def ChainEVM_def
lemmas status_defs =
  TransactionStatusProposed_def TransactionStatusSigned_def
  TransactionStatusBroadcast_def TransactionStatusFailed_def
lemmas audit_type_defs =
  AuditEventWalletCreated_def AuditEventTransactionProposed_def
  AuditEventTransactionApproved_def AuditEventTransactionSigned_def
  AuditEventTransactionBroadcast_def AuditEventTransactionFailed_def

lemma chain_distinct [simp]: "ChainBitcoin \<noteq> ChainEVM" "ChainEVM \<noteq> ChainBitcoin"
  by (simp_all add: chain_defs)

lemma status_distinct [simp]:
  "TransactionStatusProposed \<noteq> TransactionStatusSigned"
  "TransactionStatusProposed \<noteq> TransactionStatusBroadcast"
  "TransactionStatusProposed \<noteq> TransactionStatusFailed"
  "TransactionStatusSigned \<noteq> TransactionStatusProposed"
  "TransactionStatusSigned \<noteq> TransactionStatusBroadcast"
  "TransactionStatusSigned \<noteq> TransactionStatusFailed"
  "TransactionStatusBroadcast \<noteq> TransactionStatusProposed"
  "TransactionStatusBroadcast \<noteq> TransactionStatusSigned"
  "TransactionStatusBroadcast \<noteq> TransactionStatusFailed"
  "TransactionStatusFailed \<noteq> TransactionStatusProposed"
  "TransactionStatusFailed \<noteq> TransactionStatusSigned"
  "TransactionStatusFailed \<noteq> TransactionStatusBroadcast"
  by (simp_all add: status_defs)

subsection \<open>Structs\<close>

record Wallet =
  wID :: string
  wChain :: Chain
  wAddress :: string
  wPublicKey :: string
  wCreatedAt :: time

record WalletMaterial =
  mAddress :: string
  mPublicKey :: string

record Signature =
  SignedTransaction :: string
  SignatureID :: string

record UTXO =
  uTxID :: string
  uVout :: "32 word"
  uAmountSats :: int64
  uScriptPubKey :: string

text \<open>
  An \<^verbatim>\<open>int64\<close> field is a word that is read as a signed number where it is compared or printed.
  \<^verbatim>\<open>json.RawMessage\<close> is the byte string, empty for nil.
\<close>

record TransactionRequest =
  rWalletID :: string
  rTo :: string
  rAmount :: string
  rFeeRateSats :: int64
  rGasLimit :: uint64
  rMaxFeePerGas :: string
  rData :: string
  rUTXOs :: "UTXO list"
  rMetadata :: string

record Approval =
  SignerID :: string
  aCreatedAt :: time

record RawTransaction =
  rawChain :: Chain
  Payload :: string

record EVMTransactionPayload =
  eChain :: Chain
  eChainID :: uint64
  eFrom :: string
  eTo :: string
  eValueWei :: string
  eNonce :: uint64
  eGasLimit :: uint64
  eMaxFeePerGas :: string
  eMaxPriorityFeePerGas :: string
  eData :: string
  eType :: string
  eCreatedAt :: string

record AuditEvent =
  vID :: string
  vType :: AuditEventType
  vActor :: string
  vResourceType :: string
  vResourceID :: string
  vChain :: Chain
  vMetadata :: string
  vCreatedAt :: time

record AuditFilter =
  fResourceID :: string
  fLimit :: int

record IdempotencyRecord =
  iScope :: string
  iKey :: string
  iResourceType :: string
  iResourceID :: string
  iCreatedAt :: time

text \<open>The maps \<^verbatim>\<open>Approvals\<close> and \<^verbatim>\<open>Trace\<close> may be nil (\<open>None\<close>).\<close>

record TransactionProposal =
  pID :: string
  pWalletID :: string
  pChain :: Chain
  pStatus :: TransactionStatus
  pRequest :: TransactionRequest
  pRawTransaction :: RawTransaction
  pApprovals :: "(string, Approval) gomap option"
  pSignedTransaction :: string
  pBroadcastHash :: string
  pError :: string
  pTrace :: "(string, string) gomap option"
  pCreatedAt :: time
  pUpdatedAt :: time

text \<open>A nil map reads as an empty one.\<close>

definition approvals :: "TransactionProposal \<Rightarrow> (string, Approval) gomap" where
  "approvals p = (case pApprovals p of None \<Rightarrow> [] | Some m \<Rightarrow> m)"

definition ApprovalsCount :: "TransactionProposal \<Rightarrow> nat" where
  "ApprovalsCount p = length (approvals p)"

lemma approvals_simps [simp]:
  "approvals (p\<lparr>pApprovals := Some m\<rparr>) = m"
  "approvals (p\<lparr>pStatus := st\<rparr>) = approvals p"
  "approvals (p\<lparr>pSignedTransaction := x\<rparr>) = approvals p"
  "approvals (p\<lparr>pBroadcastHash := x\<rparr>) = approvals p"
  "approvals (p\<lparr>pError := x\<rparr>) = approvals p"
  "approvals (p\<lparr>pUpdatedAt := t\<rparr>) = approvals p"
  by (simp_all add: approvals_def)

subsection \<open>Sentinel errors\<close>

definition ErrUnsupportedChain :: error where
  "ErrUnsupportedChain = Sentinel ''unsupported chain''"
definition ErrDuplicateApproval :: error where
  "ErrDuplicateApproval = Sentinel ''signer already approved proposal''"
definition ErrTransactionNotSigned :: error where
  "ErrTransactionNotSigned = Sentinel ''transaction is not signed''"
definition ErrTransactionNotProposed :: error where
  "ErrTransactionNotProposed = Sentinel ''transaction is not accepting approvals''"
definition ErrUnauthorizedSigner :: error where
  "ErrUnauthorizedSigner = Sentinel ''signer is not authorized''"
definition ErrPolicyViolation :: error where
  "ErrPolicyViolation = Sentinel ''policy violation''"

definition ErrWalletNotFound :: error where
  "ErrWalletNotFound = Sentinel ''wallet not found''"
definition ErrTransactionNotFound :: error where
  "ErrTransactionNotFound = Sentinel ''transaction not found''"
definition ErrDuplicateWallet :: error where
  "ErrDuplicateWallet = Sentinel ''wallet already exists''"
definition ErrDuplicateTransaction :: error where
  "ErrDuplicateTransaction = Sentinel ''transaction already exists''"
definition ErrDuplicateIdempotency :: error where
  "ErrDuplicateIdempotency = Sentinel ''idempotency key already exists''"

lemmas sentinel_defs =
  ErrUnsupportedChain_def ErrDuplicateApproval_def ErrTransactionNotSigned_def
  ErrTransactionNotProposed_def ErrUnauthorizedSigner_def ErrPolicyViolation_def
  ErrWalletNotFound_def ErrTransactionNotFound_def ErrDuplicateWallet_def
  ErrDuplicateTransaction_def ErrDuplicateIdempotency_def

subsection \<open>Well-formed proposals\<close>

text \<open>
  The representation invariant of a proposal: its maps have distinct keys, and each
  approval is filed under its own signer.
\<close>

definition wf_proposal :: "TransactionProposal \<Rightarrow> bool" where
  "wf_proposal p \<longleftrightarrow>
     wf_map (approvals p) \<and>
     (case pTrace p of None \<Rightarrow> True | Some m \<Rightarrow> wf_map m) \<and>
     (\<forall>(k, a) \<in> set (approvals p). SignerID a = k)"

text \<open>On a well-formed proposal the count is the number of distinct signers.\<close>

lemma ApprovalsCount_card:
  assumes "wf_proposal p"
  shows "ApprovalsCount p = card (SignerID ` snd ` set (approvals p))"
proof -
  have "SignerID ` snd ` set (approvals p) = fst ` set (approvals p)"
    using assms by (force simp: wf_proposal_def image_image intro!: image_cong)
  moreover have "card (set (gkeys (approvals p))) = length (gkeys (approvals p))"
    using assms by (intro distinct_card) (simp add: wf_proposal_def)
  ultimately show ?thesis by (simp add: ApprovalsCount_def)
qed

end
