(* ===== verification/Store_Interface.thy ===== *)
theory Store_Interface
  imports Custody_Types
begin

section \<open>The store interface and its contract\<close>

text \<open>
  The Go interface \<^verbatim>\<open>wallet.Store\<close> as a record of operations on a store state \<open>'st\<close>
  (every operation gets the state of the caller's context at the moment of the call), the
  abstract view of a store (what it holds, whatever the representation), one specification
  per operation over views, and the contract as locales. A provider proves the contract
  once by interpretation; the service is verified against the contract alone.
\<close>

record 'st Store =
  sCreateWallet :: "ctx \<Rightarrow> Wallet \<Rightarrow> 'st \<Rightarrow> (error + unit) \<times> 'st"
  sCreateWalletIdempotently ::
    "ctx \<Rightarrow> Wallet \<Rightarrow> IdempotencyRecord \<Rightarrow> 'st \<Rightarrow> (error + Wallet \<times> bool) \<times> 'st"
  sGetWallet :: "ctx \<Rightarrow> string \<Rightarrow> 'st \<Rightarrow> (error + Wallet) \<times> 'st"
  sCreateTransaction :: "ctx \<Rightarrow> TransactionProposal \<Rightarrow> 'st \<Rightarrow> (error + unit) \<times> 'st"
  sCreateTransactionIdempotently ::
    "ctx \<Rightarrow> TransactionProposal \<Rightarrow> IdempotencyRecord \<Rightarrow> 'st \<Rightarrow> (error + TransactionProposal \<times> bool) \<times> 'st"
  sGetTransaction :: "ctx \<Rightarrow> string \<Rightarrow> 'st \<Rightarrow> (error + TransactionProposal) \<times> 'st"
  sAddApproval :: "ctx \<Rightarrow> string \<Rightarrow> Approval \<Rightarrow> 'st \<Rightarrow> (error + TransactionProposal) \<times> 'st"
  sMarkTransactionSigned ::
    "ctx \<Rightarrow> string \<Rightarrow> string \<Rightarrow> 'st \<Rightarrow> (error + TransactionProposal \<times> bool) \<times> 'st"
  sUpdateTransaction :: "ctx \<Rightarrow> TransactionProposal \<Rightarrow> 'st \<Rightarrow> (error + unit) \<times> 'st"
  sAppendAuditEvent :: "ctx \<Rightarrow> AuditEvent \<Rightarrow> 'st \<Rightarrow> (error + unit) \<times> 'st"
  sListAuditEvents :: "ctx \<Rightarrow> AuditFilter \<Rightarrow> 'st \<Rightarrow> (error + AuditEvent list) \<times> 'st"

subsection \<open>Views\<close>

text \<open>\<open>'k\<close> is how the provider forms one key from an idempotency scope and a client key.\<close>

record 'k store_view =
  vw_wallets :: "string \<rightharpoonup> Wallet"
  vw_txs :: "string \<rightharpoonup> TransactionProposal"
  vw_audit :: "AuditEvent list"
  vw_idem :: "'k \<rightharpoonup> IdempotencyRecord"

text \<open>
  What a store may change of a proposal by keeping it (a serialising store re-orders maps,
  reformats embedded JSON and repairs texts that are not UTF-8): everything custody depends
  on stays.
\<close>

definition same_custody :: "TransactionProposal \<Rightarrow> TransactionProposal \<Rightarrow> bool" where
  "same_custody p q \<longleftrightarrow>
     pID q = pID p \<and> pWalletID q = pWalletID p \<and> pChain q = pChain p \<and> pStatus q = pStatus p \<and>
     (pSignedTransaction q = [] \<longleftrightarrow> pSignedTransaction p = []) \<and> (pBroadcastHash q = [] \<longleftrightarrow> pBroadcastHash p = []) \<and>
     rAmount (pRequest q) = rAmount (pRequest p) \<and> pCreatedAt q = pCreatedAt p \<and> pUpdatedAt q = pUpdatedAt p \<and>
     map_of (approvals q) = map_of (approvals p)"

text \<open>The texts a store has to keep as they are; \<open>clean\<close> says which texts it can keep.\<close>

definition fits :: "(string \<Rightarrow> bool) \<Rightarrow> TransactionProposal \<Rightarrow> bool" where
  "fits clean p \<longleftrightarrow>
     clean (pWalletID p) \<and> clean (pChain p) \<and> clean (rAmount (pRequest p)) \<and> (\<forall>k \<in> set (gkeys (approvals p)). clean k)"

text \<open>
  \<open>kept clean norm p q\<close>: storing \<open>p\<close> may leave \<open>q\<close> in the store. \<open>norm\<close> is what the store
  preserves of the request and the raw transaction.
\<close>

definition kept ::
  "(string \<Rightarrow> bool) \<Rightarrow> (TransactionRequest \<Rightarrow> RawTransaction \<Rightarrow> 'c) \<Rightarrow> TransactionProposal \<Rightarrow> TransactionProposal \<Rightarrow> bool" where
  "kept clean norm p q \<longleftrightarrow>
     same_custody p q \<and> wf_proposal q \<and> fits clean q \<and>
     norm (pRequest q) (pRawTransaction q) = norm (pRequest p) (pRawTransaction p) \<and>
     (clean (pSignedTransaction p) \<longrightarrow> pSignedTransaction q = pSignedTransaction p) \<and>
     (clean (pBroadcastHash p) \<longrightarrow> pBroadcastHash q = pBroadcastHash p) \<and> (clean (pError p) \<longrightarrow> pError q = pError p)"

text \<open>Wallets, events and idempotency records may lose precision of their times.\<close>

definition kept_wallet :: "Wallet \<Rightarrow> Wallet \<Rightarrow> bool" where
  "kept_wallet w w' \<longleftrightarrow>
     wID w' = wID w \<and> wChain w' = wChain w \<and> wAddress w' = wAddress w \<and> wPublicKey w' = wPublicKey w"

definition kept_event :: "AuditEvent \<Rightarrow> AuditEvent \<Rightarrow> bool" where
  "kept_event e e' \<longleftrightarrow>
     vID e' = vID e \<and> vType e' = vType e \<and> vActor e' = vActor e \<and> vResourceType e' = vResourceType e \<and>
     vResourceID e' = vResourceID e \<and> vChain e' = vChain e"

definition kept_record :: "IdempotencyRecord \<Rightarrow> IdempotencyRecord \<Rightarrow> bool" where
  "kept_record r r' \<longleftrightarrow>
     iScope r' = iScope r \<and> iKey r' = iKey r \<and> iResourceType r' = iResourceType r \<and> iResourceID r' = iResourceID r"

lemma kept_refl [simp]: "kept_wallet w w" "kept_event e e" "kept_record r r"
  by (simp_all add: kept_wallet_def kept_event_def kept_record_def)

lemma same_custody_refl [simp]: "same_custody p p"
  by (simp add: same_custody_def)

lemma same_custody_count:
  assumes "same_custody p q" and "wf_proposal p" and "wf_proposal q"
  shows "ApprovalsCount q = ApprovalsCount p"
  using assms card_keys [of "approvals p"] card_keys [of "approvals q"]
  by (simp add: same_custody_def wf_proposal_def ApprovalsCount_def)

lemma same_custody_keys:
  "same_custody p q \<Longrightarrow> set (gkeys (approvals q)) = set (gkeys (approvals p))"
  unfolding same_custody_def by (metis dom_map_of_conv_image_fst set_map)

lemma kept_same [simp]: "kept clean norm p p \<longleftrightarrow> wf_proposal p \<and> fits clean p"
  by (simp add: kept_def)

subsection \<open>Specifications of the operations\<close>

text \<open>An operation that returns an error leaves the view as it was.\<close>

definition create_wallet_spec ::
  "Wallet \<Rightarrow> 'k store_view \<Rightarrow> error + unit \<Rightarrow> 'k store_view \<Rightarrow> bool" where
  "create_wallet_spec w v r v' \<longleftrightarrow>
     (case r of Inl _ \<Rightarrow> v' = v
      | Inr _ \<Rightarrow> vw_wallets v (wID w) = None \<and>
          (\<exists>x. kept_wallet w x \<and> v' = v\<lparr>vw_wallets := (vw_wallets v)(wID w \<mapsto> x)\<rparr>))"

definition create_wallet_idem_spec ::
  "'k \<Rightarrow> Wallet \<Rightarrow> IdempotencyRecord \<Rightarrow>
   'k store_view \<Rightarrow> error + Wallet \<times> bool \<Rightarrow> 'k store_view \<Rightarrow> bool" where
  "create_wallet_idem_spec k w record v r v' \<longleftrightarrow>
     (case r of Inl _ \<Rightarrow> v' = v
      | Inr (w', created) \<Rightarrow>
          if created
          then w' = w \<and> vw_idem v k = None \<and> vw_wallets v (wID w) = None \<and>
               (\<exists>x rec. kept_wallet w x \<and> kept_record record rec \<and>
                  v' = v\<lparr>vw_wallets := (vw_wallets v)(wID w \<mapsto> x), vw_idem := (vw_idem v)(k \<mapsto> rec)\<rparr>)
          else v' = v \<and> (\<exists>ex. vw_idem v k = Some ex \<and> vw_wallets v (iResourceID ex) = Some w'))"

definition create_tx_spec ::
  "(TransactionProposal \<Rightarrow> TransactionProposal \<Rightarrow> bool) \<Rightarrow> TransactionProposal \<Rightarrow>
   'k store_view \<Rightarrow> error + unit \<Rightarrow> 'k store_view \<Rightarrow> bool" where
  "create_tx_spec K p v r v' \<longleftrightarrow>
     (case r of Inl _ \<Rightarrow> v' = v
      | Inr _ \<Rightarrow> vw_txs v (pID p) = None \<and> (\<exists>q. K p q \<and> v' = v\<lparr>vw_txs := (vw_txs v)(pID p \<mapsto> q)\<rparr>))"

definition create_tx_idem_spec ::
  "(TransactionProposal \<Rightarrow> TransactionProposal \<Rightarrow> bool) \<Rightarrow> 'k \<Rightarrow> TransactionProposal \<Rightarrow> IdempotencyRecord \<Rightarrow>
   'k store_view \<Rightarrow> error + TransactionProposal \<times> bool \<Rightarrow> 'k store_view \<Rightarrow> bool" where
  "create_tx_idem_spec K k p record v r v' \<longleftrightarrow>
     (case r of Inl _ \<Rightarrow> v' = v
      | Inr (p', created) \<Rightarrow>
          if created
          then p' = p \<and> vw_idem v k = None \<and> vw_txs v (pID p) = None \<and>
               (\<exists>q rec. K p q \<and> kept_record record rec \<and>
                  v' = v\<lparr>vw_txs := (vw_txs v)(pID p \<mapsto> q), vw_idem := (vw_idem v)(k \<mapsto> rec)\<rparr>)
          else v' = v \<and> (\<exists>ex. vw_idem v k = Some ex \<and> vw_txs v (iResourceID ex) = Some p'))"

definition get_wallet_spec ::
  "string \<Rightarrow> 'k store_view \<Rightarrow> error + Wallet \<Rightarrow> 'k store_view \<Rightarrow> bool" where
  "get_wallet_spec i v r v' \<longleftrightarrow> v' = v \<and> (case r of Inl _ \<Rightarrow> True | Inr w \<Rightarrow> vw_wallets v i = Some w)"

definition get_tx_spec ::
  "string \<Rightarrow> 'k store_view \<Rightarrow> error + TransactionProposal \<Rightarrow> 'k store_view \<Rightarrow> bool" where
  "get_tx_spec i v r v' \<longleftrightarrow> v' = v \<and> (case r of Inl _ \<Rightarrow> True | Inr p \<Rightarrow> vw_txs v i = Some p)"

definition approve :: "Approval \<Rightarrow> TransactionProposal \<Rightarrow> TransactionProposal" where
  "approve a p = p\<lparr>pApprovals := Some (gput (SignerID a) a (approvals p)), pUpdatedAt := aCreatedAt a\<rparr>"

definition add_approval_spec ::
  "(TransactionProposal \<Rightarrow> TransactionProposal \<Rightarrow> bool) \<Rightarrow> string \<Rightarrow> Approval \<Rightarrow>
   'k store_view \<Rightarrow> error + TransactionProposal \<Rightarrow> 'k store_view \<Rightarrow> bool" where
  "add_approval_spec K i a v r v' \<longleftrightarrow>
     (case r of Inl _ \<Rightarrow> v' = v
      | Inr p \<Rightarrow> (\<exists>p0. vw_txs v i = Some p0 \<and> pStatus p0 = TransactionStatusProposed \<and>
          SignerID a \<notin> set (gkeys (approvals p0)) \<and> p = approve a p0 \<and>
          (\<exists>q. K p q \<and> v' = v\<lparr>vw_txs := (vw_txs v)(i \<mapsto> q)\<rparr>)))"

text \<open>The providers choose different times for \<^verbatim>\<open>UpdatedAt\<close>.\<close>

definition sign_as :: "string \<Rightarrow> time \<Rightarrow> TransactionProposal \<Rightarrow> TransactionProposal" where
  "sign_as stx t p =
     p\<lparr>pStatus := TransactionStatusSigned, pSignedTransaction := stx, pUpdatedAt := t\<rparr>"

lemma approve_fields [simp]:
  "pID (approve a p) = pID p" "pWalletID (approve a p) = pWalletID p" "pChain (approve a p) = pChain p"
  "pStatus (approve a p) = pStatus p" "pSignedTransaction (approve a p) = pSignedTransaction p"
  "pRequest (approve a p) = pRequest p" "pRawTransaction (approve a p) = pRawTransaction p"
  "pBroadcastHash (approve a p) = pBroadcastHash p"
  "pCreatedAt (approve a p) = pCreatedAt p" "pUpdatedAt (approve a p) = aCreatedAt a"
  "approvals (approve a p) = gput (SignerID a) a (approvals p)"
  by (simp_all add: approve_def)

lemma sign_as_fields [simp]:
  "pID (sign_as x t p) = pID p" "pWalletID (sign_as x t p) = pWalletID p" "pChain (sign_as x t p) = pChain p"
  "pStatus (sign_as x t p) = TransactionStatusSigned" "pSignedTransaction (sign_as x t p) = x"
  "pRequest (sign_as x t p) = pRequest p" "pRawTransaction (sign_as x t p) = pRawTransaction p"
  "pBroadcastHash (sign_as x t p) = pBroadcastHash p"
  "pCreatedAt (sign_as x t p) = pCreatedAt p" "pUpdatedAt (sign_as x t p) = t" "approvals (sign_as x t p) = approvals p"
  by (simp_all add: sign_as_def)

lemma wf_approve:
  "wf_proposal p \<Longrightarrow> wf_proposal (approve a p)"
  using set_gput_subset [of "SignerID a" a "approvals p"]
  by (auto simp: wf_proposal_def) (auto simp: approve_def)

lemma fits_approve: "fits clean p \<Longrightarrow> clean (SignerID a) \<Longrightarrow> fits clean (approve a p)"
  by (auto simp: fits_def dom_update)

lemma fits_sign_as [simp]: "fits clean (sign_as x t p) = fits clean p"
  by (simp add: fits_def)

lemma wf_sign_as [simp]: "wf_proposal (sign_as x t p) = wf_proposal p"
  by (simp add: wf_proposal_def) (simp add: sign_as_def)

definition mark_signed_spec ::
  "(TransactionProposal \<Rightarrow> TransactionProposal \<Rightarrow> bool) \<Rightarrow> string \<Rightarrow> string \<Rightarrow>
   'k store_view \<Rightarrow> error + TransactionProposal \<times> bool \<Rightarrow> 'k store_view \<Rightarrow> bool" where
  "mark_signed_spec K i stx v r v' \<longleftrightarrow>
     (case r of Inl _ \<Rightarrow> v' = v
      | Inr (p, done) \<Rightarrow> (\<exists>p0. vw_txs v i = Some p0 \<and>
          (if done
           then pStatus p0 = TransactionStatusProposed \<and> (\<exists>t. p = sign_as stx t p0) \<and>
                (\<exists>q. K p q \<and> v' = v\<lparr>vw_txs := (vw_txs v)(i \<mapsto> q)\<rparr>)
           else pStatus p0 \<noteq> TransactionStatusProposed \<and> p = p0 \<and> v' = v)))"

definition update_tx_spec ::
  "(TransactionProposal \<Rightarrow> TransactionProposal \<Rightarrow> bool) \<Rightarrow> TransactionProposal \<Rightarrow>
   'k store_view \<Rightarrow> error + unit \<Rightarrow> 'k store_view \<Rightarrow> bool" where
  "update_tx_spec K p v r v' \<longleftrightarrow>
     (case r of Inl _ \<Rightarrow> v' = v
      | Inr _ \<Rightarrow> vw_txs v (pID p) \<noteq> None \<and> (\<exists>q. K p q \<and> v' = v\<lparr>vw_txs := (vw_txs v)(pID p \<mapsto> q)\<rparr>))"

definition append_audit_spec ::
  "AuditEvent \<Rightarrow> 'k store_view \<Rightarrow> error + unit \<Rightarrow> 'k store_view \<Rightarrow> bool" where
  "append_audit_spec e v r v' \<longleftrightarrow>
     (case r of Inl _ \<Rightarrow> v' = v | Inr _ \<Rightarrow> (\<exists>e'. kept_event e e' \<and> v' = v\<lparr>vw_audit := vw_audit v @ [e']\<rparr>))"

text \<open>Listing: the newest events of the resource, at most \<open>audit_limit\<close> of them.\<close>

definition audit_limit :: "int \<Rightarrow> nat" where
  "audit_limit limit = (if limit \<le> 0 \<or> limit > 200 then 100 else nat limit)"

definition audit_matches :: "AuditFilter \<Rightarrow> AuditEvent \<Rightarrow> bool" where
  "audit_matches f e \<longleftrightarrow> fResourceID f = [] \<or> vResourceID e = fResourceID f"

definition newest_events :: "AuditFilter \<Rightarrow> AuditEvent list \<Rightarrow> AuditEvent list" where
  "newest_events f es = take (audit_limit (fLimit f)) (filter (audit_matches f) (rev es))"

lemmas store_spec_defs =
  create_wallet_spec_def create_wallet_idem_spec_def create_tx_spec_def create_tx_idem_spec_def
  get_wallet_spec_def get_tx_spec_def add_approval_spec_def mark_signed_spec_def
  update_tx_spec_def append_audit_spec_def

subsection \<open>The contract\<close>

text \<open>
  \<open>ok\<close> is the provider's representation invariant, \<open>view\<close> its abstraction function,
  \<open>ikey\<close> its idempotency key, \<open>clean\<close> the texts it keeps as they are, \<open>norm\<close> what it preserves of
  the request and the raw transaction.
\<close>

locale store_contract =
  fixes S :: "'st Store"
    and view :: "'st \<Rightarrow> 'k store_view"
    and ok :: "'st \<Rightarrow> bool"
    and ikey :: "string \<Rightarrow> string \<Rightarrow> 'k"
    and clean :: "string \<Rightarrow> bool"
    and norm :: "TransactionRequest \<Rightarrow> RawTransaction \<Rightarrow> 'c"
  assumes ok_stored: "ok s \<Longrightarrow> vw_txs (view s) i = Some p \<Longrightarrow> wf_proposal p \<and> fits clean p \<and> pID p = i"
    and ok_wallets: "ok s \<Longrightarrow> vw_wallets (view s) i = Some w \<Longrightarrow> wID w = i \<and> clean (wID w) \<and> clean (wChain w)"
    and CreateWallet_law: "ok s \<Longrightarrow> sCreateWallet S c w s = (r, s') \<Longrightarrow>
        ok s' \<and> create_wallet_spec w (view s) r (view s')"
    and CreateWalletIdempotently_law:
      "ok s \<Longrightarrow> sCreateWalletIdempotently S c w record s = (rw, s') \<Longrightarrow>
        ok s' \<and> create_wallet_idem_spec (ikey (iScope record) (iKey record)) w record (view s) rw (view s')"
    and GetWallet_law: "ok s \<Longrightarrow> sGetWallet S c i s = (rg, s') \<Longrightarrow>
        ok s' \<and> get_wallet_spec i (view s) rg (view s')"
    and CreateTransaction_law: "ok s \<Longrightarrow> wf_proposal p \<Longrightarrow> fits clean p \<Longrightarrow> sCreateTransaction S c p s = (r, s') \<Longrightarrow>
        ok s' \<and> create_tx_spec (kept clean norm) p (view s) r (view s')"
    and CreateTransactionIdempotently_law:
      "ok s \<Longrightarrow> wf_proposal p \<Longrightarrow> fits clean p \<Longrightarrow> sCreateTransactionIdempotently S c p record s = (rp, s') \<Longrightarrow>
        ok s' \<and> create_tx_idem_spec (kept clean norm) (ikey (iScope record) (iKey record)) p record (view s) rp (view s')"
    and GetTransaction_law: "ok s \<Longrightarrow> sGetTransaction S c i s = (rt, s') \<Longrightarrow>
        ok s' \<and> get_tx_spec i (view s) rt (view s')"
    and AddApproval_law: "ok s \<Longrightarrow> clean (SignerID a) \<Longrightarrow> sAddApproval S c i a s = (rt, s') \<Longrightarrow>
        ok s' \<and> add_approval_spec (kept clean norm) i a (view s) rt (view s')"
    and MarkTransactionSigned_law: "ok s \<Longrightarrow> sMarkTransactionSigned S c i stx s = (rp, s') \<Longrightarrow>
        ok s' \<and> mark_signed_spec (kept clean norm) i stx (view s) rp (view s')"
    and UpdateTransaction_law: "ok s \<Longrightarrow> wf_proposal p \<Longrightarrow> fits clean p \<Longrightarrow> sUpdateTransaction S c p s = (r, s') \<Longrightarrow>
        ok s' \<and> update_tx_spec (kept clean norm) p (view s) r (view s')"
    and AppendAuditEvent_law: "ok s \<Longrightarrow> sAppendAuditEvent S c e s = (r, s') \<Longrightarrow>
        ok s' \<and> append_audit_spec e (view s) r (view s')"
    and ListAuditEvents_law: "ok s \<Longrightarrow> sListAuditEvents S c f s = (rl, s') \<Longrightarrow>
        ok s' \<and> view s' = view s"

text \<open>
  A store that fails only when the context is done or the request is refused: what the
  liveness properties of the service rest on.
\<close>

locale reliable_store = store_contract +
  assumes CreateWallet_live: "ok s \<Longrightarrow> vw_wallets (view s) (wID w) = None \<Longrightarrow>
        fst (sCreateWallet S None w s) = Inr ()"
    and CreateWalletIdempotently_live:
      "ok s \<Longrightarrow> vw_idem (view s) (ikey (iScope record) (iKey record)) = Some ex \<Longrightarrow>
        vw_wallets (view s) (iResourceID ex) = Some w' \<Longrightarrow>
        fst (sCreateWalletIdempotently S None w record s) = Inr (w', False)"
    and CreateTransactionIdempotently_live:
      "ok s \<Longrightarrow> vw_idem (view s) (ikey (iScope record) (iKey record)) = Some ex \<Longrightarrow>
        vw_txs (view s) (iResourceID ex) = Some p' \<Longrightarrow> wf_proposal p \<Longrightarrow>
        fst (sCreateTransactionIdempotently S None p record s) = Inr (p', False)"
    and GetWallet_live: "ok s \<Longrightarrow> vw_wallets (view s) i = Some w \<Longrightarrow>
        fst (sGetWallet S None i s) = Inr w"
    and GetTransaction_live: "ok s \<Longrightarrow> vw_txs (view s) i = Some p \<Longrightarrow>
        fst (sGetTransaction S None i s) = Inr p"
    and AddApproval_live: "ok s \<Longrightarrow> vw_txs (view s) i = Some p \<Longrightarrow>
        pStatus p = TransactionStatusProposed \<Longrightarrow> SignerID a \<notin> set (gkeys (approvals p)) \<Longrightarrow>
        fst (sAddApproval S None i a s) = Inr (approve a p)"
    and MarkTransactionSigned_live: "ok s \<Longrightarrow> vw_txs (view s) i = Some p \<Longrightarrow>
        pStatus p = TransactionStatusProposed \<Longrightarrow>
        \<exists>t. fst (sMarkTransactionSigned S None i stx s) = Inr (sign_as stx t p, True)"
    and UpdateTransaction_live: "ok s \<Longrightarrow> wf_proposal p \<Longrightarrow> vw_txs (view s) (pID p) \<noteq> None \<Longrightarrow>
        fst (sUpdateTransaction S None p s) = Inr ()"
    and AppendAuditEvent_live: "ok s \<Longrightarrow> fst (sAppendAuditEvent S None e s) = Inr ()"

end
