(* ===== verification/Memory_Store.thy ===== *)
theory Memory_Store
  imports Store_Interface
begin

section \<open>The in-memory store\<close>

text \<open>
  \<^verbatim>\<open>internal/store/memory.go\<close>, operation by operation. Each operation first polls the
  context, then runs under the store's mutex, so it is one atomic step. The three Go maps
  that are only looked up and assigned are partial functions.
\<close>

record MemoryStore =
  wallets :: "string \<rightharpoonup> Wallet"
  transactions :: "string \<rightharpoonup> TransactionProposal"
  auditEvents :: "AuditEvent list"
  idempotency :: "string \<rightharpoonup> IdempotencyRecord"

definition NewMemoryStore :: MemoryStore where
  "NewMemoryStore = \<lparr>wallets = Map.empty, transactions = Map.empty, auditEvents = [], idempotency = Map.empty\<rparr>"

subsection \<open>Helpers\<close>

text \<open>Fresh maps with the same entries; the other fields of the struct are copied.\<close>

definition cloneProposal :: "TransactionProposal \<Rightarrow> TransactionProposal" where
  "cloneProposal proposal =
     (let proposal = (case pApprovals proposal of None \<Rightarrow> proposal
                      | Some m \<Rightarrow> proposal\<lparr>pApprovals := Some (gcopy m)\<rparr>)
      in (case pTrace proposal of None \<Rightarrow> proposal
          | Some m \<Rightarrow> proposal\<lparr>pTrace := Some (gcopy m)\<rparr>))"

text \<open>\<^verbatim>\<open>append([]byte(nil), event.Metadata...)\<close>: the same bytes in a new array.\<close>

definition cloneAuditEvent :: "AuditEvent \<Rightarrow> AuditEvent" where
  "cloneAuditEvent event =
     (if vMetadata event \<noteq> [] then event\<lparr>vMetadata := [] @ vMetadata event\<rparr> else event)"

definition idempotencyKey :: "string \<Rightarrow> string \<Rightarrow> string" where
  "idempotencyKey scope key = scope @ [CHR 0x00] @ key"

subsection \<open>Operations\<close>

definition CreateWallet :: "ctx \<Rightarrow> Wallet \<Rightarrow> MemoryStore \<Rightarrow> (error + unit) \<times> MemoryStore" where
  "CreateWallet ctx w s =
     (case ctx of Some err \<Rightarrow> (Inl err, s) | None \<Rightarrow>
      (case wallets s (wID w) of
         Some _ \<Rightarrow> (Inl ErrDuplicateWallet, s)
       | None \<Rightarrow> (Inr (), s\<lparr>wallets := (wallets s)(wID w \<mapsto> w)\<rparr>)))"

definition CreateWalletIdempotently ::
  "ctx \<Rightarrow> Wallet \<Rightarrow> IdempotencyRecord \<Rightarrow> MemoryStore \<Rightarrow> (error + Wallet \<times> bool) \<times> MemoryStore" where
  "CreateWalletIdempotently ctx w record s =
     (case ctx of Some err \<Rightarrow> (Inl err, s) | None \<Rightarrow>
      let key = idempotencyKey (iScope record) (iKey record) in
      (case idempotency s key of
         Some existing \<Rightarrow>
           (case wallets s (iResourceID existing) of
              None \<Rightarrow> (Inl ErrWalletNotFound, s)
            | Some stored \<Rightarrow> (Inr (stored, False), s))
       | None \<Rightarrow>
           (case wallets s (wID w) of
              Some _ \<Rightarrow> (Inl ErrDuplicateWallet, s)
            | None \<Rightarrow> (Inr (w, True),
                s\<lparr>wallets := (wallets s)(wID w \<mapsto> w), idempotency := (idempotency s)(key \<mapsto> record)\<rparr>))))"

definition GetWallet :: "ctx \<Rightarrow> string \<Rightarrow> MemoryStore \<Rightarrow> (error + Wallet) \<times> MemoryStore" where
  "GetWallet ctx i s =
     (case ctx of Some err \<Rightarrow> (Inl err, s) | None \<Rightarrow>
      (case wallets s i of None \<Rightarrow> (Inl ErrWalletNotFound, s) | Some w \<Rightarrow> (Inr w, s)))"

definition CreateTransaction ::
  "ctx \<Rightarrow> TransactionProposal \<Rightarrow> MemoryStore \<Rightarrow> (error + unit) \<times> MemoryStore" where
  "CreateTransaction ctx proposal s =
     (case ctx of Some err \<Rightarrow> (Inl err, s) | None \<Rightarrow>
      (case transactions s (pID proposal) of
         Some _ \<Rightarrow> (Inl ErrDuplicateTransaction, s)
       | None \<Rightarrow> (Inr (), s\<lparr>transactions := (transactions s)(pID proposal \<mapsto> cloneProposal proposal)\<rparr>)))"

definition CreateTransactionIdempotently ::
  "ctx \<Rightarrow> TransactionProposal \<Rightarrow> IdempotencyRecord \<Rightarrow> MemoryStore \<Rightarrow>
   (error + TransactionProposal \<times> bool) \<times> MemoryStore" where
  "CreateTransactionIdempotently ctx proposal record s =
     (case ctx of Some err \<Rightarrow> (Inl err, s) | None \<Rightarrow>
      let key = idempotencyKey (iScope record) (iKey record) in
      (case idempotency s key of
         Some existing \<Rightarrow>
           (case transactions s (iResourceID existing) of
              None \<Rightarrow> (Inl ErrTransactionNotFound, s)
            | Some stored \<Rightarrow> (Inr (cloneProposal stored, False), s))
       | None \<Rightarrow>
           (case transactions s (pID proposal) of
              Some _ \<Rightarrow> (Inl ErrDuplicateTransaction, s)
            | None \<Rightarrow> (Inr (cloneProposal proposal, True),
                s\<lparr>transactions := (transactions s)(pID proposal \<mapsto> cloneProposal proposal),
                  idempotency := (idempotency s)(key \<mapsto> record)\<rparr>))))"

definition GetTransaction ::
  "ctx \<Rightarrow> string \<Rightarrow> MemoryStore \<Rightarrow> (error + TransactionProposal) \<times> MemoryStore" where
  "GetTransaction ctx i s =
     (case ctx of Some err \<Rightarrow> (Inl err, s) | None \<Rightarrow>
      (case transactions s i of
         None \<Rightarrow> (Inl ErrTransactionNotFound, s)
       | Some proposal \<Rightarrow> (Inr (cloneProposal proposal), s)))"

definition UpdateTransaction ::
  "ctx \<Rightarrow> TransactionProposal \<Rightarrow> MemoryStore \<Rightarrow> (error + unit) \<times> MemoryStore" where
  "UpdateTransaction ctx proposal s =
     (case ctx of Some err \<Rightarrow> (Inl err, s) | None \<Rightarrow>
      (case transactions s (pID proposal) of
         None \<Rightarrow> (Inl ErrTransactionNotFound, s)
       | Some _ \<Rightarrow> (Inr (), s\<lparr>transactions := (transactions s)(pID proposal \<mapsto> cloneProposal proposal)\<rparr>)))"

text \<open>
  The approval is written into the stored proposal's own map (the local struct shares it)
  and the struct is stored again; every path that returns an error leaves before the write.
\<close>

definition AddApproval ::
  "ctx \<Rightarrow> string \<Rightarrow> Approval \<Rightarrow> MemoryStore \<Rightarrow> (error + TransactionProposal) \<times> MemoryStore" where
  "AddApproval ctx transactionID approval s =
     (case ctx of Some err \<Rightarrow> (Inl err, s) | None \<Rightarrow>
      (case transactions s transactionID of
         None \<Rightarrow> (Inl ErrTransactionNotFound, s)
       | Some proposal \<Rightarrow>
           if pStatus proposal \<noteq> TransactionStatusProposed then (Inl ErrTransactionNotProposed, s)
           else
             let m = (case pApprovals proposal of None \<Rightarrow> [] | Some m \<Rightarrow> m) in
             if map_of m (SignerID approval) \<noteq> None then (Inl ErrDuplicateApproval, s)
             else
               let proposal = proposal\<lparr>pApprovals := Some (gput (SignerID approval) approval m),
                                        pUpdatedAt := aCreatedAt approval\<rparr>
               in (Inr (cloneProposal proposal),
                   s\<lparr>transactions := (transactions s)(transactionID \<mapsto> cloneProposal proposal)\<rparr>)))"

definition latest_approval :: "(string, Approval) gomap \<Rightarrow> time \<Rightarrow> time" where
  "latest_approval m t = foldl (\<lambda>t (_, a). if t < aCreatedAt a then aCreatedAt a else t) t m"

definition MarkTransactionSigned ::
  "ctx \<Rightarrow> string \<Rightarrow> string \<Rightarrow> MemoryStore \<Rightarrow> (error + TransactionProposal \<times> bool) \<times> MemoryStore" where
  "MarkTransactionSigned ctx transactionID signedTransaction s =
     (case ctx of Some err \<Rightarrow> (Inl err, s) | None \<Rightarrow>
      (case transactions s transactionID of
         None \<Rightarrow> (Inl ErrTransactionNotFound, s)
       | Some proposal \<Rightarrow>
           if pStatus proposal \<noteq> TransactionStatusProposed
           then (Inr (cloneProposal proposal, False), s)
           else
             let proposal = proposal\<lparr>pStatus := TransactionStatusSigned,
                                      pSignedTransaction := signedTransaction,
                                      pUpdatedAt := latest_approval (approvals proposal) (pUpdatedAt proposal)\<rparr>
             in (Inr (cloneProposal proposal, True),
                 s\<lparr>transactions := (transactions s)(transactionID \<mapsto> cloneProposal proposal)\<rparr>)))"

definition AppendAuditEvent :: "ctx \<Rightarrow> AuditEvent \<Rightarrow> MemoryStore \<Rightarrow> (error + unit) \<times> MemoryStore" where
  "AppendAuditEvent ctx event s =
     (case ctx of Some err \<Rightarrow> (Inl err, s) | None \<Rightarrow>
      (Inr (), s\<lparr>auditEvents := auditEvents s @ [cloneAuditEvent event]\<rparr>))"

text \<open>
  \<^verbatim>\<open>for i := len - 1; i >= 0 && len(events) < limit; i--\<close>; the first argument is
  \<open>i + 1\<close>, so \<open>0\<close> is the loop's end.
\<close>

fun list_loop :: "nat \<Rightarrow> AuditEvent list \<Rightarrow> AuditFilter \<Rightarrow> nat \<Rightarrow> AuditEvent list \<Rightarrow> AuditEvent list" where
  "list_loop 0 log f limit events = events"
| "list_loop (Suc i) log f limit events =
     (if length events < limit
      then (let event = log ! i in
            if fResourceID f \<noteq> [] \<and> vResourceID event \<noteq> fResourceID f
            then list_loop i log f limit events
            else list_loop i log f limit (events @ [cloneAuditEvent event]))
      else events)"

definition ListAuditEvents ::
  "ctx \<Rightarrow> AuditFilter \<Rightarrow> MemoryStore \<Rightarrow> (error + AuditEvent list) \<times> MemoryStore" where
  "ListAuditEvents ctx f s =
     (case ctx of Some err \<Rightarrow> (Inl err, s) | None \<Rightarrow>
      let limit = fLimit f;
          limit = (if limit \<le> 0 \<or> limit > 200 then 100 else limit)
      in (Inr (list_loop (length (auditEvents s)) (auditEvents s) f (nat limit) []), s))"

definition SaveIdempotency :: "ctx \<Rightarrow> IdempotencyRecord \<Rightarrow> MemoryStore \<Rightarrow> (error + unit) \<times> MemoryStore" where
  "SaveIdempotency ctx record s =
     (case ctx of Some err \<Rightarrow> (Inl err, s) | None \<Rightarrow>
      let key = idempotencyKey (iScope record) (iKey record) in
      (case idempotency s key of
         Some _ \<Rightarrow> (Inl ErrDuplicateIdempotency, s)
       | None \<Rightarrow> (Inr (), s\<lparr>idempotency := (idempotency s)(key \<mapsto> record)\<rparr>)))"

text \<open>A missing key is the zero record and no error.\<close>

definition GetIdempotency ::
  "ctx \<Rightarrow> string \<Rightarrow> string \<Rightarrow> MemoryStore \<Rightarrow> (error + IdempotencyRecord) \<times> MemoryStore" where
  "GetIdempotency ctx scope key s =
     (case ctx of Some err \<Rightarrow> (Inl err, s) | None \<Rightarrow>
      (case idempotency s (idempotencyKey scope key) of
         None \<Rightarrow> (Inr \<lparr>iScope = [], iKey = [], iResourceType = [], iResourceID = [], iCreatedAt = zero_time\<rparr>, s)
       | Some record \<Rightarrow> (Inr record, s)))"

definition memory_store :: "MemoryStore Store" where
  "memory_store =
     \<lparr>sCreateWallet = CreateWallet, sCreateWalletIdempotently = CreateWalletIdempotently,
      sGetWallet = GetWallet, sCreateTransaction = CreateTransaction,
      sCreateTransactionIdempotently = CreateTransactionIdempotently,
      sGetTransaction = GetTransaction, sAddApproval = AddApproval,
      sMarkTransactionSigned = MarkTransactionSigned, sUpdateTransaction = UpdateTransaction,
      sAppendAuditEvent = AppendAuditEvent, sListAuditEvents = ListAuditEvents\<rparr>"

subsection \<open>Cloning and the loops\<close>

lemma cloneProposal_wf [simp]: "wf_proposal p \<Longrightarrow> cloneProposal p = p"
  by (cases p) (auto simp: cloneProposal_def wf_proposal_def approvals_def Let_def split: option.splits)

lemma cloneAuditEvent_id [simp]: "cloneAuditEvent e = e"
  by (simp add: cloneAuditEvent_def)

lemma AddApproval_approve:
  "p\<lparr>pApprovals := Some (gput (SignerID a) a (case pApprovals p of None \<Rightarrow> [] | Some m \<Rightarrow> m)),
     pUpdatedAt := aCreatedAt a\<rparr> = approve a p"
  by (simp add: approve_def approvals_def)

text \<open>The range loop computes a maximum, so the iteration order does not matter.\<close>

lemma latest_approval_Max:
  "latest_approval m t = Max (insert t (aCreatedAt ` snd ` set m))"
proof (induction m arbitrary: t)
  case Nil
  then show ?case by (simp add: latest_approval_def)
next
  case (Cons kv m)
  obtain k a where kv: "kv = (k, a)" by (cases kv)
  have "latest_approval (kv # m) t = latest_approval m (max t (aCreatedAt a))"
    by (simp add: latest_approval_def kv max_def)
  also have "\<dots> = Max (insert (max t (aCreatedAt a)) (aCreatedAt ` snd ` set m))"
    by (rule Cons.IH)
  also have "\<dots> = Max (insert t (aCreatedAt ` snd ` set (kv # m)))"
    by (cases "m = []") (simp_all add: kv max.assoc)
  finally show ?case .
qed

text \<open>The backward loop with its early stop is the reference listing.\<close>

lemma list_loop_spec:
  assumes "i \<le> length log"
  shows "list_loop i log f limit acc =
     acc @ take (limit - length acc) (filter (audit_matches f) (rev (take i log)))"
  using assms
proof (induction i arbitrary: acc)
  case 0
  then show ?case by simp
next
  case (Suc i)
  then have "take (Suc i) log = take i log @ [log ! i]" by (simp add: take_Suc_conv_app_nth)
  with Suc show ?case
    by (auto simp: Let_def audit_matches_def take_Cons' Suc_diff_Suc)
qed

lemma ListAuditEvents_newest:
  "ListAuditEvents None f s = (Inr (newest_events f (auditEvents s)), s)"
  by (simp add: ListAuditEvents_def Let_def list_loop_spec newest_events_def audit_limit_def)

subsection \<open>The memory store meets the contract\<close>

definition mem_ok :: "MemoryStore \<Rightarrow> bool" where
  "mem_ok s \<longleftrightarrow>
     (\<forall>i p. transactions s i = Some p \<longrightarrow> wf_proposal p \<and> pID p = i) \<and>
     (\<forall>i w. wallets s i = Some w \<longrightarrow> wID w = i)"

definition mem_view :: "MemoryStore \<Rightarrow> string store_view" where
  "mem_view s = \<lparr>vw_wallets = wallets s, vw_txs = transactions s,
                 vw_audit = auditEvents s, vw_idem = idempotency s\<rparr>"

abbreviation mem_kept :: "TransactionProposal \<Rightarrow> TransactionProposal \<Rightarrow> bool" where
  "mem_kept \<equiv> kept (\<lambda>_. True) Pair"

lemma fits_any [simp]: "fits (\<lambda>_. True) p"
  by (simp add: fits_def)

text \<open>What the memory store keeps is what it was given.\<close>

lemma mem_keeps [simp]:
  "\<exists>x. kept_wallet w x \<and> W(i \<mapsto> w) = W(i \<mapsto> x)"
  "wf_proposal p \<Longrightarrow> \<exists>q. mem_kept p q \<and> M(i \<mapsto> p) = M(i \<mapsto> q)"
  "wf_proposal p \<Longrightarrow> \<exists>q. mem_kept p q \<and> v\<lparr>vw_txs := M(i \<mapsto> p)\<rparr> = v\<lparr>vw_txs := M(i \<mapsto> q)\<rparr>"
  "\<exists>e'. kept_event e e' \<and> es @ [e] = es @ [e']"
  "\<exists>x. kept_wallet w x \<and> (\<exists>s. kept_record r s \<and> W(i \<mapsto> w) = W(i \<mapsto> x) \<and> R(k \<mapsto> r) = R(k \<mapsto> s))"
  "wf_proposal p \<Longrightarrow> \<exists>q. mem_kept p q \<and> (\<exists>s. kept_record r s \<and> M(i \<mapsto> p) = M(i \<mapsto> q) \<and> R(k \<mapsto> r) = R(k \<mapsto> s))"
  by (rule exI [of _ w] exI [of _ p] exI [of _ e]; auto intro: exI [of _ r])+

lemma mem_ok_New [simp]: "mem_ok NewMemoryStore"
  by (simp add: mem_ok_def NewMemoryStore_def)

lemma mem_view_simps [simp]:
  "vw_wallets (mem_view s) = wallets s" "vw_txs (mem_view s) = transactions s"
  "vw_audit (mem_view s) = auditEvents s" "vw_idem (mem_view s) = idempotency s"
  by (simp_all add: mem_view_def)

lemma mem_view_put [simp]:
  "mem_view (s\<lparr>transactions := f\<rparr>) = (mem_view s)\<lparr>vw_txs := f\<rparr>"
  by (simp add: mem_view_def)

lemma mem_ok_put:
  "mem_ok s \<Longrightarrow> wf_proposal q \<Longrightarrow> pID q = i \<Longrightarrow> mem_ok (s\<lparr>transactions := (transactions s)(i \<mapsto> q)\<rparr>)"
  by (auto simp: mem_ok_def)

lemma memory_store_simps [simp]:
  "sCreateWallet memory_store = CreateWallet"
  "sCreateWalletIdempotently memory_store = CreateWalletIdempotently"
  "sGetWallet memory_store = GetWallet"
  "sCreateTransaction memory_store = CreateTransaction"
  "sCreateTransactionIdempotently memory_store = CreateTransactionIdempotently"
  "sGetTransaction memory_store = GetTransaction"
  "sAddApproval memory_store = AddApproval"
  "sMarkTransactionSigned memory_store = MarkTransactionSigned"
  "sUpdateTransaction memory_store = UpdateTransaction"
  "sAppendAuditEvent memory_store = AppendAuditEvent"
  "sListAuditEvents memory_store = ListAuditEvents"
  by (simp_all add: memory_store_def)

lemmas mem_op_defs =
  CreateWallet_def CreateWalletIdempotently_def GetWallet_def CreateTransaction_def
  CreateTransactionIdempotently_def GetTransaction_def UpdateTransaction_def
  AppendAuditEvent_def ListAuditEvents_def

lemma mem_CreateWallet_law:
  assumes "mem_ok s" and "CreateWallet c w s = (r, s')"
  shows "mem_ok s' \<and> create_wallet_spec w (mem_view s) r (mem_view s')"
  using assms
  by (auto simp: CreateWallet_def create_wallet_spec_def mem_ok_def mem_view_def split: option.splits if_splits)

lemma mem_CreateWalletIdempotently_law:
  assumes "mem_ok s" and "CreateWalletIdempotently c w rec s = (r, s')"
  shows "mem_ok s' \<and>
     create_wallet_idem_spec (idempotencyKey (iScope rec) (iKey rec)) w rec (mem_view s) r (mem_view s')"
  using assms
  by (auto simp: CreateWalletIdempotently_def create_wallet_idem_spec_def mem_ok_def mem_view_def Let_def
      split: option.splits if_splits)

lemma mem_GetWallet_law:
  assumes "mem_ok s" and "GetWallet c i s = (r, s')"
  shows "mem_ok s' \<and> get_wallet_spec i (mem_view s) r (mem_view s')"
  using assms by (auto simp: GetWallet_def get_wallet_spec_def split: option.splits if_splits)

lemma mem_CreateTransaction_law:
  assumes "mem_ok s" and "wf_proposal p" and "CreateTransaction c p s = (r, s')"
  shows "mem_ok s' \<and> create_tx_spec mem_kept p (mem_view s) r (mem_view s')"
  using assms
  by (auto simp: CreateTransaction_def create_tx_spec_def mem_ok_def mem_view_def split: option.splits if_splits)

lemma mem_CreateTransactionIdempotently_law:
  assumes "mem_ok s" and "wf_proposal p" and "CreateTransactionIdempotently c p rec s = (r, s')"
  shows "mem_ok s' \<and>
     create_tx_idem_spec mem_kept (idempotencyKey (iScope rec) (iKey rec)) p rec (mem_view s) r (mem_view s')"
proof -
  have "stored \<in> ran (transactions s) \<Longrightarrow> cloneProposal stored = stored" for stored
    using assms(1) by (auto simp: mem_ok_def ran_def)
  with assms show ?thesis
    by (auto simp: CreateTransactionIdempotently_def create_tx_idem_spec_def mem_ok_def mem_view_def
        Let_def split: option.splits if_splits)
qed

lemma mem_GetTransaction_law:
  assumes "mem_ok s" and "GetTransaction c i s = (r, s')"
  shows "mem_ok s' \<and> get_tx_spec i (mem_view s) r (mem_view s')"
  using assms by (auto simp: GetTransaction_def get_tx_spec_def mem_ok_def split: option.splits if_splits)

lemma mem_UpdateTransaction_law:
  assumes "mem_ok s" and "wf_proposal p" and "UpdateTransaction c p s = (r, s')"
  shows "mem_ok s' \<and> update_tx_spec mem_kept p (mem_view s) r (mem_view s')"
  using assms
  by (auto simp: UpdateTransaction_def update_tx_spec_def mem_ok_def mem_view_def split: option.splits if_splits)

lemma mem_AppendAuditEvent_law:
  assumes "mem_ok s" and "AppendAuditEvent c e s = (r, s')"
  shows "mem_ok s' \<and> append_audit_spec e (mem_view s) r (mem_view s')"
  using assms
  by (auto simp: AppendAuditEvent_def append_audit_spec_def mem_ok_def mem_view_def split: option.splits if_splits)

lemma mem_ListAuditEvents_law:
  assumes "mem_ok s" and "ListAuditEvents c f s = (r, s')"
  shows "mem_ok s' \<and> mem_view s' = mem_view s"
  using assms by (auto simp: ListAuditEvents_def Let_def split: option.splits if_splits)

lemma mem_AddApproval_live:
  assumes "mem_ok s" and "transactions s i = Some p" and "pStatus p = TransactionStatusProposed"
    and "SignerID a \<notin> set (gkeys (approvals p))"
  shows "AddApproval None i a s =
     (Inr (approve a p), s\<lparr>transactions := (transactions s)(i \<mapsto> approve a p)\<rparr>)"
proof -
  have "wf_proposal (approve a p)" using assms by (auto simp: mem_ok_def intro: wf_approve)
  with assms(2-) show ?thesis
    by (simp add: AddApproval_def Let_def AddApproval_approve approvals_def)
qed

lemma mem_MarkTransactionSigned_live:
  assumes "mem_ok s" and "transactions s i = Some p" and "pStatus p = TransactionStatusProposed"
  shows "MarkTransactionSigned None i x s =
     (let q = sign_as x (latest_approval (approvals p) (pUpdatedAt p)) p
      in (Inr (q, True), s\<lparr>transactions := (transactions s)(i \<mapsto> q)\<rparr>))"
proof -
  have "wf_proposal (sign_as x t p)" for t using assms by (auto simp: mem_ok_def)
  with assms(2-) show ?thesis
    by (simp add: MarkTransactionSigned_def Let_def flip: sign_as_def)
qed

lemma mem_AddApproval_law:
  assumes ok: "mem_ok s" and eq: "AddApproval c i a s = (r, s')"
  shows "mem_ok s' \<and> add_approval_spec mem_kept i a (mem_view s) r (mem_view s')"
proof (cases "\<exists>p. c = None \<and> transactions s i = Some p \<and> pStatus p = TransactionStatusProposed \<and>
     SignerID a \<notin> set (gkeys (approvals p))")
  case True
  then obtain p where p: "c = None" "transactions s i = Some p" "pStatus p = TransactionStatusProposed"
    "SignerID a \<notin> set (gkeys (approvals p))" by blast
  from ok p have "wf_proposal (approve a p)" and "pID p = i"
    by (auto simp: mem_ok_def intro: wf_approve)
  with eq ok p mem_AddApproval_live [OF ok p(2-4)] show ?thesis
    by (auto simp: add_approval_spec_def intro: mem_ok_put)
next
  case False
  with eq have "s' = s \<and> (\<exists>e. r = Inl e)"
    by (auto simp: AddApproval_def Let_def approvals_def split: option.splits if_splits)
  with ok show ?thesis by (auto simp: add_approval_spec_def)
qed

lemma mem_MarkTransactionSigned_law:
  assumes ok: "mem_ok s" and eq: "MarkTransactionSigned c i x s = (r, s')"
  shows "mem_ok s' \<and> mark_signed_spec mem_kept i x (mem_view s) r (mem_view s')"
proof (cases "\<exists>p. c = None \<and> transactions s i = Some p \<and> pStatus p = TransactionStatusProposed")
  case True
  then obtain p where p: "c = None" "transactions s i = Some p" "pStatus p = TransactionStatusProposed"
    by blast
  define q where "q = sign_as x (latest_approval (approvals p) (pUpdatedAt p)) p"
  from ok p have "wf_proposal q" and "pID q = i" by (auto simp: mem_ok_def q_def)
  with eq ok p mem_MarkTransactionSigned_live [OF ok p(2,3), of x] show ?thesis
    by (auto simp: mark_signed_spec_def Let_def simp flip: q_def intro: mem_ok_put) (auto simp: q_def)
next
  case False
  with eq ok show ?thesis
    by (auto simp: MarkTransactionSigned_def mark_signed_spec_def mem_ok_def Let_def
        split: option.splits if_splits)
qed

lemmas mem_laws =
  mem_CreateWallet_law mem_CreateWalletIdempotently_law mem_GetWallet_law mem_CreateTransaction_law
  mem_CreateTransactionIdempotently_law mem_GetTransaction_law mem_AddApproval_law
  mem_MarkTransactionSigned_law mem_UpdateTransaction_law mem_AppendAuditEvent_law
  mem_ListAuditEvents_law

interpretation mem: store_contract memory_store mem_view mem_ok idempotencyKey "\<lambda>_. True" Pair
proof unfold_locales
  fix s i p
  assume "mem_ok s" and "vw_txs (mem_view s) i = Some p"
  then show "wf_proposal p \<and> fits (\<lambda>_. True) p \<and> pID p = i" by (simp add: mem_ok_def)
next
  fix s i w
  assume "mem_ok s" and "vw_wallets (mem_view s) i = Some w"
  then show "wID w = i \<and> True \<and> True" by (simp add: mem_ok_def)
qed (unfold memory_store_simps, (erule (2) mem_laws | erule (1) mem_laws)+)

interpretation mem: reliable_store memory_store mem_view mem_ok idempotencyKey "\<lambda>_. True" Pair
proof unfold_locales
  fix s i p
  assume "mem_ok s" and "vw_txs (mem_view s) i = Some p"
  then show "fst (sGetTransaction memory_store None i s) = Inr p"
    by (simp add: GetTransaction_def mem_ok_def)
next
  fix s ex p' p
  fix rec :: IdempotencyRecord
  assume "mem_ok s" and "vw_idem (mem_view s) (idempotencyKey (iScope rec) (iKey rec)) = Some ex"
    and "vw_txs (mem_view s) (iResourceID ex) = Some p'"
  then show "fst (sCreateTransactionIdempotently memory_store None p rec s) = Inr (p', False)"
    by (simp add: CreateTransactionIdempotently_def mem_ok_def)
next
  fix s i p stx
  assume "mem_ok s" and "vw_txs (mem_view s) i = Some p" and "pStatus p = TransactionStatusProposed"
  then show "\<exists>t. fst (sMarkTransactionSigned memory_store None i stx s) = Inr (sign_as stx t p, True)"
    by (auto simp: mem_MarkTransactionSigned_live Let_def)
qed (auto simp: mem_AddApproval_live CreateWallet_def CreateWalletIdempotently_def GetWallet_def
     UpdateTransaction_def AppendAuditEvent_def)

subsection \<open>Idempotency keys\<close>

text \<open>
  Scope and key are joined by a NUL byte: the joint key determines both as long as the
  scopes hold no NUL.
\<close>

lemma idempotencyKey_inj:
  assumes "CHR 0x00 \<notin> set scope" and "CHR 0x00 \<notin> set scope'"
    and "idempotencyKey scope key = idempotencyKey scope' key'"
  shows "scope = scope' \<and> key = key'"
proof -
  have take: "takeWhile (\<lambda>c. c \<noteq> CHR 0x00) (idempotencyKey sc k) = sc" if "CHR 0x00 \<notin> set sc" for sc k
    using that by (auto simp: idempotencyKey_def takeWhile_append)
  have "scope = scope'" using take [OF assms(1)] take [OF assms(2)] assms(3) by metis
  with assms(3) show ?thesis by (simp add: idempotencyKey_def)
qed

subsection \<open>Properties\<close>

text \<open>
  C23. The in-memory store implements the store contract: every operation meets its
  specification on the abstract view and keeps the representation invariant, and it fails
  only when the context is done or the request is refused.
\<close>

theorem memory_store_implements_contract:
  "reliable_store memory_store mem_view mem_ok idempotencyKey (\<lambda>_. True) Pair"
  by (rule mem.reliable_store_axioms)

text \<open>
  C28. Listing returns the newest matching audit events first, at most as many as asked for,
  never more than 200, and does not change the store; a limit outside 1 to 200 means 100.
\<close>

theorem list_returns_newest_events:
  "ListAuditEvents None f s = (Inr (newest_events f (auditEvents s)), s) \<and>
   length (newest_events f (auditEvents s)) \<le> 200 \<and>
   (1 \<le> fLimit f \<and> fLimit f \<le> 200 \<longrightarrow> length (newest_events f (auditEvents s)) \<le> nat (fLimit f))"
  using ListAuditEvents_newest [of f s] by (auto simp: newest_events_def audit_limit_def)

theorem list_returns_newest_events_witness:
  "length (newest_events \<lparr>fResourceID = [], fLimit = 1\<rparr>
     (auditEvents (NewMemoryStore\<lparr>auditEvents := [undefined, undefined]\<rparr>))) \<le> nat 1"
  using list_returns_newest_events [of "\<lparr>fResourceID = [], fLimit = 1\<rparr>" "NewMemoryStore\<lparr>auditEvents := [undefined, undefined]\<rparr>"]
  by simp

text \<open>
  C29. A proposed transaction is marked signed once: the first call stores the payload with
  the latest of the proposal's own time and all approval times, a second call reports that it
  changed nothing and returns the stored transaction.
\<close>

theorem signed_once_at_latest_approval:
  assumes "mem_ok s" and "transactions s i = Some p" and "pStatus p = TransactionStatusProposed"
    and "MarkTransactionSigned None i x s = (r, s1)"
  shows "\<exists>q. r = Inr (q, True) \<and> transactions s1 i = Some q \<and> pStatus q = TransactionStatusSigned \<and>
     pSignedTransaction q = x \<and> approvals q = approvals p \<and>
     pUpdatedAt q = Max (insert (pUpdatedAt p) (aCreatedAt ` snd ` set (approvals p))) \<and>
     MarkTransactionSigned None i y s1 = (Inr (q, False), s1)"
proof -
  let ?q = "sign_as x (latest_approval (approvals p) (pUpdatedAt p)) p"
  have s1: "r = Inr (?q, True)" "s1 = s\<lparr>transactions := (transactions s)(i \<mapsto> ?q)\<rparr>"
    using mem_MarkTransactionSigned_live [OF assms(1-3), of x] assms(4) by (simp_all add: Let_def)
  have "cloneProposal ?q = ?q" using assms(1,2) by (auto simp: mem_ok_def)
  with s1 show ?thesis by (simp add: MarkTransactionSigned_def latest_approval_Max)
qed

text \<open>Different scopes or client keys are different keys, as long as the scopes hold no NUL byte.\<close>

lemma idempotency_keys_do_not_collide:
  assumes "CHR 0x00 \<notin> set scope" and "CHR 0x00 \<notin> set scope'" and "(scope, key) \<noteq> (scope', key')"
  shows "idempotencyKey scope key \<noteq> idempotencyKey scope' key'"
  using idempotencyKey_inj [of scope scope' key key'] assms by blast

end
