(* ===== verification/Go_Json.thy ===== *)
theory Go_Json
  imports Go_Base "HOL-Library.List_Lexorder" "HOL-Library.Char_ord"
begin

section \<open>Package encoding/json\<close>

text \<open>
  JSON values and the text \<^verbatim>\<open>json.Marshal\<close> writes for them: compact, map keys sorted as
  byte strings, strings escaped the way the encoder escapes them by default (also the
  characters special to HTML, U+2028 and U+2029, and invalid UTF-8 as U+FFFD).
  A number is kept as its literal.
\<close>

datatype json =
    JNull
  | JBool bool
  | JNum string
  | JStr string
  | JArr "json list"
  | JObj "(string \<times> json) list"
  | JRaw string \<comment> \<open>the compact text of a \<^verbatim>\<open>json.RawMessage\<close> in a value to write\<close>

subsection \<open>UTF-8\<close>

abbreviation ord :: "char \<Rightarrow> nat" where
  "ord c \<equiv> of_char c"

definition cont_byte :: "char \<Rightarrow> bool" where
  "cont_byte c \<longleftrightarrow> 128 \<le> ord c \<and> ord c \<le> 191"

text \<open>
  The length of the valid encoding at the head of a string, \<open>0\<close> where there is none
  (\<^verbatim>\<open>utf8.DecodeRune\<close> returning \<^verbatim>\<open>RuneError\<close> with width 1).
\<close>

definition rune_len :: "string \<Rightarrow> nat" where
  "rune_len s =
     (case s of [] \<Rightarrow> 0 | a # t \<Rightarrow>
      if ord a < 128 then 1
      else (case t of [] \<Rightarrow> 0 | b # u \<Rightarrow>
        if 194 \<le> ord a \<and> ord a \<le> 223 then (if cont_byte b then 2 else 0)
        else (case u of [] \<Rightarrow> 0 | c # v \<Rightarrow>
          if 224 \<le> ord a \<and> ord a \<le> 239
          then (if cont_byte b \<and> cont_byte c \<and> (ord a = 224 \<longrightarrow> 160 \<le> ord b) \<and> (ord a = 237 \<longrightarrow> ord b \<le> 159)
                then 3 else 0)
          else (case v of [] \<Rightarrow> 0 | d # _ \<Rightarrow>
            if 240 \<le> ord a \<and> ord a \<le> 244 \<and> cont_byte b \<and> cont_byte c \<and> cont_byte d \<and>
               (ord a = 240 \<longrightarrow> 144 \<le> ord b) \<and> (ord a = 244 \<longrightarrow> ord b \<le> 143)
            then 4 else 0))))"

subsection \<open>Writing\<close>

definition esc_u00 :: "char \<Rightarrow> string" where
  "esc_u00 c = CHR 0x5C # ''u00'' @ [hextable ! (ord c div 16), hextable ! (ord c mod 16)]"

definition esc_ascii :: "char \<Rightarrow> string" where
  "esc_ascii c =
     (if c = CHR 0x22 \<or> c = CHR 0x5C then [CHR 0x5C, c]
      else if c = CHR 0x08 then [CHR 0x5C, CHR ''b'']
      else if c = CHR 0x0C then [CHR 0x5C, CHR ''f'']
      else if c = CHR 0x0A then [CHR 0x5C, CHR ''n'']
      else if c = CHR 0x0D then [CHR 0x5C, CHR ''r'']
      else if c = CHR 0x09 then [CHR 0x5C, CHR ''t'']
      else if ord c < 32 \<or> c = CHR ''<'' \<or> c = CHR ''>'' \<or> c = CHR ''&'' then esc_u00 c
      else [c])"

function json_escape :: "string \<Rightarrow> string" where
  "json_escape [] = []"
| "json_escape (c # s) =
     (if ord c < 128 then esc_ascii c @ json_escape s
      else let k = rune_len (c # s) in
        if k = 0 then CHR 0x5C # ''ufffd'' @ json_escape s
        else (if take k (c # s) = [CHR 0xE2, CHR 0x80, CHR 0xA8] then CHR 0x5C # ''u2028''
              else if take k (c # s) = [CHR 0xE2, CHR 0x80, CHR 0xA9] then CHR 0x5C # ''u2029''
              else take k (c # s)) @ json_escape (drop (k - 1) s))"
  by pat_completeness auto
termination by (relation "measure length") auto

definition json_string :: "string \<Rightarrow> string" where
  "json_string s = [CHR 0x22] @ json_escape s @ [CHR 0x22]"

fun json_text :: "json \<Rightarrow> string" where
  "json_text JNull = ''null''"
| "json_text (JBool b) = (if b then ''true'' else ''false'')"
| "json_text (JNum l) = l"
| "json_text (JStr s) = json_string s"
| "json_text (JArr xs) = ''['' @ Join (map json_text xs) '','' @ '']''"
| "json_text (JObj ms) =
     ''{'' @ Join (map (\<lambda>kv. json_string (fst kv) @ '':'' @ json_text (snd kv)) ms) '','' @ ''}''"
| "json_text (JRaw r) = r"

text \<open>
  A \<^verbatim>\<open>map[string]string\<close>: the encoder collects the keys in iteration order and sorts
  them before writing.
\<close>

definition json_of_map :: "(string, string) gomap \<Rightarrow> json" where
  "json_of_map m = JObj (map (\<lambda>k. (k, JStr (the (map_of m k)))) (sort (gkeys m)))"

text \<open>
  \<^verbatim>\<open>mustJSON\<close> on such a map: marshalling it cannot fail, so the \<^verbatim>\<open>nil\<close> branch is dead.
\<close>

definition mustJSON :: "(string, string) gomap \<Rightarrow> string" where
  "mustJSON m = json_text (json_of_map m)"

text \<open>The iteration order of the map does not matter.\<close>

lemma mustJSON_order:
  assumes "wf_map m" and "wf_map m'" and "map_of m = map_of m'"
  shows "mustJSON m = mustJSON m'"
proof -
  have "set (gkeys m) = set (gkeys m')"
    using arg_cong [OF assms(3), of dom] by (simp add: dom_map_of_conv_image_fst)
  then have "sort (gkeys m) = sort (gkeys m')"
    using assms(1,2) by (metis distinct_sort set_sort sorted_distinct_set_unique sorted_sort)
  with assms(3) show ?thesis by (simp add: mustJSON_def json_of_map_def)
qed

end
