(* ===== verification/Observability.thy ===== *)
theory Observability
  imports Go_Json "HOL-Library.Multiset"
begin

section \<open>Metrics and tracing\<close>

text \<open>
  \<^verbatim>\<open>internal/observability/metrics.go\<close> and the pure parts of \<^verbatim>\<open>tracing.go\<close>. The
  counters are \<^verbatim>\<open>float64\<close> values that only ever grow by one: an exact integer up to
  \<open>2 ^ 53\<close>, where adding one rounds back to the same value. The two maps are association
  lists, so the order in which \<^verbatim>\<open>range\<close> visits them is the order of the list.
\<close>

type_synonym labels = "(string, string) gomap"

record Metrics =
  counters :: "(string, nat) gomap"
  latencies :: "(string, int list) gomap"

definition NewMetrics :: Metrics where
  "NewMetrics = \<lparr>counters = [], latencies = []\<rparr>"

definition metricKey :: "string \<Rightarrow> labels \<Rightarrow> string" where
  "metricKey name labels =
     (if length labels = 0 then name
      else let keys = sort (gkeys labels);
               parts = map (\<lambda>key. key @ ''='' @ [CHR 0x22] @
                         ReplaceAll (the (map_of labels key)) (CHR 0x22) [CHR 0x5C, CHR 0x22] @
                         [CHR 0x22]) keys
           in name @ ''{'' @ Join parts '','' @ ''}'')"

definition float_inc :: "nat \<Rightarrow> nat" where
  "float_inc n = (if n < 2 ^ 53 then n + 1 else n)"

text \<open>A missing key reads as the zero value.\<close>

definition counter :: "Metrics \<Rightarrow> string \<Rightarrow> nat" where
  "counter m key = (case map_of (counters m) key of None \<Rightarrow> 0 | Some n \<Rightarrow> n)"

definition Inc :: "string \<Rightarrow> labels \<Rightarrow> Metrics \<Rightarrow> Metrics" where
  "Inc name labels m =
     (let key = metricKey name labels
      in m\<lparr>counters := gput key (float_inc (counter m key)) (counters m)\<rparr>)"

definition ObserveDuration :: "string \<Rightarrow> labels \<Rightarrow> int \<Rightarrow> Metrics \<Rightarrow> Metrics" where
  "ObserveDuration name labels duration m =
     (let key = metricKey name labels;
          old = (case map_of (latencies m) key of None \<Rightarrow> [] | Some ds \<Rightarrow> ds)
      in m\<lparr>latencies := gput key (old @ [duration]) (latencies m)\<rparr>)"

text \<open>The sample name carries the suffix before the labels.\<close>

definition sampleKey :: "string \<Rightarrow> string \<Rightarrow> string" where
  "sampleKey key suffix =
     (if CHR ''{'' \<notin> set key then key @ suffix
      else takeWhile (\<lambda>c. c \<noteq> CHR ''{'') key @ suffix @ dropWhile (\<lambda>c. c \<noteq> CHR ''{'') key)"

text \<open>
  \<^verbatim>\<open>total += sample\<close> on \<^verbatim>\<open>time.Duration\<close> wraps at 64 bits. \<open>fmt_g\<close> is the \<^verbatim>\<open>%g\<close>
  formatting of a counter value and \<open>fmt_sec\<close> that of \<^verbatim>\<open>total.Seconds()\<close>.
\<close>

definition wrap_int64 :: "int \<Rightarrow> int" where
  "wrap_int64 i = (i + 2 ^ 63) mod 2 ^ 64 - 2 ^ 63"

definition total_duration :: "int list \<Rightarrow> int" where
  "total_duration samples = foldl (\<lambda>total sample. wrap_int64 (total + sample)) 0 samples"

definition WritePrometheus ::
  "(nat \<Rightarrow> string) \<Rightarrow> (int \<Rightarrow> string) \<Rightarrow> Metrics \<Rightarrow> string" where
  "WritePrometheus fmt_g fmt_sec m =
     concat (map (\<lambda>key. key @ '' '' @ fmt_g (counter m key) @ [CHR 0x0A]) (sort (gkeys (counters m)))) @
     concat (map (\<lambda>key.
       let samples = the (map_of (latencies m) key); count = length samples in
       if count = 0 then []
       else sampleKey key ''_count'' @ '' '' @ show_nat count @ [CHR 0x0A] @
            sampleKey key ''_sum'' @ '' '' @ fmt_sec (total_duration samples) @ [CHR 0x0A])
       (sort (gkeys (latencies m))))"

subsection \<open>Invariant and order independence\<close>

definition wf_metrics :: "Metrics \<Rightarrow> bool" where
  "wf_metrics m \<longleftrightarrow> wf_map (counters m) \<and> wf_map (latencies m)"

lemma wf_NewMetrics [simp]: "wf_metrics NewMetrics"
  by (simp add: wf_metrics_def NewMetrics_def)

lemma wf_Inc [simp]: "wf_metrics m \<Longrightarrow> wf_metrics (Inc name labels m)"
  by (simp add: wf_metrics_def Inc_def Let_def)

lemma wf_ObserveDuration [simp]: "wf_metrics m \<Longrightarrow> wf_metrics (ObserveDuration name labels d m)"
  by (simp add: wf_metrics_def ObserveDuration_def Let_def)

lemma sorted_keys_order:
  assumes "wf_map m" and "wf_map m'" and "map_of m = map_of m'"
  shows "sort (gkeys m) = sort (gkeys m')"
proof -
  have "set (gkeys m) = set (gkeys m')"
    using arg_cong [OF assms(3), of dom] by (simp add: dom_map_of_conv_image_fst)
  with assms(1,2) show ?thesis
    by (metis distinct_sort set_sort sorted_distinct_set_unique sorted_sort)
qed

lemma metricKey_order:
  assumes "wf_map m" and "wf_map m'" and "map_of m = map_of m'"
  shows "metricKey name m = metricKey name m'"
proof -
  have "m = [] \<longleftrightarrow> m' = []"
    using assms(3) by (metis map_of_eq_empty_iff)
  with sorted_keys_order [OF assms] assms(3) show ?thesis
    by (simp add: metricKey_def Let_def)
qed

lemma counter_Inc:
  "counter (Inc name labels m) key =
     (if key = metricKey name labels then float_inc (counter m key) else counter m key)"
  by (simp add: counter_def Inc_def Let_def)

lemma latencies_Inc [simp]: "latencies (Inc name labels m) = latencies m"
  by (simp add: Inc_def Let_def)

text \<open>After any number of increments a counter holds their number.\<close>

lemma counter_fold_Inc:
  assumes "counter m key + length (filter (\<lambda>(n, l). metricKey n l = key) ops) < 2 ^ 53"
  shows "counter (fold (\<lambda>(n, l). Inc n l) ops m) key =
     counter m key + length (filter (\<lambda>(n, l). metricKey n l = key) ops)"
  using assms
proof (induction ops arbitrary: m)
  case Nil
  then show ?case by simp
next
  case (Cons op ops)
  obtain n l where op: "op = (n, l)" by (cases op)
  with Cons show ?case by (auto simp: counter_Inc float_inc_def)
qed

text \<open>The page depends on the contents of the two maps only, not on the order \<^verbatim>\<open>range\<close> gives.\<close>

lemma WritePrometheus_order:
  assumes "wf_metrics m" and "wf_metrics m'"
    and "map_of (counters m) = map_of (counters m')" and "map_of (latencies m) = map_of (latencies m')"
  shows "WritePrometheus fmt_g fmt_sec m = WritePrometheus fmt_g fmt_sec m'"
proof -
  have "sort (gkeys (counters m)) = sort (gkeys (counters m'))" "sort (gkeys (latencies m)) = sort (gkeys (latencies m'))"
    using assms by (auto simp: wf_metrics_def intro!: sorted_keys_order)
  with assms(3,4) show ?thesis by (simp add: WritePrometheus_def counter_def)
qed

text \<open>What a sequence of increments leaves under a key: their number, up to where a float stops counting.\<close>

lemma counters_fold_Inc:
  assumes "map_of (counters m) key = (if n = 0 then None else Some (min n (2 ^ 53)))"
  shows "map_of (counters (fold (\<lambda>(n, l). Inc n l) ops m)) key =
     (let k = n + length (filter (\<lambda>(n, l). metricKey n l = key) ops) in if k = 0 then None else Some (min k (2 ^ 53)))"
  using assms
proof (induction ops arbitrary: m n)
  case Nil
  then show ?case by simp
next
  case (Cons op ops)
  obtain a l where op: "op = (a, l)" by (cases op)
  let ?n = "if metricKey a l = key then Suc n else n"
  have c: "counter m key = min n (2 ^ 53)"
    using Cons.prems unfolding counter_def by (cases "n = 0") (simp_all only: option.case if_True if_False refl min_0L)
  have "map_of (counters (Inc a l m)) key = (if ?n = 0 then None else Some (min ?n (2 ^ 53)))"
    using Cons.prems c by (auto simp: Inc_def Let_def float_inc_def)
  from Cons.IH [OF this] op show ?case by (auto simp: Let_def)
qed

lemma wf_fold_Inc: "wf_metrics m \<Longrightarrow> wf_metrics (fold (\<lambda>(n, l). Inc n l) ops m)"
  by (induction ops arbitrary: m) auto

lemma latencies_fold_Inc: "latencies (fold (\<lambda>(n, l). Inc n l) ops m) = latencies m"
  by (induction ops arbitrary: m) auto



subsection \<open>Tracing\<close>

record Trace =
  TraceID :: string
  SpanID :: string

text \<open>
  The trace in a request's context: \<^verbatim>\<open>context.WithValue\<close> under the package's own key, which
  nothing else sets, so a context holds at most the last trace attached to it.
\<close>

type_synonym ctx_values = "Trace option"

definition WithTrace :: "ctx_values \<Rightarrow> Trace \<Rightarrow> ctx_values" where
  "WithTrace ctx trace = Some trace"

definition TraceFromContext :: "ctx_values \<Rightarrow> Trace" where
  "TraceFromContext ctx = (case ctx of None \<Rightarrow> \<lparr>TraceID = [], SpanID = []\<rparr> | Some trace \<Rightarrow> trace)"

lemma TraceFromContext_WithTrace [simp]: "TraceFromContext (WithTrace ctx trace) = trace"
  by (simp add: TraceFromContext_def WithTrace_def)

text \<open>\<^verbatim>\<open>header[i:j]\<close> within the length that was checked.\<close>

definition traceFromHeader :: "string \<Rightarrow> Trace" where
  "traceFromHeader header =
     (if length header \<noteq> 55 then \<lparr>TraceID = [], SpanID = []\<rparr>
      else \<lparr>TraceID = take 32 (drop 3 header), SpanID = take 16 (drop 36 header)\<rparr>)"

text \<open>\<^verbatim>\<open>randomHex(size)\<close> given what reading \<open>size\<close> random bytes returned.\<close>

definition randomHex :: "error + byte list \<Rightarrow> string" where
  "randomHex raw = (case raw of Inl _ \<Rightarrow> ''0000000000000000'' | Inr bs \<Rightarrow> hex_EncodeToString bs)"

definition traceparent :: "Trace \<Rightarrow> string" where
  "traceparent trace = ''00-'' @ TraceID trace @ ''-'' @ SpanID trace @ ''-01''"

definition routeLabel :: "string \<Rightarrow> string" where
  "routeLabel path =
     (if path = ''/healthz'' \<or> path = ''/readyz'' \<or> path = ''/metrics'' then path
      else if path = ''/v1/wallets'' then ''/v1/wallets''
      else if path = ''/v1/transactions'' then ''/v1/transactions''
      else ''/v1/transactions/{id}'')"

text \<open>A trace the middleware writes into the response header reads back as itself.\<close>

lemma traceFromHeader_traceparent:
  assumes "length (TraceID t) = 32" and "length (SpanID t) = 16"
  shows "traceFromHeader (traceparent t) = t"
  using assms by (simp add: traceFromHeader_def traceparent_def)

end
