(* ===== verification/Service_World.thy ===== *)
theory Service_World
  imports Store_Interface Observability
begin

section \<open>What the service runs on: its interfaces and its world\<close>

text \<open>
  The two other Go interfaces the service is built from (\<^verbatim>\<open>SigningBackend\<close>,
  \<^verbatim>\<open>ChainAdapter\<close>) as records of operations, the chain registry, and the \<^emph>\<open>world\<close>: the
  state all handlers share. Sources of nondeterminism are streams that are read one
  element at a time: the random source (\<^verbatim>\<open>crypto/rand\<close>), the clock and the state of the
  caller's context at each call that receives it. Nothing is assumed about them, so a
  theorem holds for every clock, every random source and every cancellation.
\<close>

record 'sg SigningBackend =
  bCreateWallet :: "ctx \<Rightarrow> string \<Rightarrow> Chain \<Rightarrow> 'sg \<Rightarrow> (error + WalletMaterial) \<times> 'sg"
  bSignTransaction :: "ctx \<Rightarrow> TransactionProposal \<Rightarrow> 'sg \<Rightarrow> (error + Signature) \<times> 'sg"

record 'ad ChainAdapter =
  aChain :: Chain
  aBuildTransaction :: "ctx \<Rightarrow> Wallet \<Rightarrow> TransactionRequest \<Rightarrow> 'ad \<Rightarrow> (error + RawTransaction) \<times> 'ad"
  aBroadcast :: "ctx \<Rightarrow> string \<Rightarrow> 'ad \<Rightarrow> (error + string) \<times> 'ad"

type_synonym 'ad ChainRegistry = "Chain \<rightharpoonup> 'ad ChainAdapter"

definition NewChainRegistry :: "'ad ChainAdapter list \<Rightarrow> 'ad ChainRegistry" where
  "NewChainRegistry adapters = foldl (\<lambda>registry adapter. registry(aChain adapter \<mapsto> adapter)) Map.empty adapters"

definition registry_Get :: "'ad ChainRegistry \<Rightarrow> Chain \<Rightarrow> 'ad ChainAdapter option" where
  "registry_Get r chain = r chain"

text \<open>An adapter found under a chain is an adapter of that chain; the last one registered wins.\<close>

lemma NewChainRegistry_sound:
  "registry_Get (NewChainRegistry adapters) chain = Some a \<Longrightarrow> a \<in> set adapters \<and> aChain a = chain"
  unfolding registry_Get_def NewChainRegistry_def
  by (induction adapters rule: rev_induct) (auto split: if_splits)

lemma NewChainRegistry_complete:
  "(registry_Get (NewChainRegistry adapters) chain = None) = (chain \<notin> aChain ` set adapters)"
  unfolding registry_Get_def NewChainRegistry_def
  by (induction adapters rule: rev_induct) auto

subsection \<open>The world\<close>

record ('st, 'sg, 'ad) world =
  w_store :: 'st
  w_signer :: 'sg
  w_adapters :: 'ad
  w_metrics :: Metrics
  w_rand :: "(error + (nat \<Rightarrow> byte)) stream"
  w_clock :: "time stream"
  w_ctx :: "ctx stream"

definition on_store ::
  "(ctx \<Rightarrow> 'st \<Rightarrow> 'r \<times> 'st) \<Rightarrow> ('st, 'sg, 'ad) world \<Rightarrow> 'r \<times> ('st, 'sg, 'ad) world" where
  "on_store f w =
     (case f (shd (w_ctx w)) (w_store w) of
        (r, s) \<Rightarrow> (r, w\<lparr>w_store := s, w_ctx := stl (w_ctx w)\<rparr>))"

definition on_signer ::
  "(ctx \<Rightarrow> 'sg \<Rightarrow> 'r \<times> 'sg) \<Rightarrow> ('st, 'sg, 'ad) world \<Rightarrow> 'r \<times> ('st, 'sg, 'ad) world" where
  "on_signer f w =
     (case f (shd (w_ctx w)) (w_signer w) of
        (r, s) \<Rightarrow> (r, w\<lparr>w_signer := s, w_ctx := stl (w_ctx w)\<rparr>))"

definition on_adapters ::
  "(ctx \<Rightarrow> 'ad \<Rightarrow> 'r \<times> 'ad) \<Rightarrow> ('st, 'sg, 'ad) world \<Rightarrow> 'r \<times> ('st, 'sg, 'ad) world" where
  "on_adapters f w =
     (case f (shd (w_ctx w)) (w_adapters w) of
        (r, s) \<Rightarrow> (r, w\<lparr>w_adapters := s, w_ctx := stl (w_ctx w)\<rparr>))"

text \<open>\<^verbatim>\<open>s.now()\<close>\<close>

definition now :: "('st, 'sg, 'ad) world \<Rightarrow> time \<times> ('st, 'sg, 'ad) world" where
  "now w = (shd (w_clock w), w\<lparr>w_clock := stl (w_clock w)\<rparr>)"

text \<open>\<^verbatim>\<open>s.metrics.Inc(name, labels)\<close>\<close>

definition metrics_Inc ::
  "string \<Rightarrow> labels \<Rightarrow> ('st, 'sg, 'ad) world \<Rightarrow> unit \<times> ('st, 'sg, 'ad) world" where
  "metrics_Inc name labels w = ((), w\<lparr>w_metrics := Inc name labels (w_metrics w)\<rparr>)"

subsection \<open>Identifiers\<close>

text \<open>\<^verbatim>\<open>rand.Read(raw[:])\<close> fills the whole slice or fails.\<close>

definition rand_Read :: "nat \<Rightarrow> ('st, 'sg, 'ad) world \<Rightarrow> (error + byte list) \<times> ('st, 'sg, 'ad) world" where
  "rand_Read n w =
     (case shd (w_rand w) of Inl e \<Rightarrow> Inl e | Inr src \<Rightarrow> Inr (map src [0..<n]),
      w\<lparr>w_rand := stl (w_rand w)\<rparr>)"

definition ids_New :: "string \<Rightarrow> ('st, 'sg, 'ad) world \<Rightarrow> (error + string) \<times> ('st, 'sg, 'ad) world" where
  "ids_New prefix w =
     (case rand_Read 16 w of
        (Inl err, w') \<Rightarrow> (Inl err, w')
      | (Inr raw, w') \<Rightarrow> (Inr (prefix @ ''_'' @ hex_EncodeToString raw), w'))"

text \<open>The identifiers \<^verbatim>\<open>New(prefix)\<close> can return.\<close>

definition is_id :: "string \<Rightarrow> string \<Rightarrow> bool" where
  "is_id prefix i \<longleftrightarrow> (\<exists>raw. length raw = 16 \<and> i = prefix @ ''_'' @ hex_EncodeToString raw)"

lemma ids_New_is_id: "ids_New prefix w = (Inr i, w') \<Longrightarrow> is_id prefix i"
  by (auto simp: ids_New_def rand_Read_def is_id_def split: sum.splits
      intro!: exI [of _ "map _ [0..<16]"])

lemma ids_New_world: "ids_New prefix w = (r, w') \<Longrightarrow> w' = w\<lparr>w_rand := stl (w_rand w)\<rparr>"
  by (auto simp: ids_New_def rand_Read_def split: sum.splits)

lemma is_id_length: "is_id prefix i \<Longrightarrow> length i = length prefix + 33"
  by (auto simp: is_id_def)

lemma is_id_chars: "is_id prefix i \<Longrightarrow> set i \<subseteq> set prefix \<union> {CHR ''_''} \<union> set hextable"
  by (auto simp: is_id_def dest: subsetD [OF set_hex_Encode])

text \<open>Different random bytes give different identifiers.\<close>

lemma id_inj:
  "prefix @ ''_'' @ hex_EncodeToString raw = prefix @ ''_'' @ hex_EncodeToString raw' \<Longrightarrow> raw = raw'"
  using hex_Encode_inj by simp

end
