(* ===== verification/Wallet_Service.thy ===== *)
theory Wallet_Service
  imports Service_World
begin

section \<open>The wallet service\<close>

text \<open>
  \<^verbatim>\<open>internal/wallet/service.go\<close>: the policy checks and the four handlers, each a program
  whose atomic steps are the calls the Go code makes, in its order. A Go method that
  returns a zero struct and an error returns \<open>Inl\<close> of the error here.
\<close>

record Policy =
  AllowedSigners :: "(string, unit) gomap"
  MaxBitcoinAmountSats :: int
  MaxEVMAmountWei :: "int option"

record ('st, 'sg, 'ad) Service =
  svStore :: "'st Store"
  svChains :: "'ad ChainRegistry"
  svSigner :: "'sg SigningBackend"
  svPolicy :: Policy

text \<open>
  \<^verbatim>\<open>NewService\<close> with the options applied in order; \<^verbatim>\<open>WithPolicy\<close> is the one option there
  is, and without it the policy is the zero value.
\<close>

definition zero_policy :: Policy where
  "zero_policy = \<lparr>AllowedSigners = [], MaxBitcoinAmountSats = 0, MaxEVMAmountWei = None\<rparr>"

type_synonym ('st, 'sg, 'ad) service_option = "('st, 'sg, 'ad) Service \<Rightarrow> ('st, 'sg, 'ad) Service"

definition WithPolicy :: "Policy \<Rightarrow> ('st, 'sg, 'ad) service_option" where
  "WithPolicy policy service = service\<lparr>svPolicy := policy\<rparr>"

definition NewService ::
  "'st Store \<Rightarrow> 'ad ChainRegistry \<Rightarrow> 'sg SigningBackend \<Rightarrow>
   ('st, 'sg, 'ad) service_option list \<Rightarrow> ('st, 'sg, 'ad) Service" where
  "NewService store registry signer options =
     foldl (\<lambda>service option. option service)
       \<lparr>svStore = store, svChains = registry, svSigner = signer, svPolicy = zero_policy\<rparr> options"

subsection \<open>Policy checks\<close>

definition signerAllowed :: "Policy \<Rightarrow> string \<Rightarrow> bool" where
  "signerAllowed policy signerID =
     (if length (AllowedSigners policy) = 0 then True
      else map_of (AllowedSigners policy) signerID \<noteq> None)"

definition validateAmountPolicy :: "Policy \<Rightarrow> Chain \<Rightarrow> string \<Rightarrow> error option" where
  "validateAmountPolicy policy chain amount =
     (if chain = ChainBitcoin then
        (case ParseInt64 amount of
           None \<Rightarrow> Some (wrapf ErrPolicyViolation ''bitcoin amount must be positive base-10 sats'')
         | Some value \<Rightarrow>
             if value \<le> 0
             then Some (wrapf ErrPolicyViolation ''bitcoin amount must be positive base-10 sats'')
             else if MaxBitcoinAmountSats policy > 0 \<and> value > MaxBitcoinAmountSats policy
             then Some (wrapf ErrPolicyViolation ''bitcoin amount exceeds limit'')
             else None)
      else if chain = ChainEVM then
        (case big_SetString amount of
           None \<Rightarrow> Some (wrapf ErrPolicyViolation ''evm amount must be positive base-10 wei'')
         | Some value \<Rightarrow>
             if value \<le> 0
             then Some (wrapf ErrPolicyViolation ''evm amount must be positive base-10 wei'')
             else (case MaxEVMAmountWei policy of
                     None \<Rightarrow> None
                   | Some limit \<Rightarrow>
                       if value > limit
                       then Some (wrapf ErrPolicyViolation ''evm amount exceeds limit'') else None))
      else None)"

subsection \<open>Audit and failure records\<close>

text \<open>The event to append, without the identifier and the time \<^verbatim>\<open>appendAudit\<close> fills in.\<close>

definition audit_event ::
  "AuditEventType \<Rightarrow> string \<Rightarrow> string \<Rightarrow> string \<Rightarrow> Chain \<Rightarrow> string \<Rightarrow> AuditEvent" where
  "audit_event ty actor rtype rid chain meta =
     \<lparr>vID = [], vType = ty, vActor = actor, vResourceType = rtype, vResourceID = rid,
      vChain = chain, vMetadata = meta, vCreatedAt = zero_time\<rparr>"

definition appendAudit ::
  "('st, 'sg, 'ad) Service \<Rightarrow> AuditEvent \<Rightarrow> (('st, 'sg, 'ad) world, error + unit) prog" where
  "appendAudit s event =
     tryP (actP (ids_New ''aud'')) (\<lambda>i.
     bindP (actP now) (\<lambda>t.
     let event = event\<lparr>vID := i, vCreatedAt := t\<rparr> in
     tryP (actP (on_store (\<lambda>ctx. sAppendAuditEvent (svStore s) ctx event))) (\<lambda>_.
     seqP (actP (metrics_Inc ''custody_audit_events_total'' [(''type'', vType event)]))
     (Return (Inr ())))))"

definition failTransaction ::
  "('st, 'sg, 'ad) Service \<Rightarrow> TransactionProposal \<Rightarrow> error \<Rightarrow> string \<Rightarrow>
   (('st, 'sg, 'ad) world, error + unit) prog" where
  "failTransaction s proposal cause phase =
     bindP (actP now) (\<lambda>t.
     let proposal = proposal\<lparr>pStatus := TransactionStatusFailed, pError := Error cause, pUpdatedAt := t\<rparr> in
     bindP (actP (on_store (\<lambda>ctx. sUpdateTransaction (svStore s) ctx proposal))) (\<lambda>r.
     case r of
       Inl err \<Rightarrow> Return (Inl (Wrap (phase @ '' failed and status update failed: '' @ Error err) err))
     | Inr _ \<Rightarrow> Return (Inr ())))"

subsection \<open>Handlers\<close>

definition CreateWallet ::
  "('st, 'sg, 'ad) Service \<Rightarrow> Chain \<Rightarrow> string \<Rightarrow> (('st, 'sg, 'ad) world, error + Wallet) prog" where
  "CreateWallet s chain idempotencyKey =
     (if registry_Get (svChains s) chain = None
      then Return (Inl (wrapf ErrUnsupportedChain chain))
      else
        tryP (actP (ids_New ''wlt'')) (\<lambda>i.
        tryP (actP (on_signer (\<lambda>ctx. bCreateWallet (svSigner s) ctx i chain))) (\<lambda>material.
        bindP (actP now) (\<lambda>t.
        let w = \<lparr>wID = i, wChain = chain, wAddress = mAddress material,
                 wPublicKey = mPublicKey material, wCreatedAt = t\<rparr> in
        tryP (if idempotencyKey = []
              then tryP (actP (on_store (\<lambda>ctx. sCreateWallet (svStore s) ctx w)))
                     (\<lambda>_. Return (Inr (w, True)))
              else bindP (actP now) (\<lambda>t'.
                   actP (on_store (\<lambda>ctx. sCreateWalletIdempotently (svStore s) ctx w
                     \<lparr>iScope = ''wallet:'' @ chain, iKey = idempotencyKey, iResourceType = ''wallet'',
                      iResourceID = wID w, iCreatedAt = t'\<rparr>))))
          (\<lambda>(w, created).
            if \<not> created then Return (Inr w)
            else
              tryP (appendAudit s (audit_event AuditEventWalletCreated [] ''wallet'' (wID w) chain [])) (\<lambda>_.
              seqP (actP (metrics_Inc ''custody_wallets_created_total'' [(''chain'', chain)]))
              (Return (Inr w))))))))"

text \<open>The proposal \<^verbatim>\<open>ProposeTransaction\<close> builds.\<close>

definition new_proposal ::
  "Wallet \<Rightarrow> Trace \<Rightarrow> TransactionRequest \<Rightarrow> RawTransaction \<Rightarrow> string \<Rightarrow> time \<Rightarrow> TransactionProposal" where
  "new_proposal source trace request raw i t =
     \<lparr>pID = i, pWalletID = wID source, pChain = wChain source,
      pStatus = TransactionStatusProposed, pRequest = request, pRawTransaction = raw,
      pApprovals = Some [], pSignedTransaction = [], pBroadcastHash = [], pError = [],
      pTrace = Some [(''trace_id'', TraceID trace), (''span_id'', SpanID trace)],
      pCreatedAt = t, pUpdatedAt = t\<rparr>"

definition ProposeTransaction ::
  "('st, 'sg, 'ad) Service \<Rightarrow> ctx_values \<Rightarrow> TransactionRequest \<Rightarrow> string \<Rightarrow>
   (('st, 'sg, 'ad) world, error + TransactionProposal) prog" where
  "ProposeTransaction s ctx_vals request idempotencyKey =
     tryP (actP (on_store (\<lambda>ctx. sGetWallet (svStore s) ctx (rWalletID request)))) (\<lambda>source.
     case validateAmountPolicy (svPolicy s) (wChain source) (rAmount request) of
       Some err \<Rightarrow> Return (Inl err)
     | None \<Rightarrow>
       (case registry_Get (svChains s) (wChain source) of
          None \<Rightarrow> Return (Inl (wrapf ErrUnsupportedChain (wChain source)))
        | Some adapter \<Rightarrow>
            tryP (actP (on_adapters (\<lambda>ctx. aBuildTransaction adapter ctx source request))) (\<lambda>raw.
            tryP (actP (ids_New ''txn'')) (\<lambda>i.
            bindP (actP now) (\<lambda>t.
            let trace = TraceFromContext ctx_vals;
                proposal = new_proposal source trace request raw i t in
            tryP (if idempotencyKey = []
                  then tryP (actP (on_store (\<lambda>ctx. sCreateTransaction (svStore s) ctx proposal)))
                         (\<lambda>_. Return (Inr (proposal, True)))
                  else actP (on_store (\<lambda>ctx. sCreateTransactionIdempotently (svStore s) ctx proposal
                         \<lparr>iScope = ''transaction:'' @ rWalletID request, iKey = idempotencyKey,
                          iResourceType = ''transaction'', iResourceID = pID proposal, iCreatedAt = t\<rparr>)))
              (\<lambda>(proposal, created).
                if \<not> created then Return (Inr proposal)
                else
                  tryP (appendAudit s (audit_event AuditEventTransactionProposed [] ''transaction''
                          (pID proposal) (pChain proposal) (mustJSON [(''wallet_id'', pWalletID proposal)]))) (\<lambda>_.
                  seqP (actP (metrics_Inc ''custody_transactions_proposed_total'' [(''chain'', wChain source)]))
                  (Return (Inr proposal)))))))))"

text \<open>What \<^verbatim>\<open>CoSign\<close> does once an approval has been recorded and the quorum is there.\<close>

definition sign_phase ::
  "('st, 'sg, 'ad) Service \<Rightarrow> TransactionProposal \<Rightarrow>
   (('st, 'sg, 'ad) world, error + TransactionProposal) prog" where
  "sign_phase s proposal =
     bindP (actP (on_signer (\<lambda>ctx. bSignTransaction (svSigner s) ctx proposal))) (\<lambda>r.
     case r of
       Inl err \<Rightarrow>
         seqP (failTransaction s proposal err ''sign'')
         (seqP (appendAudit s (audit_event AuditEventTransactionFailed [] ''transaction''
                  (pID proposal) (pChain proposal)
                  (mustJSON [(''error'', Error err), (''phase'', ''sign'')])))
         (Return (Inl err)))
     | Inr signature \<Rightarrow>
         tryP (actP (on_store (\<lambda>ctx. sMarkTransactionSigned (svStore s) ctx (pID proposal)
                 (SignedTransaction signature)))) (\<lambda>(signedProposal, signed).
         if signed
         then
           seqP (actP (metrics_Inc ''custody_transactions_signed_total'' [(''chain'', pChain signedProposal)]))
           (tryP (appendAudit s (audit_event AuditEventTransactionSigned [] ''transaction''
                    (pID signedProposal) (pChain signedProposal)
                    (mustJSON [(''signature_id'', SignatureID signature)])))
             (\<lambda>_. Return (Inr signedProposal)))
         else Return (Inr signedProposal)))"

definition CoSign ::
  "('st, 'sg, 'ad) Service \<Rightarrow> string \<Rightarrow> string \<Rightarrow>
   (('st, 'sg, 'ad) world, error + TransactionProposal) prog" where
  "CoSign s transactionID signerID =
     (if signerID = [] then Return (Inl (Fresh ''signer_id is required''))
      else if \<not> signerAllowed (svPolicy s) signerID
      then Return (Inl (wrapf ErrUnauthorizedSigner signerID))
      else
        bindP (actP now) (\<lambda>t.
        tryP (actP (on_store (\<lambda>ctx. sAddApproval (svStore s) ctx transactionID
                \<lparr>SignerID = signerID, aCreatedAt = t\<rparr>))) (\<lambda>proposal.
        seqP (actP (metrics_Inc ''custody_transaction_approvals_total'' [(''chain'', pChain proposal)]))
        (tryP (appendAudit s (audit_event AuditEventTransactionApproved signerID ''transaction''
                 (pID proposal) (pChain proposal) [])) (\<lambda>_.
        if pStatus proposal = TransactionStatusProposed \<and> ApprovalsCount proposal \<ge> 2
        then sign_phase s proposal
        else Return (Inr proposal))))))"

definition Broadcast ::
  "('st, 'sg, 'ad) Service \<Rightarrow> string \<Rightarrow>
   (('st, 'sg, 'ad) world, error + TransactionProposal) prog" where
  "Broadcast s transactionID =
     tryP (actP (on_store (\<lambda>ctx. sGetTransaction (svStore s) ctx transactionID))) (\<lambda>proposal.
     if pStatus proposal \<noteq> TransactionStatusSigned \<or> pSignedTransaction proposal = []
     then Return (Inl ErrTransactionNotSigned)
     else
       (case registry_Get (svChains s) (pChain proposal) of
          None \<Rightarrow> Return (Inl (wrapf ErrUnsupportedChain (pChain proposal)))
        | Some adapter \<Rightarrow>
            bindP (actP (on_adapters (\<lambda>ctx. aBroadcast adapter ctx (pSignedTransaction proposal)))) (\<lambda>r.
            case r of
              Inl err \<Rightarrow>
                seqP (failTransaction s proposal err ''broadcast'')
                (seqP (appendAudit s (audit_event AuditEventTransactionFailed [] ''transaction''
                         (pID proposal) (pChain proposal)
                         (mustJSON [(''error'', Error err), (''phase'', ''broadcast'')])))
                (Return (Inl err)))
            | Inr hash \<Rightarrow>
                bindP (actP now) (\<lambda>t.
                let proposal = proposal\<lparr>pStatus := TransactionStatusBroadcast, pBroadcastHash := hash,
                                         pUpdatedAt := t\<rparr> in
                tryP (actP (on_store (\<lambda>ctx. sUpdateTransaction (svStore s) ctx proposal))) (\<lambda>_.
                tryP (appendAudit s (audit_event AuditEventTransactionBroadcast [] ''transaction''
                        (pID proposal) (pChain proposal) (mustJSON [(''broadcast_hash'', hash)]))) (\<lambda>_.
                seqP (actP (metrics_Inc ''custody_transactions_broadcast_total'' [(''chain'', pChain proposal)]))
                (Return (Inr proposal))))))))"

definition service_GetTransaction ::
  "('st, 'sg, 'ad) Service \<Rightarrow> string \<Rightarrow>
   (('st, 'sg, 'ad) world, error + TransactionProposal) prog" where
  "service_GetTransaction s transactionID =
     actP (on_store (\<lambda>ctx. sGetTransaction (svStore s) ctx transactionID))"

definition service_ListAuditEvents ::
  "('st, 'sg, 'ad) Service \<Rightarrow> AuditFilter \<Rightarrow>
   (('st, 'sg, 'ad) world, error + AuditEvent list) prog" where
  "service_ListAuditEvents s f = actP (on_store (\<lambda>ctx. sListAuditEvents (svStore s) ctx f))"

subsection \<open>Requests\<close>

text \<open>The calls the API layer makes into the service, as one type of requests.\<close>

datatype request =
    ReqCreateWallet Chain string
  | ReqPropose ctx_values TransactionRequest string
  | ReqCoSign string string
  | ReqBroadcast string
  | ReqGetTransaction string
  | ReqListAuditEvents AuditFilter

datatype response =
    RespWallet Wallet
  | RespProposal TransactionProposal
  | RespEvents "AuditEvent list"

definition respond :: "('a \<Rightarrow> response) \<Rightarrow> ('s, error + 'a) prog \<Rightarrow> ('s, error + response) prog" where
  "respond f m = tryP m (\<lambda>x. Return (Inr (f x)))"

fun handle ::
  "('st, 'sg, 'ad) Service \<Rightarrow> request \<Rightarrow> (('st, 'sg, 'ad) world, error + response) prog" where
  "handle s (ReqCreateWallet chain key) = respond RespWallet (CreateWallet s chain key)"
| "handle s (ReqPropose ctx_vals request key) = respond RespProposal (ProposeTransaction s ctx_vals request key)"
| "handle s (ReqCoSign i signerID) = respond RespProposal (CoSign s i signerID)"
| "handle s (ReqBroadcast i) = respond RespProposal (Broadcast s i)"
| "handle s (ReqGetTransaction i) = respond RespProposal (service_GetTransaction s i)"
| "handle s (ReqListAuditEvents f) = respond RespEvents (service_ListAuditEvents s f)"

end
