(* ===== verification/Go_Json_Parse.thy ===== *)
theory Go_Json_Parse
  imports Go_Json
begin

section \<open>Reading JSON\<close>

text \<open>
  The decoder of \<^verbatim>\<open>encoding/json\<close>: the scanner's grammar (white space, literals, numbers,
  strings with their escapes and surrogate pairs, arrays, objects), invalid UTF-8 read as
  U+FFFD. The recursion is bounded by fuel, and the length of the text is enough. The main
  result is the round trip: what \<open>json_text\<close> writes reads back as the value written.
\<close>

subsection \<open>Strings\<close>

definition utf8_encode :: "nat \<Rightarrow> string" where
  "utf8_encode r =
     (if r < 128 then [char_of r]
      else if r < 2048 then [char_of (192 + r div 64), char_of (128 + r mod 64)]
      else if r < 65536 then [char_of (224 + r div 4096), char_of (128 + r div 64 mod 64), char_of (128 + r mod 64)]
      else [char_of (240 + r div 262144), char_of (128 + r div 4096 mod 64),
            char_of (128 + r div 64 mod 64), char_of (128 + r mod 64)])"

definition rune_error :: nat where
  "rune_error = 65533"

text \<open>Four hexadecimal digits.\<close>

definition getu4 :: "string \<Rightarrow> nat option" where
  "getu4 s =
     (case s of a # b # c # d # _ \<Rightarrow>
        (case (fromHexChar a, fromHexChar b, fromHexChar c, fromHexChar d) of
           (Some w, Some x, Some y, Some z) \<Rightarrow> Some (4096 * w + 256 * x + 16 * y + z)
         | _ \<Rightarrow> None)
      | _ \<Rightarrow> None)"

text \<open>The low half of a surrogate pair, if the next escape is one.\<close>

definition low_surrogate :: "string \<Rightarrow> nat option" where
  "low_surrogate s =
     (case s of a # b # t \<Rightarrow>
        if a = CHR 0x5C \<and> b = CHR ''u''
        then (case getu4 t of Some r \<Rightarrow> if 56320 \<le> r \<and> r \<le> 57343 then Some r else None | None \<Rightarrow> None)
        else None
      | _ \<Rightarrow> None)"

definition simple_escape :: "char \<Rightarrow> char option" where
  "simple_escape e =
     (if e = CHR 0x22 \<or> e = CHR 0x5C \<or> e = CHR ''/'' then Some e
      else if e = CHR ''b'' then Some (CHR 0x08) else if e = CHR ''f'' then Some (CHR 0x0C)
      else if e = CHR ''n'' then Some (CHR 0x0A) else if e = CHR ''r'' then Some (CHR 0x0D)
      else if e = CHR ''t'' then Some (CHR 0x09) else None)"

definition prepend :: "string \<Rightarrow> (string \<times> string) option \<Rightarrow> (string \<times> string) option" where
  "prepend p r = map_option (\<lambda>(x, rest). (p @ x, rest)) r"

text \<open>The characters up to the closing quote, and what follows it.\<close>

function parse_chars :: "string \<Rightarrow> (string \<times> string) option" where
  "parse_chars [] = None"
| "parse_chars (c # s) =
     (if c = CHR 0x22 then Some ([], s)
      else if c = CHR 0x5C then
        (case s of [] \<Rightarrow> None
         | e # t \<Rightarrow>
             (case simple_escape e of
                Some x \<Rightarrow> prepend [x] (parse_chars t)
              | None \<Rightarrow>
                  if e = CHR ''u'' then
                    (case getu4 t of None \<Rightarrow> None
                     | Some r \<Rightarrow>
                         if 55296 \<le> r \<and> r \<le> 57343 then
                           (if r \<le> 56319 then
                              (case low_surrogate (drop 4 t) of
                                 Some r' \<Rightarrow> prepend (utf8_encode (65536 + (r - 55296) * 1024 + (r' - 56320)))
                                             (parse_chars (drop 10 t))
                               | None \<Rightarrow> prepend (utf8_encode rune_error) (parse_chars (drop 4 t)))
                            else prepend (utf8_encode rune_error) (parse_chars (drop 4 t)))
                         else prepend (utf8_encode r) (parse_chars (drop 4 t)))
                  else None))
      else if ord c < 32 then None
      else if ord c < 128 then prepend [c] (parse_chars s)
      else let k = rune_len (c # s) in
        if k = 0 then prepend (utf8_encode rune_error) (parse_chars s)
        else prepend (take k (c # s)) (parse_chars (drop (k - 1) s)))"
  by pat_completeness auto
termination by (relation "measure length") auto

declare parse_chars.simps(2) [simp del]

subsection \<open>Numbers\<close>

definition digits_of :: "string \<Rightarrow> string" where
  "digits_of s = takeWhile is_digit s"

definition scan_frac :: "string \<Rightarrow> string option" where
  "scan_frac s =
     (case s of c # t \<Rightarrow> if c = CHR ''.'' then (if digits_of t = [] then None else Some (c # digits_of t)) else Some []
      | [] \<Rightarrow> Some [])"

definition scan_exp :: "string \<Rightarrow> string option" where
  "scan_exp s =
     (case s of c # t \<Rightarrow>
        if c = CHR ''e'' \<or> c = CHR ''E'' then
          (let sg = (case t of d # _ \<Rightarrow> if d = CHR ''+'' \<or> d = CHR ''-'' then [d] else [] | [] \<Rightarrow> []);
               ds = digits_of (drop (length sg) t)
           in if ds = [] then None else Some (c # sg @ ds))
        else Some []
      | [] \<Rightarrow> Some [])"

text \<open>\<^verbatim>\<open>-?(0|[1-9][0-9]*)(\.[0-9]+)?([eE][+-]?[0-9]+)?\<close>\<close>

definition scan_number :: "string \<Rightarrow> (string \<times> string) option" where
  "scan_number s =
     (let sg = (case s of c # _ \<Rightarrow> if c = CHR ''-'' then [c] else [] | [] \<Rightarrow> []);
          s1 = drop (length sg) s;
          ds = (case s1 of c # _ \<Rightarrow> if c = CHR ''0'' then [c] else digits_of s1 | [] \<Rightarrow> [])
      in if ds = [] then None
         else (let s2 = drop (length ds) s1 in
           (case scan_frac s2 of None \<Rightarrow> None
            | Some fr \<Rightarrow>
                (let s3 = drop (length fr) s2 in
                  (case scan_exp s3 of None \<Rightarrow> None
                   | Some ex \<Rightarrow> Some (sg @ ds @ fr @ ex, drop (length ex) s3))))))"

subsection \<open>Values\<close>

definition is_ws :: "char \<Rightarrow> bool" where
  "is_ws c \<longleftrightarrow> c = CHR '' '' \<or> c = CHR 0x09 \<or> c = CHR 0x0A \<or> c = CHR 0x0D"

definition skip_ws :: "string \<Rightarrow> string" where
  "skip_ws s = dropWhile is_ws s"

fun parse_value :: "nat \<Rightarrow> string \<Rightarrow> (json \<times> string) option"
  and parse_elems :: "nat \<Rightarrow> string \<Rightarrow> (json list \<times> string) option"
  and parse_members :: "nat \<Rightarrow> string \<Rightarrow> ((string \<times> json) list \<times> string) option" where
  "parse_value 0 s = None"
| "parse_value (Suc n) s =
     (case skip_ws s of [] \<Rightarrow> None
      | c # r \<Rightarrow>
        if c = CHR ''{'' then
          (case skip_ws r of [] \<Rightarrow> None
           | d # r' \<Rightarrow> if d = CHR ''}'' then Some (JObj [], r')
                      else map_option (\<lambda>(ms, t). (JObj ms, t)) (parse_members n r))
        else if c = CHR ''['' then
          (case skip_ws r of [] \<Rightarrow> None
           | d # r' \<Rightarrow> if d = CHR '']'' then Some (JArr [], r')
                      else map_option (\<lambda>(xs, t). (JArr xs, t)) (parse_elems n r))
        else if c = CHR 0x22 then map_option (\<lambda>(x, t). (JStr x, t)) (parse_chars r)
        else if HasPrefix (c # r) ''null'' then Some (JNull, drop 3 r)
        else if HasPrefix (c # r) ''true'' then Some (JBool True, drop 3 r)
        else if HasPrefix (c # r) ''false'' then Some (JBool False, drop 4 r)
        else map_option (\<lambda>(l, t). (JNum l, t)) (scan_number (c # r)))"
| "parse_elems 0 s = None"
| "parse_elems (Suc n) s =
     (case parse_value n s of None \<Rightarrow> None
      | Some (x, t) \<Rightarrow>
          (case skip_ws t of [] \<Rightarrow> None
           | c # r \<Rightarrow> if c = CHR '']'' then Some ([x], r)
                     else if c = CHR '','' then map_option (\<lambda>(xs, u). (x # xs, u)) (parse_elems n r)
                     else None))"
| "parse_members 0 s = None"
| "parse_members (Suc n) s =
     (case skip_ws s of [] \<Rightarrow> None
      | q # s1 \<Rightarrow>
        if q \<noteq> CHR 0x22 then None else
        (case parse_chars s1 of None \<Rightarrow> None
         | Some (k, s2) \<Rightarrow>
           (case skip_ws s2 of [] \<Rightarrow> None
            | col # s3 \<Rightarrow>
              if col \<noteq> CHR '':'' then None else
              (case parse_value n s3 of None \<Rightarrow> None
               | Some (x, t) \<Rightarrow>
                 (case skip_ws t of [] \<Rightarrow> None
                  | c # r \<Rightarrow> if c = CHR ''}'' then Some ([(k, x)], r)
                            else if c = CHR '','' then map_option (\<lambda>(ms, u). ((k, x) # ms, u)) (parse_members n r)
                            else None)))))"

text \<open>A whole document: one value, then white space only.\<close>

definition json_parse :: "string \<Rightarrow> json option" where
  "json_parse s =
     (case parse_value (Suc (length s)) s of
        Some (v, t) \<Rightarrow> if skip_ws t = [] then Some v else None
      | None \<Rightarrow> None)"

subsection \<open>Round trip of strings\<close>

function utf8_ok :: "string \<Rightarrow> bool" where
  "utf8_ok [] = True"
| "utf8_ok (c # s) = (rune_len (c # s) \<noteq> 0 \<and> utf8_ok (drop (rune_len (c # s) - 1) s))"
  by pat_completeness auto
termination by (relation "measure length") auto

declare utf8_ok.simps(2) [simp del]

lemma rune_len_take:
  assumes "rune_len s = k" and "k \<noteq> 0"
  shows "rune_len (take k s @ t) = k \<and> k \<le> length s"
proof -
  consider "s = []" | a where "s = [a]" | a b where "s = [a, b]" | a b c where "s = [a, b, c]"
    | a b c d r where "s = a # b # c # d # r"
    by (metis list.exhaust)
  then show ?thesis
  proof cases
    case 1
    with assms show ?thesis by (simp add: rune_len_def)
  next
    case 2
    with assms show ?thesis by (auto simp: rune_len_def split: if_splits)
  next
    case 3
    with assms show ?thesis by (auto simp: rune_len_def split: if_splits)
  next
    case 4
    with assms show ?thesis by (auto simp: rune_len_def split: if_splits)
  next
    case 5
    with assms show ?thesis by (auto simp: rune_len_def split: if_splits)
  qed
qed

lemma rune_len_ascii: "ord c < 128 \<Longrightarrow> rune_len (c # s) = 1"
  by (simp add: rune_len_def)

lemma ord_less_256: "ord c < 256"
  by simp

lemma hex_ord_digits:
  "fromHexChar (hextable ! (ord c div 16)) = Some (ord c div 16)"
  "fromHexChar (hextable ! (ord c mod 16)) = Some (ord c mod 16)"
  using ord_less_256 [of c] by (auto intro!: fromHexChar_hextable simp: div_less_iff_less_mult)

lemma fromHexChar_0 [simp]: "fromHexChar (CHR ''0'') = Some 0"
  by (simp add: fromHexChar_def)

lemma parse_esc_u00:
  assumes "ord c < 128"
  shows "parse_chars (esc_u00 c @ t) = prepend [c] (parse_chars t)"
proof -
  have "16 * (ord c div 16) + ord c mod 16 = ord c" by simp
  with assms have "getu4 (CHR ''0'' # CHR ''0'' # hextable ! (ord c div 16) # hextable ! (ord c mod 16) # t) = Some (ord c)"
    unfolding getu4_def by (simp add: hex_ord_digits)
  moreover have "utf8_encode (ord c) = [c]" using assms by (simp add: utf8_encode_def)
  ultimately show ?thesis
    using assms by (simp add: esc_u00_def parse_chars.simps(2) simple_escape_def)
qed

lemma parse_esc_ascii:
  assumes "ord c < 128"
  shows "parse_chars (esc_ascii c @ t) = prepend [c] (parse_chars t)"
proof (cases "ord c < 32 \<or> c \<in> {CHR ''<'', CHR ''>'', CHR ''&''}")
  case True
  with parse_esc_u00 [OF assms, of t] show ?thesis
    unfolding esc_ascii_def by (auto simp: parse_chars.simps(2) simple_escape_def)
next
  case False
  then show ?thesis
    using assms by (auto simp: esc_ascii_def parse_chars.simps(2) simple_escape_def)
qed

lemma prepend_Some [simp]: "prepend p (Some (x, r)) = Some (p @ x, r)"
  by (simp add: prepend_def)

lemma parse_chars_u2028:
  "parse_chars (CHR 0x5C # ''u2028'' @ t) = prepend [CHR 0xE2, CHR 0x80, CHR 0xA8] (parse_chars t)"
  "parse_chars (CHR 0x5C # ''u2029'' @ t) = prepend [CHR 0xE2, CHR 0x80, CHR 0xA9] (parse_chars t)"
proof -
  have "utf8_encode 8232 = [CHR 0xE2, CHR 0x80, CHR 0xA8]" "utf8_encode 8233 = [CHR 0xE2, CHR 0x80, CHR 0xA9]"
    by (simp_all add: utf8_encode_def char_of_def bit_0)
  then show "parse_chars (CHR 0x5C # ''u2028'' @ t) = prepend [CHR 0xE2, CHR 0x80, CHR 0xA8] (parse_chars t)"
    "parse_chars (CHR 0x5C # ''u2029'' @ t) = prepend [CHR 0xE2, CHR 0x80, CHR 0xA9] (parse_chars t)"
    by (simp_all add: parse_chars.simps(2) simple_escape_def getu4_def fromHexChar_def)
qed

lemma parse_chars_rune:
  assumes "\<not> ord c < 128" and "rune_len (c # s) = k" and "k \<noteq> 0"
  shows "parse_chars (take k (c # s) @ t) = prepend (take k (c # s)) (parse_chars t)"
proof -
  from assms(3) obtain j where k: "k = Suc j" by (cases k) auto
  from rune_len_take [OF assms(2,3), of t] have rl: "rune_len (c # take j s @ t) = k" and "j \<le> length s"
    by (simp_all add: k)
  moreover have "c \<noteq> CHR 0x22" and "c \<noteq> CHR 0x5C" using assms(1) by auto
  ultimately show ?thesis
    using assms(1) by (simp add: k parse_chars.simps(2) [of c "take j s @ t"])
qed

subsection \<open>Round trip of numbers\<close>

text \<open>What can follow a value in a document.\<close>

definition stops :: "string \<Rightarrow> bool" where
  "stops rest \<longleftrightarrow> (case rest of [] \<Rightarrow> True | c # _ \<Rightarrow> c = CHR '','' \<or> c = CHR '']'' \<or> c = CHR ''}'')"

lemma show_nat_hd: "0 < n \<Longrightarrow> hd (show_nat n) \<noteq> CHR ''0''"
proof (induction n rule: show_nat.induct)
  case (1 n)
  show ?case
  proof (cases "n < 10")
    case True
    have "(of_char (digit_char n) :: nat) \<noteq> of_char (CHR ''0'')"
      using True 1(2) by (simp add: of_char_digit_char)
    then have "digit_char n \<noteq> CHR ''0''" by metis
    with True show ?thesis by (simp add: show_nat.simps [of n])
  next
    case False
    with 1 show_nat_digits [of "n div 10"] show ?thesis by (simp add: show_nat.simps [of n] hd_append)
  qed
qed

lemma digits_of_append:
  "list_all is_digit ds \<Longrightarrow> stops rest \<Longrightarrow> digits_of (ds @ rest) = ds"
  by (auto simp: digits_of_def stops_def takeWhile_append list_all_iff is_digit_def split: list.splits)

lemma scan_frac_stops: "stops rest \<Longrightarrow> scan_frac rest = Some []"
  by (auto simp: scan_frac_def stops_def split: list.splits)

lemma scan_exp_stops: "stops rest \<Longrightarrow> scan_exp rest = Some []"
  by (auto simp: scan_exp_def stops_def split: list.splits)

lemma scan_number_show_nat:
  assumes "stops rest"
  shows "scan_number (show_nat n @ rest) = Some (show_nat n, rest)"
    and "scan_number (CHR ''-'' # show_nat n @ rest) = Some (CHR ''-'' # show_nat n, rest)"
proof -
  obtain c cs where c: "show_nat n = c # cs" using show_nat_digits [of n] by (cases "show_nat n") auto
  then have dig: "list_all is_digit (c # cs)" using show_nat_digits [of n] by simp
  then have cm: "c \<noteq> CHR ''-''" by (auto simp: is_digit_def)
  have ds: "digits_of (c # cs @ rest) = c # cs" using digits_of_append [OF dig assms] by simp
  have zero: "cs = []" if "c = CHR ''0''"
  proof -
    have "n = 0" using that show_nat_hd [of n] c by (cases "n = 0") auto
    with c show ?thesis by (simp add: show_nat.simps)
  qed
  note stop = scan_frac_stops [OF assms] scan_exp_stops [OF assms]
  show "scan_number (show_nat n @ rest) = Some (show_nat n, rest)"
    using ds zero cm by (cases "c = CHR ''0''") (simp_all add: scan_number_def c stop)
  show "scan_number (CHR ''-'' # show_nat n @ rest) = Some (CHR ''-'' # show_nat n, rest)"
    using ds zero cm by (cases "c = CHR ''0''") (simp_all add: scan_number_def c stop)
qed

lemma scan_number_show_int:
  "stops rest \<Longrightarrow> scan_number (show_int i @ rest) = Some (show_int i, rest)"
  by (simp add: show_int_def scan_number_show_nat)

subsection \<open>Round trip of values\<close>

text \<open>Values the program writes: valid UTF-8 and integers in decimal.\<close>

fun json_wf :: "json \<Rightarrow> bool" where
  "json_wf JNull = True"
| "json_wf (JBool b) = True"
| "json_wf (JNum l) = (case big_SetString l of Some i \<Rightarrow> l = show_int i | None \<Rightarrow> False)"
| "json_wf (JStr s) = utf8_ok s"
| "json_wf (JArr xs) = list_all json_wf xs"
| "json_wf (JObj ms) = list_all (\<lambda>kv. utf8_ok (fst kv) \<and> json_wf (snd kv)) ms"
| "json_wf (JRaw r) = False"

lemma json_wf_show_int [simp]: "json_wf (JNum (show_int i))"
  by (simp add: big_SetString_show_int)

lemma skip_ws_no: "\<not> is_ws c \<Longrightarrow> skip_ws (c # s) = c # s"
  by (simp add: skip_ws_def)

lemma skip_ws_stops: "stops s \<Longrightarrow> skip_ws s = s"
  by (auto simp: skip_ws_def stops_def is_ws_def split: list.splits)

lemma show_int_hd:
  obtains c cs where "show_int i = c # cs" and "is_digit c \<or> c = CHR ''-''"
proof (cases "i < 0")
  case True
  then show ?thesis using that by (simp add: show_int_def)
next
  case False
  obtain c cs where c: "show_nat (nat i) = c # cs"
    using show_nat_digits [of "nat i"] by (cases "show_nat (nat i)") auto
  with show_nat_digits [of "nat i"] False that show ?thesis by (simp add: show_int_def)
qed

lemma digit_or_minus:
  assumes "is_digit c \<or> c = CHR ''-''"
  shows "\<not> is_ws c" "c \<noteq> CHR ''{''" "c \<noteq> CHR ''[''" "c \<noteq> CHR 0x22" "c \<noteq> CHR '']''"
    "\<not> HasPrefix (c # s) ''null''" "\<not> HasPrefix (c # s) ''true''" "\<not> HasPrefix (c # s) ''false''"
  using assms by (auto simp: is_digit_def is_ws_def HasPrefix_def)

lemma parse_int:
  assumes "stops rest"
  shows "parse_value (Suc n) (show_int i @ rest) = Some (JNum (show_int i), rest)"
proof -
  obtain c cs where c: "show_int i = c # cs" "is_digit c \<or> c = CHR ''-''" by (rule show_int_hd)
  with digit_or_minus [OF c(2)] scan_number_show_int [OF assms, of i] show ?thesis
    by (simp add: skip_ws_no)
qed

subsection \<open>Raw messages\<close>

text \<open>
  A \<^verbatim>\<open>json.RawMessage\<close> is written compacted: white space outside strings goes, the
  characters special to HTML and U+2028, U+2029 are escaped, everything else stays. A nil
  message is \<^verbatim>\<open>null\<close>, an invalid one fails the whole \<^verbatim>\<open>Marshal\<close>.
\<close>

fun json_compact :: "bool \<Rightarrow> string \<Rightarrow> string" where
  "json_compact instr [] = []"
| "json_compact instr (c # s) =
     (if c = CHR ''<'' \<or> c = CHR ''>'' \<or> c = CHR ''&'' then esc_u00 c @ json_compact instr s
      else if c = CHR 0xE2 \<and> take 2 s = [CHR 0x80, CHR 0xA8] then CHR 0x5C # ''u2028'' @ json_compact instr (drop 2 s)
      else if c = CHR 0xE2 \<and> take 2 s = [CHR 0x80, CHR 0xA9] then CHR 0x5C # ''u2029'' @ json_compact instr (drop 2 s)
      else if instr \<and> c = CHR 0x5C then (case s of [] \<Rightarrow> [c] | d # t \<Rightarrow> c # d # json_compact True t)
      else if c = CHR 0x22 then c # json_compact (\<not> instr) s
      else if \<not> instr \<and> is_ws c then json_compact instr s
      else c # json_compact instr s)"

definition raw_json :: "string \<Rightarrow> json option" where
  "raw_json r =
     (if r = [] then Some JNull
      else if json_parse r = None then None else Some (JRaw (json_compact False r)))"

subsection \<open>Decoding into structs\<close>

text \<open>
  Object keys match struct fields exactly or, failing that, up to case as \<^verbatim>\<open>encoding/json\<close>
  folds it: ASCII letters, and the two other runes that fold to an ASCII letter,
  U+017F to S and U+212A to K.
\<close>

definition upper :: "char \<Rightarrow> char" where
  "upper c = (if 97 \<le> ord c \<and> ord c \<le> 122 then char_of (ord c - 32) else c)"

fun foldName :: "string \<Rightarrow> string" where
  "foldName [] = []"
| "foldName (a # s) =
     (if a = CHR 0xC5 \<and> take 1 s = [CHR 0xBF] then CHR ''S'' # foldName (drop 1 s)
      else if a = CHR 0xE2 \<and> take 2 s = [CHR 0x84, CHR 0xAA] then CHR ''K'' # foldName (drop 2 s)
      else upper a # foldName s)"

text \<open>Why decoding failed; the text of such an error is not modelled further.\<close>

datatype json_error =
    JSyntax string \<comment> \<open>a document that is not JSON\<close>
  | JType string \<comment> \<open>a value of the wrong type for this field\<close>
  | JUnknown string \<comment> \<open>\<^verbatim>\<open>DisallowUnknownFields\<close>\<close>
  | JMarshal \<comment> \<open>a value that cannot be written\<close>

text \<open>
  A field is its name and how a value (parsed, and as its text) is stored in it. The decoder
  goes through the members in order, keeps the first error and goes on.
\<close>

type_synonym 'a field = "string \<times> (json \<Rightarrow> string \<Rightarrow> 'a \<Rightarrow> json_error + 'a)"

definition find_field :: "'a field list \<Rightarrow> string \<Rightarrow> 'a field option" where
  "find_field fs key =
     (case find (\<lambda>f. fst f = key) fs of
        Some f \<Rightarrow> Some f
      | None \<Rightarrow> find (\<lambda>f. foldName (fst f) = foldName key) fs)"

definition keep_error :: "json_error option \<Rightarrow> json_error \<Rightarrow> json_error option" where
  "keep_error old e = (case old of None \<Rightarrow> Some e | Some e' \<Rightarrow> Some e')"

definition decode_member ::
  "bool \<Rightarrow> 'a field list \<Rightarrow> json_error option \<times> 'a \<Rightarrow> string \<times> json \<times> string \<Rightarrow> json_error option \<times> 'a" where
  "decode_member strict fs st m =
     (case find_field fs (fst m) of
        None \<Rightarrow> (if strict then keep_error (fst st) (JUnknown (fst m)) else fst st, snd st)
      | Some f \<Rightarrow>
          (case snd f (fst (snd m)) (snd (snd m)) (snd st) of
             Inl e \<Rightarrow> (keep_error (fst st) e, snd st)
           | Inr x \<Rightarrow> (fst st, x)))"

definition decode_members ::
  "bool \<Rightarrow> 'a field list \<Rightarrow> (string \<times> json \<times> string) list \<Rightarrow> 'a \<Rightarrow> json_error + 'a" where
  "decode_members strict fs ms x =
     (case foldl (decode_member strict fs) (None, x) ms of
        (Some e, _) \<Rightarrow> Inl e | (None, y) \<Rightarrow> Inr y)"

text \<open>Fields of type string, uint64, int64 and uint32; \<^verbatim>\<open>null\<close> leaves the field as it is.\<close>

definition str_field :: "string \<Rightarrow> (string \<Rightarrow> 'a \<Rightarrow> 'a) \<Rightarrow> 'a field" where
  "str_field name put =
     (name, \<lambda>j _ x. case j of JNull \<Rightarrow> Inr x | JStr s \<Rightarrow> Inr (put s x) | _ \<Rightarrow> Inl (JType name))"

definition num_field :: "(string \<Rightarrow> 'n option) \<Rightarrow> string \<Rightarrow> ('n \<Rightarrow> 'a \<Rightarrow> 'a) \<Rightarrow> 'a field" where
  "num_field parse name put =
     (name, \<lambda>j _ x. case j of JNull \<Rightarrow> Inr x
        | JNum l \<Rightarrow> (case parse l of None \<Rightarrow> Inl (JType name) | Some n \<Rightarrow> Inr (put n x))
        | _ \<Rightarrow> Inl (JType name))"

text \<open>A struct from a value: an object, or \<^verbatim>\<open>null\<close> for no change.\<close>

definition decode_struct ::
  "bool \<Rightarrow> 'a field list \<Rightarrow> json \<Rightarrow> string list \<Rightarrow> 'a \<Rightarrow> json_error + 'a" where
  "decode_struct strict fs j raws x =
     (case j of
        JNull \<Rightarrow> Inr x
      | JObj ms \<Rightarrow> decode_members strict fs (map2 (\<lambda>(k, v) r. (k, v, r)) ms raws) x
      | _ \<Rightarrow> Inl (JType []))"

text \<open>The texts of the member values of the object at the head of a document.\<close>

definition raw_value :: "string \<Rightarrow> string \<Rightarrow> string" where
  "raw_value s rest = take (length (skip_ws s) - length rest) (skip_ws s)"

fun raw_members :: "nat \<Rightarrow> string \<Rightarrow> string list" where
  "raw_members 0 s = []"
| "raw_members (Suc n) s =
     (case parse_chars (drop 1 (skip_ws s)) of None \<Rightarrow> []
      | Some (k, s2) \<Rightarrow>
          (let s3 = drop 1 (skip_ws s2) in
           case parse_value n s3 of None \<Rightarrow> []
           | Some (x, t) \<Rightarrow> raw_value s3 t # raw_members n (drop 1 (skip_ws t))))"

definition object_raws :: "string \<Rightarrow> string list" where
  "object_raws s = raw_members (Suc (length s)) (drop 1 (skip_ws s))"

end
