(* ===== verification/Go_Json_Laws.thy ===== *)
theory Go_Json_Laws
  imports Go_Json_Parse
begin

section \<open>Laws of the JSON reader\<close>

text \<open>
  What follows a value in a document does not change how it is read and can be cut off, and
  the fuel of the reader never runs out on a text it can read.
\<close>

subsection \<open>Numbers and strings\<close>

text \<open>What ends a number.\<close>

definition delim :: "string \<Rightarrow> bool" where
  "delim rest \<longleftrightarrow> rest = [] \<or> (\<not> is_digit (hd rest) \<and> hd rest \<notin> {CHR ''.'', CHR ''e'', CHR ''E''})"

lemma digits_of_more:
  "(digits_of s = s \<longrightarrow> delim r) \<Longrightarrow> digits_of (s @ r) = digits_of s"
  by (induction s) (auto simp: digits_of_def delim_def takeWhile_eq_Nil_iff)

lemma digits_of_split: "s = digits_of s @ drop (length (digits_of s)) s"
  by (induction s) (auto simp: digits_of_def)

lemma scan_frac_more:
  assumes "scan_frac s = Some f" and "drop (length f) s = [] \<longrightarrow> delim r"
  shows "scan_frac (s @ r) = Some f"
proof (cases s)
  case Nil
  with assms show ?thesis by (auto simp: scan_frac_def delim_def split: list.splits)
next
  case (Cons c t)
  show ?thesis
  proof (cases "c = CHR ''.''")
    case True
    with assms Cons have f: "f = c # digits_of t" "digits_of t \<noteq> []" by (auto simp: scan_frac_def split: if_splits)
    have "digits_of (t @ r) = digits_of t"
    proof (rule digits_of_more, rule impI)
      assume "digits_of t = t"
      with assms(2) Cons f show "delim r" by simp
    qed
    with True Cons f show ?thesis by (simp add: scan_frac_def)
  next
    case False
    with assms Cons show ?thesis by (simp add: scan_frac_def)
  qed
qed

lemma scan_exp_more:
  assumes "scan_exp s = Some e" and "drop (length e) s = [] \<longrightarrow> delim r"
  shows "scan_exp (s @ r) = Some e"
proof (cases s)
  case Nil
  with assms show ?thesis by (auto simp: scan_exp_def delim_def split: list.splits)
next
  case (Cons c t)
  show ?thesis
  proof (cases "c = CHR ''e'' \<or> c = CHR ''E''")
    case True
    define sg where "sg = (case t of d # _ \<Rightarrow> if d = CHR ''+'' \<or> d = CHR ''-'' then [d] else [] | [] \<Rightarrow> [])"
    define ds where "ds = digits_of (drop (length sg) t)"
    from assms(1) Cons True have e: "e = c # sg @ ds" "ds \<noteq> []"
      by (auto simp: scan_exp_def Let_def sg_def ds_def split: if_splits)
    then have t: "t \<noteq> []" by (auto simp: ds_def digits_of_def)
    then have sg2: "(case t @ r of d # _ \<Rightarrow> if d = CHR ''+'' \<or> d = CHR ''-'' then [d] else [] | [] \<Rightarrow> []) = sg"
      by (auto simp: sg_def split: list.splits)
    have sgl: "t = sg @ drop (length sg) t" by (auto simp: sg_def split: list.splits)
    have "digits_of (drop (length sg) t @ r) = ds"
      unfolding ds_def
    proof (rule digits_of_more, rule impI)
      assume "digits_of (drop (length sg) t) = drop (length sg) t"
      then have "t = sg @ ds" using sgl by (simp add: ds_def)
      with assms(2) Cons e show "delim r" by simp
    qed
    moreover have "drop (length sg) (t @ r) = drop (length sg) t @ r"
      using sgl by (metis append.assoc append_eq_conv_conj)
    ultimately show ?thesis using True Cons e by (simp add: scan_exp_def Let_def sg2)
  next
    case False
    with assms Cons show ?thesis by (auto simp: scan_exp_def)
  qed
qed

lemma prefix_drop: "(case scan_frac s of None \<Rightarrow> True | Some f \<Rightarrow> s = f @ drop (length f) s)"
  by (auto simp: scan_frac_def intro: digits_of_split split: list.splits)

lemma scan_frac_split: "scan_frac s = Some f \<Longrightarrow> s = f @ drop (length f) s"
  using prefix_drop [of s] by simp

lemma scan_exp_split: "scan_exp s = Some e \<Longrightarrow> s = e @ drop (length e) s"
  using digits_of_split
  by (auto simp: scan_exp_def Let_def split: list.splits if_splits)

lemma scan_number_parts:
  assumes "scan_number s = Some (l, t)"
  obtains sg ds fr ex s2 s3 where "s = sg @ ds @ s2" "s2 = fr @ s3" "s3 = ex @ t" "l = sg @ ds @ fr @ ex" "ds \<noteq> []"
    "sg = (case s of c # _ \<Rightarrow> if c = CHR ''-'' then [c] else [] | [] \<Rightarrow> [])"
    "ds = (case ds @ s2 of c # _ \<Rightarrow> if c = CHR ''0'' then [c] else digits_of (ds @ s2) | [] \<Rightarrow> [])"
    "scan_frac s2 = Some fr" "scan_exp s3 = Some ex"
proof -
  define sg where "sg = (case s of c # _ \<Rightarrow> if c = CHR ''-'' then [c] else [] | [] \<Rightarrow> [])"
  define s1 where "s1 = drop (length sg) s"
  define ds where "ds = (case s1 of c # _ \<Rightarrow> if c = CHR ''0'' then [c] else digits_of s1 | [] \<Rightarrow> [])"
  define s2 where "s2 = drop (length ds) s1"
  have s: "s = sg @ s1" by (auto simp: s1_def sg_def split: list.splits)
  have s1: "s1 = ds @ s2" using digits_of_split [of s1] by (auto simp: s2_def ds_def split: list.splits)
  from assms obtain fr ex where "ds \<noteq> []" and fr: "scan_frac s2 = Some fr"
    and ex: "scan_exp (drop (length fr) s2) = Some ex" and l: "l = sg @ ds @ fr @ ex" and t: "t = drop (length ex) (drop (length fr) s2)"
    unfolding scan_number_def Let_def sg_def [symmetric] s1_def [symmetric] ds_def [symmetric] s2_def [symmetric]
    by (auto split: if_splits option.splits)
  have d2: "ds = (case ds @ s2 of c # _ \<Rightarrow> if c = CHR ''0'' then [c] else digits_of (ds @ s2) | [] \<Rightarrow> [])"
    unfolding s1 [symmetric] by (rule ds_def)
  have s2: "s2 = fr @ drop (length fr) s2" by (rule scan_frac_split [OF fr])
  have s3: "drop (length fr) s2 = ex @ t" unfolding t by (rule scan_exp_split [OF ex])
  show thesis
    by (rule that [OF _ s2 s3 l \<open>ds \<noteq> []\<close> sg_def d2 fr ex]) (simp only: s s1)
qed

lemma scan_number_build:
  assumes "sg = (case sg @ ds @ s2 of c # _ \<Rightarrow> if c = CHR ''-'' then [c] else [] | [] \<Rightarrow> [])" and "ds \<noteq> []"
    and "ds = (case ds @ s2 of c # _ \<Rightarrow> if c = CHR ''0'' then [c] else digits_of (ds @ s2) | [] \<Rightarrow> [])"
    and "s2 = fr @ s3" "s3 = ex @ t" "scan_frac s2 = Some fr" "scan_exp s3 = Some ex"
  shows "scan_number (sg @ ds @ s2) = Some (sg @ ds @ fr @ ex, t)"
proof -
  have d: "drop (length fr) s2 = s3" "drop (length ex) s3 = t" using assms(4,5) by simp_all
  have e: "drop (length sg) (sg @ ds @ s2) = ds @ s2" "drop (length ds) (ds @ s2) = s2" by simp_all
  show ?thesis
    unfolding scan_number_def Let_def assms(1) [symmetric] e assms(3) [symmetric]
    unfolding e assms(6) option.case d assms(7) using assms(2) by simp
qed

lemma scan_number_more:
  assumes "scan_number s = Some (l, t)" and "t = [] \<longrightarrow> delim r"
  shows "scan_number (s @ r) = Some (l, t @ r)"
proof -
  obtain sg ds fr ex s2 s3 where p: "s = sg @ ds @ s2" "s2 = fr @ s3" "s3 = ex @ t" "l = sg @ ds @ fr @ ex" "ds \<noteq> []"
    and sg: "sg = (case s of c # _ \<Rightarrow> if c = CHR ''-'' then [c] else [] | [] \<Rightarrow> [])"
    and ds: "ds = (case ds @ s2 of c # _ \<Rightarrow> if c = CHR ''0'' then [c] else digits_of (ds @ s2) | [] \<Rightarrow> [])"
    and fr: "scan_frac s2 = Some fr" and ex: "scan_exp s3 = Some ex"
    using assms(1) by (rule scan_number_parts)
  have ds2: "ds = (case ds @ s2 @ r of c # _ \<Rightarrow> if c = CHR ''0'' then [c] else digits_of (ds @ s2 @ r) | [] \<Rightarrow> [])"
  proof (cases "hd ds = CHR ''0''")
    case True
    with ds p(5) show ?thesis by (cases ds) auto
  next
    case False
    obtain c cs where dc: "ds = c # cs" using p(5) by (cases ds) auto
    then have c: "c \<noteq> CHR ''0''" using False by simp
    have "ds = digits_of (ds @ s2)"
      using ds unfolding dc append_Cons list.case if_not_P [OF c] .
    moreover have "digits_of ((ds @ s2) @ r) = digits_of (ds @ s2)"
      using calculation p assms(2) by (intro digits_of_more) auto
    ultimately have "ds = digits_of (ds @ s2 @ r)" by simp
    then show ?thesis unfolding dc append_Cons list.case if_not_P [OF c] .
  qed
  have sg2: "sg = (case sg @ ds @ s2 @ r of c # _ \<Rightarrow> if c = CHR ''-'' then [c] else [] | [] \<Rightarrow> [])"
  proof -
    have "s \<noteq> []" using p(1,5) by simp
    then obtain a u where s: "s = a # u" by (meson neq_Nil_conv)
    then have "sg @ ds @ s2 @ r = a # (u @ r)" using p(1) by (metis append.assoc append_Cons)
    then show ?thesis using sg s by (simp only: list.case)
  qed
  have fr2: "scan_frac (s2 @ r) = Some fr" using p assms(2) by (intro scan_frac_more [OF fr]) auto
  have ex2: "scan_exp (s3 @ r) = Some ex" using p assms(2) by (intro scan_exp_more [OF ex]) auto
  have "scan_number (sg @ ds @ s2 @ r) = Some (sg @ ds @ fr @ ex, t @ r)"
    by (rule scan_number_build [OF sg2 p(5) ds2 _ _ fr2 ex2]) (simp_all add: p)
  with p show ?thesis by simp
qed

lemma scan_number_split: "scan_number s = Some (l, t) \<Longrightarrow> s = l @ t \<and> l \<noteq> []"
  by (erule scan_number_parts) simp

subsection \<open>Strings\<close>

lemma rune_len_more: "CHR 0x22 \<in> set s \<Longrightarrow> rune_len (c # s @ r) = rune_len (c # s)"
proof -
  assume q: "CHR 0x22 \<in> set s"
  consider a where "s = [a]" | a b where "s = [a, b]" | a b d t where "s = a # b # d # t"
    using q by (metis empty_iff empty_set list.exhaust)
  then show ?thesis
    using q by cases (auto simp: rune_len_def cont_byte_def split: list.splits)
qed

lemma getu4_more: "CHR 0x22 \<in> set s \<Longrightarrow> getu4 (s @ r) = getu4 s"
proof -
  assume q: "CHR 0x22 \<in> set s"
  have n: "fromHexChar (CHR 0x22) = None" by (simp add: fromHexChar_def)
  consider a where "s = [a]" | a b where "s = [a, b]" | a b c where "s = [a, b, c]" | a b c d t where "s = a # b # c # d # t"
    using q by (metis empty_iff empty_set list.exhaust)
  then show ?thesis
    using q n by cases (auto simp: getu4_def split: option.splits list.splits)
qed

lemma low_surrogate_more: "CHR 0x22 \<in> set s \<Longrightarrow> low_surrogate (s @ r) = low_surrogate s"
proof -
  assume q: "CHR 0x22 \<in> set s"
  consider a where "s = [a]" | a b t where "s = a # b # t" using q by (metis empty_iff empty_set list.exhaust)
  then show ?thesis
  proof cases
    case 1
    then show ?thesis using q by (cases r) (auto simp: low_surrogate_def)
  next
    case 2
    show ?thesis
    proof (cases "a = CHR 0x5C \<and> b = CHR ''u''")
      case True
      then have "CHR 0x22 \<in> set t" using q 2 by auto
      with 2 getu4_more [of t r] show ?thesis by (simp add: low_surrogate_def)
    next
      case False
      with 2 show ?thesis by (auto simp: low_surrogate_def)
    qed
  qed
qed

lemma prepend_SomeE:
  assumes "prepend p m = Some (x, t)"
  obtains y where "m = Some (y, t)" and "x = p @ y"
  using assms by (auto simp: prepend_def)

lemma getu4_length: "getu4 t = Some r \<Longrightarrow> 4 \<le> length t"
  by (auto simp: getu4_def split: list.splits)

lemma low_surrogate_length: "low_surrogate t = Some r \<Longrightarrow> 6 \<le> length t"
  by (auto simp: low_surrogate_def dest: getu4_length split: list.splits if_splits option.splits)

text \<open>One step of the reader: the characters it yields and what is left.\<close>

definition chars_step :: "string \<Rightarrow> (string \<times> string) option" where
  "chars_step s =
     (case s of [] \<Rightarrow> None
      | c # s \<Rightarrow>
        if c = CHR 0x22 then None
        else if c = CHR 0x5C then
          (case s of [] \<Rightarrow> None
           | e # t \<Rightarrow>
               (case simple_escape e of
                  Some x \<Rightarrow> Some ([x], t)
                | None \<Rightarrow>
                    if e = CHR ''u'' then
                      (case getu4 t of None \<Rightarrow> None
                       | Some r \<Rightarrow>
                           if 55296 \<le> r \<and> r \<le> 57343 then
                             (if r \<le> 56319 then
                                (case low_surrogate (drop 4 t) of
                                   Some r' \<Rightarrow> Some (utf8_encode (65536 + (r - 55296) * 1024 + (r' - 56320)), drop 10 t)
                                 | None \<Rightarrow> Some (utf8_encode rune_error, drop 4 t))
                              else Some (utf8_encode rune_error, drop 4 t))
                           else Some (utf8_encode r, drop 4 t))
                    else None))
        else if ord c < 32 then None
        else if ord c < 128 then Some ([c], s)
        else let k = rune_len (c # s) in
          if k = 0 then Some (utf8_encode rune_error, s) else Some (take k (c # s), drop (k - 1) s))"

lemma parse_chars_step:
  "parse_chars (c # s) =
     (if c = CHR 0x22 then Some ([], s)
      else case chars_step (c # s) of None \<Rightarrow> None | Some (p, u) \<Rightarrow> prepend p (parse_chars u))"
  by (simp add: parse_chars.simps(2) chars_step_def Let_def split: option.splits list.splits)

lemma chars_step_shorter: "chars_step s = Some (p, u) \<Longrightarrow> length u < length s"
  by (auto simp: chars_step_def Let_def split: list.splits if_splits option.splits)

lemma chars_step_set: "chars_step s = Some (p, u) \<Longrightarrow> set u \<subseteq> set s"
  by (auto simp: chars_step_def Let_def dest: in_set_dropD split: list.splits if_splits option.splits)

lemma chars_step_more:
  assumes "chars_step s = Some (p, u)" and "CHR 0x22 \<in> set u"
  shows "chars_step (s @ r) = Some (p, u @ r)"
proof (cases s)
  case Nil
  with assms show ?thesis by (simp add: chars_step_def)
next
  case (Cons c s')
  show ?thesis
  proof (cases "c = CHR 0x5C")
    case True
    then obtain e t where t: "s' = e # t" using assms(1) Cons by (cases s') (auto simp: chars_step_def)
    show ?thesis
    proof (cases "simple_escape e")
      case None
      then obtain v where e: "e = CHR ''u''" and v: "getu4 t = Some v"
        using assms(1) Cons True t by (auto simp: chars_step_def split: if_splits option.splits)
      have len: "4 \<le> length t" using v by (rule getu4_length)
      have u: "u = drop 4 t \<or> u = drop 10 t" using assms(1) Cons True t None e v
        by (auto simp: chars_step_def split: if_splits option.splits)
      then have q: "CHR 0x22 \<in> set (drop 4 t)" using assms(2) set_drop_subset_set_drop [of 4 10 t] by auto
      then have "getu4 (t @ r) = Some v" "low_surrogate (drop 4 (t @ r)) = low_surrogate (drop 4 t)"
        using v len getu4_more [of t r] low_surrogate_more [of "drop 4 t" r] by (auto dest: in_set_dropD)
      moreover have "low_surrogate (drop 4 t) = Some w \<Longrightarrow> 10 \<le> length t" for w
        using low_surrogate_length [of "drop 4 t"] by fastforce
      ultimately show ?thesis using assms(1) Cons True t None e v len
        by (auto simp: chars_step_def split: if_splits option.splits)
    next
      case (Some y)
      with assms(1) Cons True t show ?thesis by (simp add: chars_step_def)
    qed
  next
    case False
    show ?thesis
    proof (cases "ord c < 128")
      case True
      with False assms(1) Cons show ?thesis by (auto simp: chars_step_def split: if_splits)
    next
      case high: False
      have c: "c \<noteq> CHR 0x22" "\<not> ord c < 32" using high by auto
      then have "u = s' \<or> u = drop (rune_len (c # s') - 1) s'"
        using assms(1) Cons False high by (auto simp: chars_step_def Let_def split: if_splits)
      then have "CHR 0x22 \<in> set s'" using assms(2) by (auto dest: in_set_dropD)
      then have "rune_len (c # s' @ r) = rune_len (c # s')" by (rule rune_len_more)
      moreover have "rune_len (c # s') \<noteq> 0 \<Longrightarrow> rune_len (c # s') - 1 \<le> length s'"
        using rune_len_take [of "c # s'" "rune_len (c # s')" "[]"] by auto
      ultimately show ?thesis using assms(1) Cons False high c
        by (auto simp: chars_step_def Let_def take_Cons' split: if_splits)
    qed
  qed
qed

text \<open>A string that was read: the closing quote is there, and more text after it changes nothing.\<close>

lemma parse_chars_more:
  "parse_chars s = Some (x, t) \<Longrightarrow>
     CHR 0x22 \<in> set s \<and> length t < length s \<and> parse_chars (s @ r) = Some (x, t @ r)"
proof (induction s arbitrary: x rule: measure_induct_rule [of length])
  case (less s)
  obtain c s' where s: "s = c # s'" using less.prems by (cases s) auto
  show ?case
  proof (cases "c = CHR 0x22")
    case True
    with less.prems s show ?thesis by (simp add: parse_chars_step)
  next
    case False
    with less.prems s obtain p u y where st: "chars_step s = Some (p, u)" and y: "parse_chars u = Some (y, t)" "x = p @ y"
      by (auto simp: parse_chars_step elim: prepend_SomeE split: option.splits)
    note IH = less.IH [OF chars_step_shorter [OF st] y(1)]
    have "chars_step (c # s' @ r) = Some (p, u @ r)" using chars_step_more [OF st] IH s by simp
    moreover have "set u \<subseteq> set s" by (rule chars_step_set [OF st])
    ultimately show ?thesis
      using False IH s y chars_step_shorter [OF st] by (auto simp: parse_chars_step)
  qed
qed

subsection \<open>Values\<close>

lemma skip_ws_more: "skip_ws s = c # u \<Longrightarrow> skip_ws (s @ r) = c # u @ r"
  by (induction s) (auto simp: skip_ws_def split: if_splits)

lemma skip_ws_length: "length (skip_ws s) \<le> length s"
  by (simp add: skip_ws_def length_dropWhile_le)

lemma skip_ws_Cons_length: "skip_ws s = c # u \<Longrightarrow> length u < length s"
  using skip_ws_length [of s] by simp

lemma scan_number_hd:
  assumes "scan_number (c # u) = Some (l, t)"
  shows "is_digit c \<or> c = CHR ''-''"
proof (rule ccontr)
  assume "\<not> ?thesis"
  then have "scan_number (c # u) = None"
    by (auto simp: scan_number_def digits_of_def is_digit_def Let_def)
  with assms show False by simp
qed

text \<open>What a value is read from, by its first character.\<close>

lemma parse_value_literal:
  assumes "c \<noteq> CHR ''{''" and "c \<noteq> CHR ''[''" and "c \<noteq> CHR 0x22" and "skip_ws s = c # u"
  shows "parse_value (Suc n) s =
     (if HasPrefix (c # u) ''null'' then Some (JNull, drop 3 u)
      else if HasPrefix (c # u) ''true'' then Some (JBool True, drop 3 u)
      else if HasPrefix (c # u) ''false'' then Some (JBool False, drop 4 u)
      else map_option (\<lambda>(l, t). (JNum l, t)) (scan_number (c # u)))"
  using assms by simp

lemma parse_literal_more:
  assumes "c \<noteq> CHR ''{''" and "c \<noteq> CHR ''[''" and "c \<noteq> CHR 0x22" and "skip_ws s = c # u"
    and run: "parse_value (Suc n) s = Some (v, t)" and r: "t = [] \<longrightarrow> delim r"
  shows "parse_value (Suc n) (s @ r) = Some (v, t @ r) \<and> length t < length s"
proof -
  have w: "skip_ws (s @ r) = c # (u @ r)" using skip_ws_more [OF assms(4)] by simp
  have len: "length u < length s" by (rule skip_ws_Cons_length [OF assms(4)])
  have pre: "HasPrefix (c # u @ r) p" if "HasPrefix (c # u) p" for p
    using that by (auto simp: HasPrefix_iff) (metis append_Cons append.assoc)
  have pl: "length p \<le> Suc (length u)" if "HasPrefix (c # u) p" for p
    using that by (auto simp: HasPrefix_iff) (metis length_Cons length_append le_add1)
  note L = parse_value_literal [OF assms(1-4), of n] and L' = parse_value_literal [OF assms(1-3) w, of n]
  show ?thesis
  proof (cases "HasPrefix (c # u) ''null'' \<or> HasPrefix (c # u) ''true'' \<or> HasPrefix (c # u) ''false''")
    case True
    then have hd: "c \<in> {CHR ''n'', CHR ''t'', CHR ''f''}" by (auto simp: HasPrefix_iff)
    from True run pre pl hd len show ?thesis unfolding L L' by (fastforce simp: HasPrefix_def split: if_splits)
  next
    case False
    with run obtain l where l: "scan_number (c # u) = Some (l, t)" "v = JNum l" unfolding L by (auto split: if_splits)
    have "length t \<le> length u" using scan_number_split [OF l(1)] by (cases l) auto
    with digit_or_minus [OF scan_number_hd [OF l(1)]] scan_number_more [OF l(1) r] l len
    show ?thesis unfolding L' by simp
  qed
qed

lemma delim_Cons [simp]: "delim (c # u) \<longleftrightarrow> \<not> is_digit c \<and> c \<notin> {CHR ''.'', CHR ''e'', CHR ''E''}"
  by (simp add: delim_def)

lemma delim_Nil [simp]: "delim []"
  by (simp add: delim_def)

text \<open>How lists of elements and of members are read, step by step.\<close>

lemma parse_elemsE:
  assumes "parse_elems (Suc m) s = Some (xs, t)"
  obtains x u c w where "parse_value m s = Some (x, u)" and "skip_ws u = c # w"
    and "c = CHR '']'' \<and> xs = [x] \<and> t = w \<or>
         c = CHR '','' \<and> (\<exists>ys. parse_elems m w = Some (ys, t) \<and> xs = x # ys)"
proof -
  obtain x u where x: "parse_value m s = Some (x, u)" using assms by (auto split: option.splits)
  obtain c w where c: "skip_ws u = c # w" using assms x by (cases "skip_ws u") auto
  show thesis using assms x c by (intro that [OF x c]) (auto split: if_splits)
qed

lemma parse_elemsI:
  assumes "parse_value m s = Some (x, u)" and "skip_ws u = c # w"
    and "c = CHR '']'' \<and> xs = [x] \<and> t = w \<or>
         c = CHR '','' \<and> (\<exists>ys. parse_elems m w = Some (ys, t) \<and> xs = x # ys)"
  shows "parse_elems (Suc m) s = Some (xs, t)"
  using assms by auto

lemma parse_membersE:
  assumes "parse_members (Suc m) s = Some (ms, t)"
  obtains s1 k s2 s3 x u c w where "skip_ws s = CHR 0x22 # s1" and "parse_chars s1 = Some (k, s2)"
    and "skip_ws s2 = CHR '':'' # s3" and "parse_value m s3 = Some (x, u)" and "skip_ws u = c # w"
    and "c = CHR ''}'' \<and> ms = [(k, x)] \<and> t = w \<or>
         c = CHR '','' \<and> (\<exists>ys. parse_members m w = Some (ys, t) \<and> ms = (k, x) # ys)"
proof -
  obtain s1 where q: "skip_ws s = CHR 0x22 # s1" using assms by (auto split: list.splits if_splits)
  obtain k s2 where k: "parse_chars s1 = Some (k, s2)" using assms q by (auto split: option.splits)
  obtain s3 where col: "skip_ws s2 = CHR '':'' # s3" using assms q k by (auto split: list.splits if_splits)
  obtain x u where x: "parse_value m s3 = Some (x, u)" using assms q k col by (auto split: option.splits)
  obtain c w where c: "skip_ws u = c # w" using assms q k col x by (cases "skip_ws u") auto
  show thesis using assms q k col x c by (intro that [OF q k col x c]) (auto split: if_splits)
qed

lemma parse_membersI:
  assumes "skip_ws s = CHR 0x22 # s1" and "parse_chars s1 = Some (k, s2)"
    and "skip_ws s2 = CHR '':'' # s3" and "parse_value m s3 = Some (x, u)" and "skip_ws u = c # w"
    and "c = CHR ''}'' \<and> ms = [(k, x)] \<and> t = w \<or>
         c = CHR '','' \<and> (\<exists>ys. parse_members m w = Some (ys, t) \<and> ms = (k, x) # ys)"
  shows "parse_members (Suc m) s = Some (ms, t)"
  using assms by auto

lemma parse_valueE:
  assumes "parse_value n s = Some (v, t)"
  obtains (obj0) m u where "n = Suc m" "skip_ws s = CHR ''{'' # u" "skip_ws u = CHR ''}'' # t" "v = JObj []"
  | (obj) m u d w ms where "n = Suc m" "skip_ws s = CHR ''{'' # u" "skip_ws u = d # w" "d \<noteq> CHR ''}''"
      "parse_members m u = Some (ms, t)" "v = JObj ms"
  | (arr0) m u where "n = Suc m" "skip_ws s = CHR ''['' # u" "skip_ws u = CHR '']'' # t" "v = JArr []"
  | (arr) m u d w xs where "n = Suc m" "skip_ws s = CHR ''['' # u" "skip_ws u = d # w" "d \<noteq> CHR '']''"
      "parse_elems m u = Some (xs, t)" "v = JArr xs"
  | (str) m u x where "n = Suc m" "skip_ws s = CHR 0x22 # u" "parse_chars u = Some (x, t)" "v = JStr x"
  | (lit) m c u where "n = Suc m" "skip_ws s = c # u" "c \<noteq> CHR ''{''" "c \<noteq> CHR ''[''" "c \<noteq> CHR 0x22"
proof -
  obtain m where n: "n = Suc m" using assms by (cases n) auto
  obtain c u where c: "skip_ws s = c # u" using assms n by (cases "skip_ws s") auto
  consider (o) "c = CHR ''{''" | (a) "c = CHR ''[''" | (st) "c = CHR 0x22"
    | (l) "c \<noteq> CHR ''{''" "c \<noteq> CHR ''[''" "c \<noteq> CHR 0x22" by blast
  then show thesis
  proof cases
    case o
    with assms n c obtain d w where "skip_ws u = d # w" by (cases "skip_ws u") auto
    with o assms n c obj0 obj show thesis by (auto split: if_splits)
  next
    case a
    with assms n c obtain d w where "skip_ws u = d # w" by (cases "skip_ws u") auto
    with a assms n c arr0 arr show thesis by (auto split: if_splits)
  next
    case st
    with assms n c str show thesis by auto
  next
    case l
    with n c lit show thesis by blast
  qed
qed

text \<open>Text after a value that was read changes nothing, and a value takes at least one character.\<close>

lemma skip_ws_ne: "skip_ws u = c # w \<Longrightarrow> u \<noteq> []"
  by (auto simp: skip_ws_def)

lemma parse_more:
  shows "parse_value n s = Some (v, t) \<Longrightarrow> (t = [] \<longrightarrow> delim r) \<Longrightarrow>
      parse_value n (s @ r) = Some (v, t @ r) \<and> length t < length s"
    and "parse_elems n s = Some (xs, t) \<Longrightarrow> parse_elems n (s @ r) = Some (xs, t @ r) \<and> length t < length s"
    and "parse_members n s = Some (ms, t) \<Longrightarrow> parse_members n (s @ r) = Some (ms, t @ r) \<and> length t < length s"
proof (induction n arbitrary: s v t xs ms)
  case (Suc n)
  { case 1
    from 1(1) show ?case
    proof (cases rule: parse_valueE)
      case (obj m u d w ms)
      with Suc.IH(3) [of u] skip_ws_more [OF obj(2), of r] skip_ws_more [OF obj(3), of r] skip_ws_Cons_length [OF obj(2)]
      show ?thesis by auto
    next
      case (arr m u d w xs)
      with Suc.IH(2) [of u] skip_ws_more [OF arr(2), of r] skip_ws_more [OF arr(3), of r] skip_ws_Cons_length [OF arr(2)]
      show ?thesis by auto
    next
      case (obj0 m u)
      with skip_ws_more [OF obj0(2), of r] skip_ws_more [OF obj0(3), of r] skip_ws_Cons_length [OF obj0(2)] skip_ws_Cons_length [OF obj0(3)]
      show ?thesis by auto
    next
      case (arr0 m u)
      with skip_ws_more [OF arr0(2), of r] skip_ws_more [OF arr0(3), of r] skip_ws_Cons_length [OF arr0(2)] skip_ws_Cons_length [OF arr0(3)]
      show ?thesis by auto
    next
      case (str m u x)
      with parse_chars_more [OF str(3), of r] skip_ws_more [OF str(2), of r] skip_ws_Cons_length [OF str(2)] show ?thesis by auto
    next
      case (lit m c u)
      from lit(1) 1 parse_literal_more [OF lit(3,4,5,2)] show ?thesis by simp
    qed
  next
    case 2
    from 2 obtain x u c w where x: "parse_value n s = Some (x, u)" and c: "skip_ws u = c # w"
      and rest: "c = CHR '']'' \<and> xs = [x] \<and> t = w \<or> c = CHR '','' \<and> (\<exists>ys. parse_elems n w = Some (ys, t) \<and> xs = x # ys)"
      by (rule parse_elemsE)
    have v: "parse_value n (s @ r) = Some (x, u @ r)" "length u < length s"
      using Suc.IH(1) [OF x] skip_ws_ne [OF c] by auto
    have rest': "c = CHR '']'' \<and> xs = [x] \<and> t @ r = w @ r \<or>
        c = CHR '','' \<and> (\<exists>ys. parse_elems n (w @ r) = Some (ys, t @ r) \<and> xs = x # ys)" and len: "length t \<le> length w"
      using rest Suc.IH(2) [of w] by (auto dest: less_imp_le)
    show ?case
      using parse_elemsI [OF v(1) _ rest'] skip_ws_more [OF c, of r] v(2) len skip_ws_Cons_length [OF c] by simp
  next
    case 3
    from 3 obtain s1 k s2 s3 x u c w where q: "skip_ws s = CHR 0x22 # s1" and k: "parse_chars s1 = Some (k, s2)"
      and col: "skip_ws s2 = CHR '':'' # s3" and x: "parse_value n s3 = Some (x, u)" and c: "skip_ws u = c # w"
      and rest: "c = CHR ''}'' \<and> ms = [(k, x)] \<and> t = w \<or>
         c = CHR '','' \<and> (\<exists>ys. parse_members n w = Some (ys, t) \<and> ms = (k, x) # ys)"
      by (rule parse_membersE)
    have v: "parse_value n (s3 @ r) = Some (x, u @ r)" "length u < length s3"
      using Suc.IH(1) [OF x] skip_ws_ne [OF c] by auto
    have rest': "c = CHR ''}'' \<and> ms = [(k, x)] \<and> t @ r = w @ r \<or>
        c = CHR '','' \<and> (\<exists>ys. parse_members n (w @ r) = Some (ys, t @ r) \<and> ms = (k, x) # ys)" and len: "length t \<le> length w"
      using rest Suc.IH(3) [of w] by (auto dest: less_imp_le)
    show ?case
      using parse_membersI [OF _ _ _ v(1) _ rest'] skip_ws_more [OF q, of r] skip_ws_more [OF col, of r]
        skip_ws_more [OF c, of r] parse_chars_more [OF k, of r] v(2) len
        skip_ws_Cons_length [OF q] skip_ws_Cons_length [OF col] skip_ws_Cons_length [OF c] by simp
  }
qed simp_all

text \<open>
  The fuel never matters: a text that can be read is read with as much fuel as the number
  of characters it takes.
\<close>

lemma parse_fuel:
  shows "parse_value n s = Some (v, t) \<Longrightarrow> length s \<le> m + length t \<Longrightarrow> parse_value m s = Some (v, t)"
    and "parse_elems n s = Some (xs, t) \<Longrightarrow> length s \<le> m + length t \<Longrightarrow> parse_elems m s = Some (xs, t)"
    and "parse_members n s = Some (ms, t) \<Longrightarrow> length s \<le> m + length t \<Longrightarrow> parse_members m s = Some (ms, t)"
proof (induction n arbitrary: s v t xs ms m)
  case (Suc n)
  { case 1
    have "length t < length s" using parse_more(1) [OF 1(1), of "[]"] by simp
    then obtain k where m: "m = Suc k" using 1(2) by (cases m) auto
    from 1(1) show ?case
    proof (cases rule: parse_valueE)
      case (obj j u d w ms)
      with Suc.IH(3) [of u ms t k] 1(2) m skip_ws_Cons_length [OF obj(2)] show ?thesis by auto
    next
      case (arr j u d w xs)
      with Suc.IH(2) [of u xs t k] 1(2) m skip_ws_Cons_length [OF arr(2)] show ?thesis by auto
    next
      case (lit j c u)
      with 1 m show ?thesis by simp
    qed (use m in auto)
  next
    case 2
    from 2(1) obtain x u c w where x: "parse_value n s = Some (x, u)" and c: "skip_ws u = c # w"
      and rest: "c = CHR '']'' \<and> xs = [x] \<and> t = w \<or> c = CHR '','' \<and> (\<exists>ys. parse_elems n w = Some (ys, t) \<and> xs = x # ys)"
      by (rule parse_elemsE)
    note lu = parse_more(1) [OF x, of "[]"] skip_ws_Cons_length [OF c]
    have lt: "length t \<le> length w" using rest parse_more(2) [of n w _ t "[]"] by (auto dest: less_imp_le)
    then obtain k where m: "m = Suc k" using 2(2) lu by (cases m) auto
    have "parse_value k s = Some (x, u)" using Suc.IH(1) [OF x, of k] 2(2) m lu lt by simp
    moreover have "c = CHR '']'' \<and> xs = [x] \<and> t = w \<or> c = CHR '','' \<and> (\<exists>ys. parse_elems k w = Some (ys, t) \<and> xs = x # ys)"
      using rest Suc.IH(2) [of w _ t k] 2(2) m lu by auto
    ultimately show ?case unfolding m by (rule parse_elemsI [OF _ c])
  next
    case 3
    from 3(1) obtain s1 k s2 s3 x u c w where q: "skip_ws s = CHR 0x22 # s1" and k: "parse_chars s1 = Some (k, s2)"
      and col: "skip_ws s2 = CHR '':'' # s3" and x: "parse_value n s3 = Some (x, u)" and c: "skip_ws u = c # w"
      and rest: "c = CHR ''}'' \<and> ms = [(k, x)] \<and> t = w \<or>
         c = CHR '','' \<and> (\<exists>ys. parse_members n w = Some (ys, t) \<and> ms = (k, x) # ys)"
      by (rule parse_membersE)
    note lu = parse_more(1) [OF x, of "[]"] skip_ws_Cons_length [OF c] skip_ws_Cons_length [OF q]
      skip_ws_Cons_length [OF col] parse_chars_more [OF k, of "[]"]
    have lt: "length t \<le> length w" using rest parse_more(3) [of n w _ t "[]"] by (auto dest: less_imp_le)
    then obtain j where m: "m = Suc j" using 3(2) lu by (cases m) auto
    have "parse_value j s3 = Some (x, u)" using Suc.IH(1) [OF x, of j] 3(2) m lu lt by simp
    moreover have "c = CHR ''}'' \<and> ms = [(k, x)] \<and> t = w \<or>
         c = CHR '','' \<and> (\<exists>ys. parse_members j w = Some (ys, t) \<and> ms = (k, x) # ys)"
      using rest Suc.IH(3) [of w _ t j] 3(2) m lu by auto
    ultimately show ?case unfolding m by (rule parse_membersI [OF q k col _ c])
  }
qed simp_all

subsection \<open>Replacing what follows\<close>

lemma digits_of_app:
  "\<forall>x \<in> set ds. is_digit x \<Longrightarrow> w = [] \<or> \<not> is_digit (hd w) \<Longrightarrow> digits_of (ds @ w) = ds"
  by (cases w) (auto simp: digits_of_def takeWhile_append)

lemma digits_of_digit: "x \<in> set (digits_of u) \<Longrightarrow> is_digit x"
  by (auto simp: digits_of_def dest: set_takeWhileD)

lemma scan_frac_replace:
  assumes "scan_frac s = Some f" and "w = [] \<or> \<not> is_digit (hd w) \<and> hd w \<noteq> CHR ''.''"
  shows "scan_frac (f @ w) = Some f"
proof (cases "f = []")
  case True
  with assms show ?thesis by (cases w) (auto simp: scan_frac_def)
next
  case False
  with assms(1) obtain t where f: "f = CHR ''.'' # digits_of t" "digits_of t \<noteq> []"
    by (auto simp: scan_frac_def split: list.splits if_splits)
  have "digits_of (digits_of t @ w) = digits_of t"
    using assms(2) by (auto simp: digits_of_def takeWhile_append takeWhile_eq_Nil_iff dest: set_takeWhileD)
  with f show ?thesis by (simp add: scan_frac_def)
qed

lemma scan_exp_replace:
  assumes "scan_exp s = Some e" and "delim w"
  shows "scan_exp (e @ w) = Some e"
proof (cases "e = []")
  case True
  with assms show ?thesis by (cases w) (auto simp: scan_exp_def)
next
  case False
  with assms(1) obtain c t where c: "c = CHR ''e'' \<or> c = CHR ''E''" and s: "s = c # t"
    by (auto simp: scan_exp_def split: list.splits if_splits)
  define sg where "sg = (case t of d # _ \<Rightarrow> if d = CHR ''+'' \<or> d = CHR ''-'' then [d] else [] | [] \<Rightarrow> [])"
  define ds where "ds = digits_of (drop (length sg) t)"
  have e: "e = c # sg @ ds" "ds \<noteq> []"
    using assms(1) s c by (auto simp: scan_exp_def Let_def sg_def [symmetric] ds_def [symmetric] split: if_splits)
  have dig: "\<forall>d \<in> set ds. is_digit d" unfolding ds_def digits_of_def by (auto dest: set_takeWhileD)
  then obtain d dt where d: "ds = d # dt" "is_digit d" using e(2) by (cases ds) auto
  then have "d \<noteq> CHR ''+''" "d \<noteq> CHR ''-''" by (auto simp: is_digit_def)
  moreover have "sg = [] \<or> sg = [CHR ''+''] \<or> sg = [CHR ''-'']" by (auto simp: sg_def split: list.splits)
  ultimately have sg2: "(case sg @ ds @ w of d # _ \<Rightarrow> if d = CHR ''+'' \<or> d = CHR ''-'' then [d] else [] | [] \<Rightarrow> []) = sg"
    using d by auto
  have "digits_of (ds @ w) = ds"
    using dig assms(2) by (auto simp: digits_of_def delim_def takeWhile_append takeWhile_eq_Nil_iff)
  then show ?thesis using c e sg2 by (simp add: scan_exp_def Let_def)
qed

lemma scan_number_replace:
  assumes "scan_number s = Some (l, t)" and "delim w"
  shows "scan_number (l @ w) = Some (l, w)"
proof -
  obtain sg ds fr ex s2 s3 where p: "s = sg @ ds @ s2" "s2 = fr @ s3" "s3 = ex @ t" "l = sg @ ds @ fr @ ex" "ds \<noteq> []"
    and sg: "sg = (case s of c # _ \<Rightarrow> if c = CHR ''-'' then [c] else [] | [] \<Rightarrow> [])"
    and ds: "ds = (case ds @ s2 of c # _ \<Rightarrow> if c = CHR ''0'' then [c] else digits_of (ds @ s2) | [] \<Rightarrow> [])"
    and fr: "scan_frac s2 = Some fr" and ex: "scan_exp s3 = Some ex"
    using assms(1) by (rule scan_number_parts)
  have exw: "ex @ w = [] \<or> \<not> is_digit (hd (ex @ w)) \<and> hd (ex @ w) \<noteq> CHR ''.''"
    using ex assms(2) by (auto simp: scan_exp_def delim_def is_digit_def Let_def split: list.splits if_splits)
  have frw: "fr @ ex @ w = [] \<or> \<not> is_digit (hd (fr @ ex @ w))"
    using fr exw by (cases fr) (auto simp: scan_frac_def is_digit_def split: list.splits if_splits)
  have ds2: "ds = (case ds @ fr @ ex @ w of c # _ \<Rightarrow> if c = CHR ''0'' then [c] else digits_of (ds @ fr @ ex @ w) | [] \<Rightarrow> [])"
  proof -
    obtain c cs where dc: "ds = c # cs" using p(5) by (cases ds) auto
    show ?thesis
    proof (cases "c = CHR ''0''")
      case True
      with ds show ?thesis unfolding dc by simp
    next
      case False
      have "ds = digits_of (ds @ s2)" using ds unfolding dc append_Cons list.case if_not_P [OF False] .
      then have "\<forall>x \<in> set ds. is_digit x" by (metis digits_of_digit)
      then have "digits_of (ds @ fr @ ex @ w) = ds" by (rule digits_of_app [OF _ frw])
      then show ?thesis unfolding dc append_Cons list.case if_not_P [OF False] by simp
    qed
  qed
  have sg2: "sg = (case sg @ ds @ fr @ ex @ w of c # _ \<Rightarrow> if c = CHR ''-'' then [c] else [] | [] \<Rightarrow> [])"
  proof -
    have "s \<noteq> []" using p(1,5) by simp
    then obtain a u where s: "s = a # u" by (meson neq_Nil_conv)
    show ?thesis
    proof (cases "sg = []")
      case True
      have "hd ds = a" using p(1,5) s True by (cases ds) auto
      then show ?thesis using True sg s p(5) by (cases ds) (auto split: if_splits)
    next
      case False
      then have "sg = [CHR ''-'']" using sg s by (auto split: if_splits)
      then show ?thesis by simp
    qed
  qed
  have "scan_number (sg @ ds @ fr @ ex @ w) = Some (sg @ ds @ fr @ ex, w)"
    by (rule scan_number_build [OF sg2 p(5) ds2 refl refl]) (simp_all add: scan_frac_replace [OF fr exw] scan_exp_replace [OF ex assms(2)])
  with p show ?thesis by simp
qed

lemma scan_number_chars:
  assumes "scan_number s = Some (l, t)" and "c \<in> set l"
  shows "is_digit c \<or> c \<in> {CHR ''-'', CHR ''+'', CHR ''.'', CHR ''e'', CHR ''E''}"
proof -
  note dg = digits_of_digit
  obtain sg ds fr ex s2 s3 where l: "l = sg @ ds @ fr @ ex"
    and sg: "sg = (case s of c # _ \<Rightarrow> if c = CHR ''-'' then [c] else [] | [] \<Rightarrow> [])"
    and ds: "ds = (case ds @ s2 of c # _ \<Rightarrow> if c = CHR ''0'' then [c] else digits_of (ds @ s2) | [] \<Rightarrow> [])"
    and fr: "scan_frac s2 = Some fr" and ex: "scan_exp s3 = Some ex"
    using assms(1) by (rule scan_number_parts)
  have "c \<in> set sg \<Longrightarrow> c = CHR ''-''" using sg by (auto split: list.splits if_splits)
  moreover have "is_digit c \<or> c = CHR ''0''" if "c \<in> set ds"
  proof (cases "ds @ s2")
    case Nil
    with that show ?thesis by simp
  next
    case (Cons a u)
    have "ds = [a] \<and> a = CHR ''0'' \<or> ds = digits_of (ds @ s2)"
      using ds unfolding Cons list.case by (simp only: split: if_splits) simp_all
    with that dg [of c "ds @ s2"] show ?thesis by auto
  qed
  moreover have "c \<in> set fr \<Longrightarrow> is_digit c \<or> c = CHR ''.''"
    using fr dg by (auto simp: scan_frac_def split: list.splits if_splits)
  moreover have "c \<in> set ex \<Longrightarrow> is_digit c \<or> c \<in> {CHR ''-'', CHR ''+'', CHR ''e'', CHR ''E''}"
    using ex dg by (auto simp: scan_exp_def Let_def split: list.splits if_splits)
  moreover have "is_digit (CHR ''0'')" by (simp add: is_digit_def)
  ultimately show ?thesis using assms(2) l by auto
qed

subsection \<open>Cutting off what follows a string\<close>

lemma chars_step_suffix: "chars_step s = Some (p, u) \<Longrightarrow> \<exists>q. s = q @ u \<and> q \<noteq> []"
proof -
  assume st: "chars_step s = Some (p, u)"
  have "\<exists>k. u = drop k s"
    using st by (auto simp: chars_step_def Let_def split: list.splits if_splits option.splits)
      (metis drop_Suc_Cons drop_0 | metis drop_Suc_Cons)+
  then obtain k where k: "u = drop k s" ..
  have "s = take k s @ u" by (simp add: k)
  moreover have "take k s \<noteq> []" using chars_step_shorter [OF st] k by auto
  ultimately show ?thesis by blast
qed

lemma chars_step_cut:
  assumes "chars_step (s @ t) = Some (p, u @ t)" and "CHR 0x22 \<in> set u"
  shows "chars_step s = Some (p, u)"
proof -
  obtain q where q: "s @ t = q @ u @ t" "q \<noteq> []" using chars_step_suffix [OF assms(1)] by blast
  then obtain c q' where c: "q = c # q'" by (cases q) auto
  define w where "w = q' @ u"
  have s: "s = c # w" using q c by (simp add: w_def)
  have wq: "CHR 0x22 \<in> set w" using assms(2) by (simp add: w_def)
  show ?thesis
  proof (cases "c = CHR 0x5C")
    case True
    obtain e x where x: "w = e # x" using wq by (cases w) auto
    show ?thesis
    proof (cases "simple_escape e")
      case None
      then obtain v where e: "e = CHR ''u''" and v: "getu4 (x @ t) = Some v"
        using assms(1) s True x by (auto simp: chars_step_def split: if_splits option.splits)
      have xq: "CHR 0x22 \<in> set x" using wq x e by auto
      have v': "getu4 x = Some v" using v getu4_more [OF xq, of t] by simp
      have len: "4 \<le> length x" using v' by (rule getu4_length)
      have u: "u @ t = drop 4 (x @ t) \<or> u @ t = drop 10 (x @ t)" using assms(1) s True x None e v
        by (auto simp: chars_step_def split: if_splits option.splits)
      have u': "u = drop 4 x \<or> 10 \<le> length x \<and> u = drop 10 x"
      proof (cases "u @ t = drop 4 (x @ t)")
        case False
        with u have u10: "u @ t = drop 10 (x @ t)" by simp
        then have "length u + length t = length x + length t - 10" by (metis length_append length_drop)
        then have "10 \<le> length x" using assms(2) by (cases u) auto
        with u10 show ?thesis by simp
      qed (use len in simp)
      then have q4: "CHR 0x22 \<in> set (drop 4 x)" using assms(2) set_drop_subset_set_drop [of 4 10 x] by auto
      have low: "low_surrogate (drop 4 (x @ t)) = low_surrogate (drop 4 x)"
        using low_surrogate_more [OF q4, of t] len by simp
      have len10: "low_surrogate (drop 4 x) = Some y \<Longrightarrow> 10 \<le> length x" for y
        using low_surrogate_length [of "drop 4 x"] by fastforce
      show ?thesis using assms(1) s True x None e v v' low len len10
        by (auto simp: chars_step_def split: if_splits option.splits)
    next
      case (Some y)
      with assms(1) s True x show ?thesis by (simp add: chars_step_def)
    qed
  next
    case False
    show ?thesis
    proof (cases "ord c < 128")
      case True
      with False assms(1) s show ?thesis by (auto simp: chars_step_def split: if_splits)
    next
      case high: False
      have c: "c \<noteq> CHR 0x22" "\<not> ord c < 32" using high by auto
      have rl: "rune_len (c # w @ t) = rune_len (c # w)" by (rule rune_len_more [OF wq])
      have "rune_len (c # w) \<noteq> 0 \<Longrightarrow> rune_len (c # w) - 1 \<le> length w"
        using rune_len_take [of "c # w" "rune_len (c # w)" "[]"] by auto
      with rl show ?thesis using assms(1) s False high c
        by (auto simp: chars_step_def Let_def take_Cons' split: if_splits)
    qed
  qed
qed

lemma parse_chars_cut:
  "parse_chars s = Some (x, t) \<Longrightarrow> \<exists>p. s = p @ t \<and> parse_chars p = Some (x, [])"
proof (induction s arbitrary: x rule: measure_induct_rule [of length])
  case (less s)
  obtain c s' where s: "s = c # s'" using less.prems by (cases s) auto
  show ?case
  proof (cases "c = CHR 0x22")
    case True
    with less.prems s show ?thesis by (intro exI [of _ "[c]"]) (simp add: parse_chars_step)
  next
    case False
    with less.prems s obtain p u y where st: "chars_step s = Some (p, u)" and y: "parse_chars u = Some (y, t)" "x = p @ y"
      by (auto simp: parse_chars_step elim: prepend_SomeE split: option.splits)
    obtain u' where u': "u = u' @ t" "parse_chars u' = Some (y, [])"
      using less.IH [OF chars_step_shorter [OF st] y(1)] by blast
    have quote: "CHR 0x22 \<in> set u'" using parse_chars_more [OF u'(2)] by blast
    obtain q where q: "s = q @ u" "q \<noteq> []" using chars_step_suffix [OF st] by blast
    have "chars_step (q @ u') = Some (p, u')"
      by (rule chars_step_cut [OF _ quote, of _ t]) (use st q u' in simp)
    moreover obtain d q' where "q = d # q'" using q(2) by (cases q) auto
    ultimately have "parse_chars (q @ u') = Some (x, [])" using s q False u'(2) y(2) by (simp add: parse_chars_step)
    with q u' show ?thesis by (intro exI [of _ "q @ u'"]) simp
  qed
qed

lemma scan_number_cut: "scan_number s = Some (l, t) \<Longrightarrow> s = l @ t \<and> scan_number l = Some (l, [])"
  using scan_number_split [of s l t] scan_number_replace [of s l t "[]"] by simp

end
