(* ===== verification/Go_Json_Compact.thy ===== *)
theory Go_Json_Compact
  imports Go_Json_Laws
begin

section \<open>Compacting a JSON text does not change what it reads as\<close>

text \<open>
  \<^verbatim>\<open>json.Marshal\<close> compacts the raw messages inside a value. The compacted text is read as the
  same value as the original.
\<close>

subsection \<open>Strings\<close>

subsection \<open>Compaction\<close>

text \<open>The characters that compaction treats apart.\<close>

definition special :: "char \<Rightarrow> bool" where
  "special c \<longleftrightarrow> c \<in> {CHR ''<'', CHR ''>'', CHR ''&'', CHR 0xE2, CHR 0x5C, CHR 0x22}"

lemma compact_plain: "\<not> special c \<Longrightarrow> json_compact True (c # s) = c # json_compact True s"
  "\<not> special c \<Longrightarrow> \<not> is_ws c \<Longrightarrow> json_compact False (c # s) = c # json_compact False s"
  by (simp_all add: special_def)

lemma compact_html: "c \<in> {CHR ''<'', CHR ''>'', CHR ''&''} \<Longrightarrow> json_compact b (c # s) = esc_u00 c @ json_compact b s"
  by auto

lemma compact_E2:
  "take 2 s = [CHR 0x80, CHR 0xA8] \<Longrightarrow> json_compact b (CHR 0xE2 # s) = CHR 0x5C # ''u2028'' @ json_compact b (drop 2 s)"
  "take 2 s = [CHR 0x80, CHR 0xA9] \<Longrightarrow> json_compact b (CHR 0xE2 # s) = CHR 0x5C # ''u2029'' @ json_compact b (drop 2 s)"
  "take 2 s \<noteq> [CHR 0x80, CHR 0xA8] \<Longrightarrow> take 2 s \<noteq> [CHR 0x80, CHR 0xA9] \<Longrightarrow>
     json_compact b (CHR 0xE2 # s) = CHR 0xE2 # json_compact b s"
  by (simp_all add: is_ws_def)

lemma compact_bs [simp]:
  "json_compact True [CHR 0x5C] = [CHR 0x5C]"
  "json_compact True (CHR 0x5C # d # t) = CHR 0x5C # d # json_compact True t"
  by simp_all

lemma compact_quote [simp]: "json_compact b (CHR 0x22 # s) = CHR 0x22 # json_compact (\<not> b) s"
  by simp

declare json_compact.simps(2) [simp del]

lemma compact_hd:
  obtains (plain) "json_compact True (c # s) = c # json_compact True s" "c \<noteq> CHR 0x22" "c \<noteq> CHR 0x5C"
    "c \<notin> {CHR ''<'', CHR ''>'', CHR ''&''}"
  | (html) "c \<in> {CHR ''<'', CHR ''>'', CHR ''&''}"
  | (a8) "c = CHR 0xE2" "take 2 s = [CHR 0x80, CHR 0xA8]"
  | (a9) "c = CHR 0xE2" "take 2 s = [CHR 0x80, CHR 0xA9]"
  | (bs) "c = CHR 0x5C"
  | (quote) "c = CHR 0x22"
proof -
  consider "\<not> special c" | "c \<in> {CHR ''<'', CHR ''>'', CHR ''&''}" | "c = CHR 0xE2" | "c = CHR 0x5C" | "c = CHR 0x22"
    by (auto simp: special_def)
  then show thesis
  proof cases
    case 1
    then show thesis by (intro plain compact_plain(1)) (auto simp: special_def)
  next
    case 3
    then show thesis using compact_E2(3) [of s True] a8 a9 plain by auto
  qed (use html bs quote in auto)
qed

lemma compact_special:
  assumes "special c"
  shows "json_compact True (c # s) \<noteq> [] \<and> special (hd (json_compact True (c # s)))"
proof -
  have sp: "special (CHR 0x5C)" "special (CHR 0xE2)" "special (CHR 0x22)" by (simp_all add: special_def)
  show ?thesis
  proof (cases rule: compact_hd [of c s])
    case plain
    with assms show ?thesis by simp
  next
    case bs
    with sp show ?thesis by (cases s) simp_all
  qed (use sp in \<open>simp_all add: compact_html compact_E2 esc_u00_def\<close>)
qed

lemma compact_takeWhile:
  assumes "\<And>c. P c \<Longrightarrow> \<not> special c"
  shows "takeWhile P (json_compact True s) = takeWhile P s"
proof (induction s)
  case (Cons c s)
  show ?case
  proof (cases "special c")
    case True
    then have "json_compact True (c # s) \<noteq> []" "\<not> P (hd (json_compact True (c # s)))"
      using compact_special [OF True, of s] assms by auto
    then have "takeWhile P (json_compact True (c # s)) = []" by (simp add: takeWhile_eq_Nil_iff)
    with True assms show ?thesis by auto
  next
    case False
    with Cons show ?thesis by (simp add: compact_plain)
  qed
qed simp

lemma compact_take_drop:
  assumes "\<And>c. P c \<Longrightarrow> \<not> special c" and "m \<le> length (takeWhile P s)"
  shows "take m (json_compact True s) = take m s" and "drop m (json_compact True s) = json_compact True (drop m s)"
  using assms(2)
proof (induction s arbitrary: m)
  case (Cons c s)
  { case 1
    then show ?case
      using Cons.IH(1) [of "m - 1"] assms(1) [of c]
      by (cases m) (auto simp: compact_plain simp del: json_compact.simps split: if_splits)
  next
    case 2
    then show ?case
      using Cons.IH(2) [of "m - 1"] assms(1) [of c]
      by (cases m) (auto simp: compact_plain simp del: json_compact.simps split: if_splits)
  }
qed simp_all

definition is_hex :: "char \<Rightarrow> bool" where
  "is_hex c \<longleftrightarrow> fromHexChar c \<noteq> None"

lemma hex_plain: "is_hex c \<Longrightarrow> \<not> special c"
  by (auto simp: special_def is_hex_def fromHexChar_def)

lemma cont_plain: "cont_byte c \<Longrightarrow> \<not> special c"
  by (auto simp: special_def cont_byte_def)

lemma getu4_hex: "getu4 s = getu4 (takeWhile is_hex s)"
  by (auto simp: getu4_def is_hex_def split: list.splits option.splits)

lemma getu4_compact [simp]: "getu4 (json_compact True s) = getu4 s"
  using getu4_hex [of s] getu4_hex [of "json_compact True s"] compact_takeWhile [of is_hex s, OF hex_plain] by simp

lemma getu4_hex_length: "getu4 s = Some r \<Longrightarrow> 4 \<le> length (takeWhile is_hex s)"
  using getu4_hex [of s] getu4_length by metis

lemma rune_len_cont: "rune_len (c # s) = rune_len (c # takeWhile cont_byte s)"
  by (auto simp: rune_len_def split: list.splits)

lemma rune_len_compact: "rune_len (c # json_compact True s) = rune_len (c # s)"
  using rune_len_cont [of c s] rune_len_cont [of c "json_compact True s"]
    compact_takeWhile [of cont_byte s, OF cont_plain] by simp

lemma rune_len_cont_length:
  assumes "rune_len (c # s) \<noteq> 0"
  shows "rune_len (c # s) - 1 \<le> length (takeWhile cont_byte s)"
  using rune_len_take [of "c # takeWhile cont_byte s" "rune_len (c # s)" "[]"] assms rune_len_cont [of c s] by auto

lemma low_surrogate_other: "a \<noteq> CHR 0x5C \<Longrightarrow> low_surrogate (a # t) = None"
  by (simp add: low_surrogate_def split: list.splits)

lemma low_surrogate_escapes:
  "low_surrogate (CHR 0x5C # ''u2028'' @ w) = None" "low_surrogate (CHR 0x5C # ''u2029'' @ w) = None"
  "c \<in> {CHR ''<'', CHR ''>'', CHR ''&''} \<Longrightarrow> low_surrogate (esc_u00 c @ w) = None"
  by (auto simp: low_surrogate_def getu4_def fromHexChar_def esc_u00_def hextable_def)

lemma low_surrogate_compact [simp]: "low_surrogate (json_compact True s) = low_surrogate s"
proof (cases s)
  case (Cons a t)
  show ?thesis
  proof (cases rule: compact_hd [of a t])
    case plain
    with Cons show ?thesis by (simp add: low_surrogate_other)
  next
    case html
    then have "a \<noteq> CHR 0x5C" by auto
    with html Cons show ?thesis by (simp add: compact_html low_surrogate_escapes low_surrogate_other)
  next
    case a8
    with Cons low_surrogate_escapes(1) show ?thesis by (simp add: compact_E2 low_surrogate_other)
  next
    case a9
    with Cons low_surrogate_escapes(2) show ?thesis by (simp add: compact_E2 low_surrogate_other)
  next
    case bs
    with Cons show ?thesis by (cases t) (simp_all add: low_surrogate_def)
  next
    case quote
    with Cons show ?thesis by (simp add: low_surrogate_other)
  qed
qed simp

lemma chars_step_u:
  "chars_step (CHR 0x5C # CHR ''u'' # t) =
     (case getu4 t of None \<Rightarrow> None
      | Some r \<Rightarrow>
          if 55296 \<le> r \<and> r \<le> 57343 then
            (if r \<le> 56319 then
               (case low_surrogate (drop 4 t) of
                  Some r' \<Rightarrow> Some (utf8_encode (65536 + (r - 55296) * 1024 + (r' - 56320)), drop 10 t)
                | None \<Rightarrow> Some (utf8_encode rune_error, drop 4 t))
             else Some (utf8_encode rune_error, drop 4 t))
          else Some (utf8_encode r, drop 4 t))"
  by (simp add: chars_step_def simple_escape_def)

lemma chars_step_esc_u00:
  assumes "ord c < 128"
  shows "chars_step (esc_u00 c @ t) = Some ([c], t)"
proof -
  have "16 * (ord c div 16) + ord c mod 16 = ord c" by simp
  with assms have "getu4 (CHR ''0'' # CHR ''0'' # hextable ! (ord c div 16) # hextable ! (ord c mod 16) # t) = Some (ord c)"
    unfolding getu4_def by (simp add: hex_ord_digits)
  moreover have "utf8_encode (ord c) = [c]" using assms by (simp add: utf8_encode_def)
  ultimately show ?thesis
    using assms by (simp add: esc_u00_def chars_step_def simple_escape_def)
qed

lemma chars_step_u2028:
  "chars_step (CHR 0x5C # ''u2028'' @ t) = Some ([CHR 0xE2, CHR 0x80, CHR 0xA8], t)"
  "chars_step (CHR 0x5C # ''u2029'' @ t) = Some ([CHR 0xE2, CHR 0x80, CHR 0xA9], t)"
  by (simp_all add: chars_step_def simple_escape_def getu4_def fromHexChar_def utf8_encode_def char_of_def bit_0)

lemma chars_step_compact:
  assumes "chars_step s = Some (p, u)"
  shows "chars_step (json_compact True s) = Some (p, json_compact True u)"
proof -
  obtain c s' where s: "s = c # s'" using assms by (cases s) (auto simp: chars_step_def)
  have c: "c \<noteq> CHR 0x22" using assms s by (auto simp: chars_step_def)
  show ?thesis
  proof (cases "c = CHR 0x5C")
    case True
    then obtain e t where t: "s' = e # t" using assms s by (cases s') (auto simp: chars_step_def)
    have k: "json_compact True s = c # e # json_compact True t" using s t True by simp
    show ?thesis
    proof (cases "simple_escape e")
      case (Some y)
      with assms s t True k show ?thesis by (simp add: chars_step_def)
    next
      case None
      then obtain v where e: "e = CHR ''u''" and v: "getu4 t = Some v"
        using assms s True t by (auto simp: chars_step_def split: if_splits option.splits)
      have d4: "drop 4 (json_compact True t) = json_compact True (drop 4 t)"
        by (rule compact_take_drop(2) [OF hex_plain getu4_hex_length [OF v]])
      have d10: "drop 10 (json_compact True t) = json_compact True (drop 10 t)"
        if low: "low_surrogate (drop 4 t) = Some w" for w
      proof -
        obtain t2 where t2: "drop 4 t = CHR 0x5C # CHR ''u'' # t2" and g: "getu4 t2 = Some w"
          using low by (auto simp: low_surrogate_def split: list.splits if_splits option.splits)
        have "drop 10 (json_compact True t) = drop 6 (json_compact True (drop 4 t))"
          by (simp flip: d4)
        also have "\<dots> = drop 4 (json_compact True t2)" by (simp add: t2 drop_Cons')
        also have "\<dots> = json_compact True (drop 4 t2)"
          by (rule compact_take_drop(2) [OF hex_plain getu4_hex_length [OF g]])
        also have "drop 4 t2 = drop 6 (drop 4 t)" unfolding t2 by (simp add: drop_Cons')
        finally show ?thesis by simp
      qed
      show ?thesis
      proof (cases "low_surrogate (drop 4 t)")
        case None
        with assms v show ?thesis
          unfolding k unfolding s t True e chars_step_u getu4_compact d4 low_surrogate_compact
          by (auto split: if_splits)
      next
        case (Some w)
        with assms v d10 [OF Some] show ?thesis
          unfolding k unfolding s t True e chars_step_u getu4_compact d4 low_surrogate_compact
          by (auto split: if_splits)
      qed
    qed
  next
    case False
    show ?thesis
    proof (cases "ord c < 128")
      case True
      show ?thesis
      proof (cases "special c")
        case sp: True
        have "c \<noteq> CHR 0xE2" using True by auto
        with sp False c have c2: "c \<in> {CHR ''<'', CHR ''>'', CHR ''&''}" unfolding special_def by blast
        have "\<not> ord c < 32" using c2 by auto
        with assms c2 c False True show ?thesis
          unfolding s compact_html [OF c2] chars_step_esc_u00 [OF True] by (simp add: chars_step_def)
      next
        case pl: False
        with assms False c True show ?thesis
          unfolding s compact_plain(1) [OF pl] by (auto simp: chars_step_def split: if_splits)
      qed
    next
      case high: False
      show ?thesis
      proof (cases rule: compact_hd [of c s'])
        case a8
        then obtain r where r: "s' = CHR 0x80 # CHR 0xA8 # r" by (cases s'; cases "tl s'") (auto simp: eval_nat_numeral)
        have "rune_len s = 3" by (simp add: s a8 r rune_len_def cont_byte_def)
        with assms show ?thesis using chars_step_u2028(1)
          unfolding s a8(1) compact_E2(1) [OF a8(2)] unfolding r by (simp add: chars_step_def [of "CHR 0xE2 # _"] drop_Cons' take_Cons')
      next
        case a9
        then obtain r where r: "s' = CHR 0x80 # CHR 0xA9 # r" by (cases s'; cases "tl s'") (auto simp: eval_nat_numeral)
        have "rune_len s = 3" by (simp add: s a9 r rune_len_def cont_byte_def)
        with assms show ?thesis using chars_step_u2028(2)
          unfolding s a9(1) compact_E2(2) [OF a9(2)] unfolding r by (simp add: chars_step_def [of "CHR 0xE2 # _"] drop_Cons' take_Cons')
      next
        case plain
        have lo: "\<not> ord c < 32" using high by simp
        show ?thesis
        proof (cases "rune_len (c # s') = 0")
          case True
          with assms s c False high lo show ?thesis
            unfolding s plain(1) by (simp add: chars_step_def Let_def rune_len_compact)
        next
          case ne: False
          note td = compact_take_drop [OF cont_plain rune_len_cont_length [OF ne]]
          obtain j where j: "rune_len (c # s') = Suc j" using ne by (cases "rune_len (c # s')") auto
          with assms s c False high lo td show ?thesis
            unfolding s plain(1) by (simp add: chars_step_def Let_def rune_len_compact)
        qed
      qed (use high False c in auto)
    qed
  qed
qed

lemma chars_step_hd: "chars_step s = Some (p, u) \<Longrightarrow> \<exists>d w. s = d # w \<and> d \<noteq> CHR 0x22"
  by (cases s) (auto simp: chars_step_def split: if_splits)

lemma parse_chars_compact:
  "parse_chars s = Some (x, t) \<Longrightarrow> parse_chars (json_compact True s) = Some (x, json_compact False t)"
proof (induction s arbitrary: x rule: measure_induct_rule [of length])
  case (less s)
  obtain c s' where s: "s = c # s'" using less.prems by (cases s) auto
  show ?case
  proof (cases "c = CHR 0x22")
    case True
    with less.prems s show ?thesis by (simp add: parse_chars_step)
  next
    case False
    with less.prems s obtain p u y where st: "chars_step s = Some (p, u)" and y: "parse_chars u = Some (y, t)" "x = p @ y"
      by (auto simp: parse_chars_step elim: prepend_SomeE split: option.splits)
    note IH = less.IH [OF chars_step_shorter [OF st] y(1)] and st' = chars_step_compact [OF st]
    obtain d w where d: "json_compact True s = d # w" "d \<noteq> CHR 0x22" using chars_step_hd [OF st'] by blast
    with IH st' y show ?thesis by (simp add: parse_chars_step)
  qed
qed

subsection \<open>Values\<close>

lemma compact_skip_ws: "json_compact False s = json_compact False (skip_ws s)"
  by (induction s) (auto simp: skip_ws_def is_ws_def json_compact.simps(2))

lemma skip_ws_hd: "skip_ws s = c # u \<Longrightarrow> \<not> is_ws c"
  by (metis skip_ws_def hd_dropWhile list.discI list.sel(1))

lemma skip_compact:
  assumes "skip_ws s = c # u" and "\<not> special c"
  shows "skip_ws (json_compact False s) = c # json_compact False u"
  using compact_skip_ws [of s] compact_plain(2) [OF assms(2) skip_ws_hd [OF assms(1)]] assms skip_ws_hd [OF assms(1)]
  by (simp add: skip_ws_no)

lemma skip_compact_quote:
  assumes "skip_ws s = CHR 0x22 # u"
  shows "skip_ws (json_compact False s) = CHR 0x22 # json_compact True u"
  using compact_skip_ws [of s] assms by (simp add: skip_ws_no is_ws_def)

lemma compact_append_plain: "\<forall>c \<in> set l. \<not> special c \<and> \<not> is_ws c \<Longrightarrow> json_compact False (l @ t) = l @ json_compact False t"
  by (induction l) (auto simp: compact_plain)

lemma delim_compact: "stops (skip_ws t) \<Longrightarrow> delim (json_compact False t)"
proof (cases "skip_ws t")
  case (Cons c u)
  assume "stops (skip_ws t)"
  with Cons have c: "c \<in> {CHR '','', CHR '']'', CHR ''}''}" by (auto simp: stops_def)
  then have "\<not> special c" "\<not> is_ws c" by (auto simp: special_def is_ws_def)
  with Cons compact_skip_ws [of t] c show ?thesis by (auto simp: compact_plain is_digit_def)
qed (use compact_skip_ws [of t] in simp)

lemma compact_Nil: "skip_ws t = [] \<Longrightarrow> json_compact False t = []"
  using compact_skip_ws [of t] by simp

lemma parse_literal_compact:
  assumes "c \<noteq> CHR ''{''" and "c \<noteq> CHR ''[''" and "c \<noteq> CHR 0x22" and "skip_ws s = c # u"
    and run: "parse_value (Suc n) s = Some (v, t)" and t: "stops (skip_ws t)"
  shows "parse_value (Suc n) (json_compact False s) = Some (v, json_compact False t)"
proof -
  note L = parse_value_literal [OF assms(1-4), of n]
  have lit: "\<exists>u'. json_compact False s = c # u' \<and> drop (length l) (c # u) = t \<longrightarrow> True" for l by simp
  show ?thesis
  proof (cases "HasPrefix (c # u) ''null'' \<or> HasPrefix (c # u) ''true'' \<or> HasPrefix (c # u) ''false''")
    case True
    then obtain l where l: "l \<in> {''null'', ''true'', ''false''}" "HasPrefix (c # u) l" by blast
    then obtain w where w: "c # u = l @ w" by (auto simp: HasPrefix_iff)
    have pl: "\<forall>c \<in> set l. \<not> special c \<and> \<not> is_ws c" using l(1) by (auto simp: special_def is_ws_def)
    have k: "json_compact False s = l @ json_compact False w"
      using compact_skip_ws [of s] compact_append_plain [OF pl, of w] w assms(4) by simp
    have tw: "t = w \<and> parse_value (Suc n) (l @ x) = Some (v, x)" for x
      using run l(1) w unfolding L by (auto simp: HasPrefix_def skip_ws_no is_ws_def)
    show ?thesis unfolding k using tw [of "json_compact False w"] by simp
  next
    case False
    with run obtain l where l: "scan_number (c # u) = Some (l, t)" "v = JNum l" unfolding L by (auto split: if_splits)
    have cu: "c # u = l @ t" and lne: "l \<noteq> []" using scan_number_split [OF l(1)] by auto
    have pl: "\<forall>c \<in> set l. \<not> special c \<and> \<not> is_ws c"
      using scan_number_chars [OF l(1)] by (fastforce simp: special_def is_ws_def is_digit_def)
    have k: "json_compact False s = l @ json_compact False t"
      using compact_skip_ws [of s] compact_append_plain [OF pl, of t] cu assms(4) by simp
    obtain l' where l': "l = c # l'" using cu lne by (cases l) auto
    note num = scan_number_replace [OF l(1) delim_compact [OF t]]
    show ?thesis
      using digit_or_minus [OF scan_number_hd [OF l(1)]] num l(2) unfolding k l' by (simp add: skip_ws_no)
  qed
qed

lemma value_hd:
  assumes "parse_value n s = Some (v, t)"
  obtains d w where "skip_ws s = d # w" and "d = CHR 0x22 \<or> \<not> special d"
  using assms
proof (cases rule: parse_valueE)
  case (lit m c u)
  have "\<not> special c"
  proof (cases "HasPrefix (c # u) ''null'' \<or> HasPrefix (c # u) ''true'' \<or> HasPrefix (c # u) ''false''")
    case True
    then have "c = CHR ''n'' \<or> c = CHR ''t'' \<or> c = CHR ''f''" by (auto simp: HasPrefix_def)
    then show ?thesis by (auto simp: special_def)
  next
    case False
    have "\<exists>l. scan_number (c # u) = Some (l, t)"
      using assms False unfolding lit(1) parse_value_literal [OF lit(3,4,5,2)]
      by (cases "scan_number (c # u)") auto
    then obtain l where "scan_number (c # u) = Some (l, t)" ..
    then have "is_digit c \<or> c = CHR ''-''" by (rule scan_number_hd)
    then show ?thesis by (auto simp: special_def is_digit_def)
  qed
  with that lit show ?thesis by blast
qed (auto simp: special_def intro!: that)

lemma skip_compact_any:
  assumes "skip_ws s = d # w" and "d = CHR 0x22 \<or> \<not> special d"
  shows "\<exists>w'. skip_ws (json_compact False s) = d # w'"
  using skip_compact [OF assms(1)] skip_compact_quote [of s w] assms by auto

lemma stops_Cons: "c \<in> {CHR '','', CHR '']'', CHR ''}''} \<Longrightarrow> stops (c # w)"
  by (auto simp: stops_def)

lemma parse_compact:
  shows "parse_value n s = Some (v, t) \<Longrightarrow> stops (skip_ws t) \<Longrightarrow>
      parse_value n (json_compact False s) = Some (v, json_compact False t)"
    and "parse_elems n s = Some (xs, t) \<Longrightarrow> parse_elems n (json_compact False s) = Some (xs, json_compact False t)"
    and "parse_members n s = Some (ms, t) \<Longrightarrow> parse_members n (json_compact False s) = Some (ms, json_compact False t)"
proof (induction n arbitrary: s v t xs ms)
  case (Suc n)
  have sp: "\<not> special (CHR ''{'')" "\<not> special (CHR ''}'')" "\<not> special (CHR ''['')" "\<not> special (CHR '']'')"
    "\<not> special (CHR '','')" "\<not> special (CHR '':'')" by (simp_all add: special_def)
  { case 1
    from 1(1) show ?case
    proof (cases rule: parse_valueE)
      case (obj0 m u)
      with skip_compact [OF obj0(2) sp(1)] skip_compact [OF obj0(3) sp(2)] show ?thesis by simp
    next
      case (arr0 m u)
      with skip_compact [OF arr0(2) sp(3)] skip_compact [OF arr0(3) sp(4)] show ?thesis by simp
    next
      case (obj m u d w ms)
      then have "d = CHR 0x22" by (cases m) (auto split: if_splits)
      with obj skip_compact [OF obj(2) sp(1)] skip_compact_quote [of u w] Suc.IH(3) [of u ms t] show ?thesis by auto
    next
      case (str m u x)
      with skip_compact_quote [OF str(2)] parse_chars_compact [OF str(3)] show ?thesis by simp
    next
      case (lit m c u)
      with parse_literal_compact [OF lit(3,4,5,2), of n v t] 1 show ?thesis by simp
    next
      case (arr m u d w xs)
      have IH: "parse_elems n (json_compact False u) = Some (xs, json_compact False t)" using Suc.IH(2) [of u xs t] arr by auto
      obtain m' x r where "m = Suc m'" "parse_value m' u = Some (x, r)"
        using arr(5) by (cases m) (simp, metis parse_elemsE)
      then have "d = CHR 0x22 \<or> \<not> special d" using arr(3) by (auto elim: value_hd)
      then obtain w' where "skip_ws (json_compact False u) = d # w'" using skip_compact_any [OF arr(3)] by blast
      with IH arr skip_compact [OF arr(2) sp(3)] show ?thesis by simp
    qed
  next
    case 2
    then show ?case
    proof (rule parse_elemsE)
      fix x u c w
      assume v: "parse_value n s = Some (x, u)" and u: "skip_ws u = c # w"
        and alt: "c = CHR '']'' \<and> xs = [x] \<and> t = w \<or> c = CHR '','' \<and> (\<exists>ys. parse_elems n w = Some (ys, t) \<and> xs = x # ys)"
      have c: "stops (skip_ws u)" "\<not> special c" using alt u by (auto simp: stops_def special_def)
      have cu: "skip_ws (json_compact False u) = c # json_compact False w" by (rule skip_compact [OF u c(2)])
      have r: "c = CHR '']'' \<and> xs = [x] \<and> json_compact False t = json_compact False w \<or>
          c = CHR '','' \<and> (\<exists>ys. parse_elems n (json_compact False w) = Some (ys, json_compact False t) \<and> xs = x # ys)"
        using alt Suc.IH(2) by auto
      show ?thesis by (rule parse_elemsI [OF Suc.IH(1) [OF v c(1)] cu r])
    qed
  next
    case 3
    then show ?case
    proof (rule parse_membersE)
      fix s1 k s2 s3 x u c w
      assume k: "skip_ws s = CHR 0x22 # s1" "parse_chars s1 = Some (k, s2)" "skip_ws s2 = CHR '':'' # s3"
        and v: "parse_value n s3 = Some (x, u)" and u: "skip_ws u = c # w"
        and alt: "c = CHR ''}'' \<and> ms = [(k, x)] \<and> t = w \<or>
          c = CHR '','' \<and> (\<exists>ys. parse_members n w = Some (ys, t) \<and> ms = (k, x) # ys)"
      have c: "stops (skip_ws u)" "\<not> special c" using alt u by (auto simp: stops_def special_def)
      have cu: "skip_ws (json_compact False u) = c # json_compact False w" by (rule skip_compact [OF u c(2)])
      have r: "c = CHR ''}'' \<and> ms = [(k, x)] \<and> json_compact False t = json_compact False w \<or>
          c = CHR '','' \<and> (\<exists>ys. parse_members n (json_compact False w) = Some (ys, json_compact False t) \<and> ms = (k, x) # ys)"
        using alt Suc.IH(3) by auto
      show ?thesis
        by (rule parse_membersI [OF skip_compact_quote [OF k(1)] parse_chars_compact [OF k(2)] skip_compact [OF k(3) sp(6)]
            Suc.IH(1) [OF v c(1)] cu r])
    qed
  }
qed simp_all

theorem json_parse_compact: "json_parse r = Some v \<Longrightarrow> json_parse (json_compact False r) = Some v"
proof -
  assume "json_parse r = Some v"
  then obtain t where t: "parse_value (Suc (length r)) r = Some (v, t)" "skip_ws t = []"
    by (auto simp: json_parse_def split: option.splits if_splits)
  have c: "parse_value (Suc (length r)) (json_compact False r) = Some (v, [])"
    using parse_compact(1) [OF t(1)] t(2) compact_Nil [OF t(2)] by (simp add: stops_def)
  have "parse_value (Suc (length (json_compact False r))) (json_compact False r) = Some (v, [])"
    by (rule parse_fuel(1) [OF c]) simp
  then show ?thesis by (simp add: json_parse_def skip_ws_def)
qed

end
