(* ===== verification/Go_Json_Reread.thy ===== *)
theory Go_Json_Reread
  imports Go_Json_Compact "HOL-Library.Sublist"
begin

section \<open>What a written JSON text reads as\<close>

text \<open>
  \<open>reads s v\<close>: the text \<open>s\<close> is exactly the value \<open>v\<close>. It is closed under the way arrays and
  objects are written, it holds of the text the encoder writes for a value (with the raw
  messages replaced by what they read as, and bytes that are not UTF-8 by U+FFFD), of the
  compacted text of a raw message, and of the raw texts the decoder cuts out of any document.
\<close>

subsection \<open>Cutting a value out of a text\<close>

lemma skip_ws_cut: "skip_ws s = c # u @ t \<Longrightarrow> \<exists>s'. s = s' @ t \<and> skip_ws s' = c # u"
proof (induction s)
  case (Cons d s)
  show ?case
  proof (cases "is_ws d")
    case True
    with Cons obtain s' where "s = s' @ t" "skip_ws s' = c # u" by (auto simp: skip_ws_def)
    with True show ?thesis by (intro exI [of _ "d # s'"]) (simp add: skip_ws_def)
  next
    case False
    with Cons.prems show ?thesis by (intro exI [of _ "c # u"]) (simp add: skip_ws_no)
  qed
qed (simp add: skip_ws_def)

lemma delim_after:
  assumes "skip_ws u = c # w" and "c \<in> {CHR '','', CHR '']'', CHR ''}''}"
  shows "delim u"
proof (cases u)
  case (Cons d u')
  then have "d = c \<or> is_ws d" using assms(1) by (auto simp: skip_ws_def split: if_splits)
  with assms(2) Cons show ?thesis by (auto simp: is_ws_def is_digit_def)
qed simp

lemma skip_ws_same_hd:
  assumes "skip_ws (p @ t) = d # w" and "skip_ws p = e # y"
  shows "e = d"
  using assms skip_ws_more [OF assms(2), of t] by simp

lemma parse_literal_cut:
  assumes "c \<noteq> CHR ''{''" and "c \<noteq> CHR ''[''" and "c \<noteq> CHR 0x22" and "skip_ws s = c # u"
    and run: "parse_value (Suc n) s = Some (v, t)"
  shows "\<exists>p. s = p @ t \<and> parse_value (Suc n) p = Some (v, [])"
proof -
  note L = parse_value_literal [OF assms(1-4), of n]
  have "\<exists>l. c # u = l @ t \<and> l \<noteq> [] \<and> parse_value (Suc n) l = Some (v, []) \<and>
      (\<forall>q. skip_ws q = l \<longrightarrow> parse_value (Suc n) q = Some (v, []))"
  proof (cases "HasPrefix (c # u) ''null'' \<or> HasPrefix (c # u) ''true'' \<or> HasPrefix (c # u) ''false''")
    case True
    then obtain l where l: "l \<in> {''null'', ''true'', ''false''}" "HasPrefix (c # u) l" by blast
    then obtain w where w: "c # u = l @ w" by (auto simp: HasPrefix_iff)
    have "t = w" and v: "skip_ws q = l \<Longrightarrow> parse_value (Suc n) q = Some (v, [])" for q
      using run l(1) w unfolding L by (auto simp: HasPrefix_def)
    moreover have "skip_ws l = l" using l(1) by (auto simp: skip_ws_def is_ws_def)
    ultimately show ?thesis using w l(1) by (intro exI [of _ l]) auto
  next
    case False
    with run obtain l where l: "scan_number (c # u) = Some (l, t)" "v = JNum l" unfolding L by (auto split: if_splits)
    have cu: "c # u = l @ t" and lne: "l \<noteq> []" and num: "scan_number l = Some (l, [])"
      using scan_number_split [OF l(1)] scan_number_cut [OF l(1)] by auto
    obtain l' where l': "l = c # l'" using cu lne by (cases l) auto
    have q: "parse_value (Suc n) q = Some (v, [])" if "skip_ws q = l" for q
      using digit_or_minus [OF scan_number_hd [OF l(1)]] num l(2) that unfolding l' by simp
    moreover have "skip_ws l = l" using digit_or_minus [OF scan_number_hd [OF l(1)]] l' by (simp add: skip_ws_no)
    ultimately show ?thesis using cu lne by blast
  qed
  then obtain l where l: "c # u = l @ t" "l \<noteq> []" and q: "\<And>q. skip_ws q = l \<Longrightarrow> parse_value (Suc n) q = Some (v, [])" by blast
  obtain l' where l': "l = c # l'" using l by (cases l) auto
  then obtain p where "s = p @ t" "skip_ws p = l" using skip_ws_cut [of s c l' t] assms(4) l by auto
  with q show ?thesis by blast
qed

text \<open>What follows a value can be cut off.\<close>

lemma parse_cut:
  shows "parse_value n s = Some (v, t) \<Longrightarrow> \<exists>p. s = p @ t \<and> parse_value n p = Some (v, [])"
    and "parse_elems n s = Some (xs, t) \<Longrightarrow> \<exists>p. s = p @ t \<and> parse_elems n p = Some (xs, [])"
    and "parse_members n s = Some (ms, t) \<Longrightarrow> \<exists>p. s = p @ t \<and> parse_members n p = Some (ms, [])"
proof (induction n arbitrary: s v t xs ms)
  case (Suc n)
  { case 1
    then show ?case
    proof (cases rule: parse_valueE)
      case (obj0 m u)
      obtain u0 where u0: "u = u0 @ t" "skip_ws u0 = ''}''" using skip_ws_cut [of u _ "[]" t] obj0(3) by auto
      obtain s0 where "s = s0 @ t" "skip_ws s0 = CHR ''{'' # u0" using skip_ws_cut [of s _ u0 t] obj0(2) u0 by auto
      with obj0 u0 show ?thesis by (intro exI [of _ s0]) simp
    next
      case (arr0 m u)
      obtain u0 where u0: "u = u0 @ t" "skip_ws u0 = '']''" using skip_ws_cut [of u _ "[]" t] arr0(3) by auto
      obtain s0 where "s = s0 @ t" "skip_ws s0 = CHR ''['' # u0" using skip_ws_cut [of s _ u0 t] arr0(2) u0 by auto
      with arr0 u0 show ?thesis by (intro exI [of _ s0]) simp
    next
      case (obj m u d w ms)
      obtain u0 where u0: "u = u0 @ t" "parse_members m u0 = Some (ms, [])" using Suc.IH(3) obj by blast
      obtain s0 where s0: "s = s0 @ t" "skip_ws s0 = CHR ''{'' # u0" using skip_ws_cut [of s _ u0 t] obj(2) u0 by auto
      obtain e y where e: "skip_ws u0 = e # y" using u0(2) by (cases m) (auto split: list.splits)
      have "e = d" using skip_ws_same_hd [OF _ e, of t d w] obj(3) u0 by simp
      with s0 e u0 obj show ?thesis by (intro exI [of _ s0]) simp
    next
      case (arr m u d w xs)
      obtain u0 where u0: "u = u0 @ t" "parse_elems m u0 = Some (xs, [])" using Suc.IH(2) arr by blast
      obtain s0 where s0: "s = s0 @ t" "skip_ws s0 = CHR ''['' # u0" using skip_ws_cut [of s _ u0 t] arr(2) u0 by auto
      obtain m' x r where "parse_value m' u0 = Some (x, r)"
        using u0(2) by (cases m) (simp, metis parse_elemsE)
      then obtain e y where e: "skip_ws u0 = e # y" by (rule value_hd)
      have "e = d" using skip_ws_same_hd [OF _ e, of t d w] arr(3) u0 by simp
      with s0 e u0 arr show ?thesis by (intro exI [of _ s0]) simp
    next
      case (str m u x)
      obtain u0 where u0: "u = u0 @ t" "parse_chars u0 = Some (x, [])" using parse_chars_cut [OF str(3)] by blast
      obtain s0 where "s = s0 @ t" "skip_ws s0 = CHR 0x22 # u0" using skip_ws_cut [of s _ u0 t] str(2) u0 by auto
      with str u0 show ?thesis by (intro exI [of _ s0]) simp
    next
      case (lit m c u)
      with parse_literal_cut [OF lit(3,4,5,2), of n v t] 1 show ?thesis by simp
    qed
  next
    case 2
    then show ?case
    proof (rule parse_elemsE)
      fix x u c w
      assume v: "parse_value n s = Some (x, u)" and u: "skip_ws u = c # w"
        and alt: "c = CHR '']'' \<and> xs = [x] \<and> t = w \<or> c = CHR '','' \<and> (\<exists>ys. parse_elems n w = Some (ys, t) \<and> xs = x # ys)"
      obtain p where p: "s = p @ u" "parse_value n p = Some (x, [])" using Suc.IH(1) [OF v] by blast
      obtain w0 where w0: "w = w0 @ t" and alt0: "c = CHR '']'' \<and> xs = [x] \<and> [] = w0 \<or>
          c = CHR '','' \<and> (\<exists>ys. parse_elems n w0 = Some (ys, []) \<and> xs = x # ys)"
        using alt Suc.IH(2) by blast
      obtain u0 where u0: "u = u0 @ t" "skip_ws u0 = c # w0" using skip_ws_cut [of u c w0 t] u w0 by auto
      have "delim u0" by (rule delim_after [OF u0(2)]) (use alt0 in auto)
      then have "parse_value n (p @ u0) = Some (x, u0)" using parse_more(1) [OF p(2), of u0] by simp
      then show ?thesis using parse_elemsI [OF _ u0(2) alt0] p u0 by (intro exI [of _ "p @ u0"]) simp
    qed
  next
    case 3
    then show ?case
    proof (rule parse_membersE)
      fix s1 k s2 s3 x u c w
      assume k: "skip_ws s = CHR 0x22 # s1" "parse_chars s1 = Some (k, s2)" "skip_ws s2 = CHR '':'' # s3"
        and v: "parse_value n s3 = Some (x, u)" and u: "skip_ws u = c # w"
        and alt: "c = CHR ''}'' \<and> ms = [(k, x)] \<and> t = w \<or>
          c = CHR '','' \<and> (\<exists>ys. parse_members n w = Some (ys, t) \<and> ms = (k, x) # ys)"
      obtain p where p: "s3 = p @ u" "parse_value n p = Some (x, [])" using Suc.IH(1) [OF v] by blast
      obtain w0 where w0: "w = w0 @ t" and alt0: "c = CHR ''}'' \<and> ms = [(k, x)] \<and> [] = w0 \<or>
          c = CHR '','' \<and> (\<exists>ys. parse_members n w0 = Some (ys, []) \<and> ms = (k, x) # ys)"
        using alt Suc.IH(3) by blast
      obtain u0 where u0: "u = u0 @ t" "skip_ws u0 = c # w0" using skip_ws_cut [of u c w0 t] u w0 by auto
      have "delim u0" by (rule delim_after [OF u0(2)]) (use alt0 in auto)
      then have pv: "parse_value n (p @ u0) = Some (x, u0)" using parse_more(1) [OF p(2), of u0] by simp
      obtain s20 where s20: "s2 = s20 @ t" "skip_ws s20 = CHR '':'' # p @ u0" using skip_ws_cut [of s2 _ "p @ u0" t] k(3) p u0 by auto
      obtain s1p where s1p: "s1 = s1p @ s2" "parse_chars s1p = Some (k, [])" using parse_chars_cut [OF k(2)] by blast
      have pc: "parse_chars (s1p @ s20) = Some (k, s20)" using parse_chars_more [OF s1p(2), of s20] by simp
      obtain s0 where s0: "s = s0 @ t" "skip_ws s0 = CHR 0x22 # s1p @ s20"
        using skip_ws_cut [of s _ "s1p @ s20" t] k(1) s1p s20 by auto
      from parse_membersI [OF s0(2) pc s20(2) pv u0(2) alt0] s0 show ?thesis by blast
    qed
  }
qed simp_all

subsection \<open>The texts of the members of an object\<close>

text \<open>The text of exactly one value, with nothing before or after it.\<close>

definition reads :: "string \<Rightarrow> json \<Rightarrow> bool" where
  "reads s v \<longleftrightarrow> parse_value (Suc (length s)) s = Some (v, []) \<and> skip_ws s = s"

lemma skip_ws_idem [simp]: "skip_ws (skip_ws s) = skip_ws s"
  by (simp add: skip_ws_def dropWhile_idem)

lemma skip_ws_Nil [simp]: "skip_ws [] = []"
  by (simp add: skip_ws_def)

lemma parse_value_skip: "parse_value n (skip_ws s) = parse_value n s"
  by (cases n) simp_all

lemma reads_parse: "reads s v \<Longrightarrow> json_parse s = Some v"
  by (simp add: reads_def json_parse_def del: parse_value.simps)

lemma reads_value: "reads s v \<Longrightarrow> length s \<le> n \<Longrightarrow> delim r \<Longrightarrow> parse_value n (s @ r) = Some (v, r)"
  using parse_fuel(1) [of "Suc (length s)" s v "[]" n] parse_more(1) [of n s v "[]" r]
  by (auto simp: reads_def simp del: parse_value.simps)

lemma value_reads:
  assumes "parse_value n s = Some (v, t)"
  shows "reads (raw_value s t) v" and "sublist (raw_value s t) s"
proof -
  obtain p where p: "s = p @ t" "parse_value n p = Some (v, [])" using parse_cut(1) [OF assms] by blast
  obtain d w where d: "skip_ws p = d # w" using value_hd [OF p(2)] by blast
  have raw: "raw_value s t = skip_ws p" using skip_ws_more [OF d, of t] d by (simp add: raw_value_def p(1))
  have "parse_value n (skip_ws p) = Some (v, [])" using p(2) by (simp add: parse_value_skip)
  then have "parse_value (Suc (length (skip_ws p))) (skip_ws p) = Some (v, [])"
    by (rule parse_fuel(1)) simp
  then show "reads (raw_value s t) v" by (simp add: reads_def raw)
  have "suffix (skip_ws p) p" unfolding skip_ws_def by (rule suffix_dropWhile)
  then show "sublist (raw_value s t) s"
    unfolding raw by (auto simp: p(1) intro: suffix_imp_sublist sublist_append_rightI sublist_order.order_trans [of "skip_ws p" p])
qed

lemma suffix_skip_ws: "suffix (skip_ws s) s"
  unfolding skip_ws_def by (rule suffix_dropWhile)

lemma suffix_Cons_skip: "skip_ws s = c # u \<Longrightarrow> suffix u s"
  by (metis suffix_ConsD suffix_skip_ws)

lemma parse_chars_suffix: "parse_chars s = Some (x, t) \<Longrightarrow> suffix t s"
  using parse_chars_cut suffix_def by blast

lemma parse_value_suffix: "parse_value n s = Some (x, t) \<Longrightarrow> suffix t s"
  using parse_cut(1) suffix_def by blast

lemma raw_members_reads:
  assumes "parse_members n s = Some (ms, t)"
  shows "\<exists>rs extra. raw_members n s = rs @ extra \<and>
     list_all2 (\<lambda>raw kv. reads raw (snd kv) \<and> sublist raw s) rs ms"
  using assms
proof (induction n arbitrary: s ms)
  case (Suc n)
  from Suc.prems show ?case
  proof (rule parse_membersE)
    fix s1 k s2 s3 x u c w
    assume k: "skip_ws s = CHR 0x22 # s1" "parse_chars s1 = Some (k, s2)" "skip_ws s2 = CHR '':'' # s3"
      and v: "parse_value n s3 = Some (x, u)" and u: "skip_ws u = c # w"
      and alt: "c = CHR ''}'' \<and> ms = [(k, x)] \<and> t = w \<or>
        c = CHR '','' \<and> (\<exists>ys. parse_members n w = Some (ys, t) \<and> ms = (k, x) # ys)"
    have raws: "raw_members (Suc n) s = raw_value s3 u # raw_members n w" using k v u by simp
    have s3: "suffix s3 s"
      using suffix_Cons_skip [OF k(1)] parse_chars_suffix [OF k(2)] suffix_Cons_skip [OF k(3)]
      by (meson suffix_order.trans)
    then have sw: "suffix w s"
      using parse_value_suffix [OF v] suffix_Cons_skip [OF u] by (meson suffix_order.trans)
    have x: "reads (raw_value s3 u) x" "sublist (raw_value s3 u) s"
      using value_reads [OF v] s3 by (auto intro: sublist_order.order_trans suffix_imp_sublist)
    from alt show ?thesis
    proof
      assume "c = CHR ''}'' \<and> ms = [(k, x)] \<and> t = w"
      with x show ?thesis
        unfolding raws by (intro exI [of _ "[raw_value s3 u]"] exI [of _ "raw_members n w"]) simp
    next
      assume "c = CHR '','' \<and> (\<exists>ys. parse_members n w = Some (ys, t) \<and> ms = (k, x) # ys)"
      then obtain ys where ys: "parse_members n w = Some (ys, t)" "ms = (k, x) # ys" by blast
      obtain rs extra where rs: "raw_members n w = rs @ extra"
        and all: "list_all2 (\<lambda>raw kv. reads raw (snd kv) \<and> sublist raw w) rs ys"
        using Suc.IH [OF ys(1)] by blast
      have "list_all2 (\<lambda>raw kv. reads raw (snd kv) \<and> sublist raw s) rs ys"
        using all by (rule list_all2_mono) (use sw in \<open>auto intro: sublist_order.order_trans suffix_imp_sublist\<close>)
      with x ys(2) show ?thesis
        unfolding raws rs by (intro exI [of _ "raw_value s3 u # rs"] exI [of _ extra]) simp
    qed
  qed
qed simp

lemma object_raws_reads:
  assumes "json_parse s = Some (JObj ms)"
  shows "\<exists>rs extra. object_raws s = rs @ extra \<and>
     list_all2 (\<lambda>raw kv. reads raw (snd kv) \<and> sublist raw s) rs ms"
proof -
  obtain t where v: "parse_value (Suc (length s)) s = Some (JObj ms, t)"
    using assms by (auto simp: json_parse_def split: option.splits if_splits)
  then show ?thesis
  proof (cases rule: parse_valueE)
    case (obj m u d w ms')
    have "parse_members (Suc (length s)) u = Some (ms, t)"
      by (rule parse_fuel(3) [of m]) (use obj skip_ws_Cons_length [OF obj(2)] in auto)
    from raw_members_reads [OF this] obtain rs extra where r: "raw_members (Suc (length s)) u = rs @ extra"
      "list_all2 (\<lambda>raw kv. reads raw (snd kv) \<and> sublist raw u) rs ms" by blast
    have "list_all2 (\<lambda>raw kv. reads raw (snd kv) \<and> sublist raw s) rs ms"
      using r(2) by (rule list_all2_mono)
        (use suffix_Cons_skip [OF obj(2)] in \<open>auto intro: sublist_order.order_trans suffix_imp_sublist\<close>)
    moreover have "object_raws s = rs @ extra" using r(1) obj(2) by (simp add: object_raws_def)
    ultimately show ?thesis by blast
  next
    case (lit m c u)
    then show ?thesis using v by (auto simp: parse_value_literal [OF lit(3,4,5,2)] split: if_splits)
  qed auto
qed

subsection \<open>What a written text reads as\<close>

text \<open>Bytes that are not UTF-8 become U+FFFD.\<close>

function utf8_fix :: "string \<Rightarrow> string" where
  "utf8_fix [] = []"
| "utf8_fix (c # s) =
     (let k = rune_len (c # s) in
      if k = 0 then utf8_encode rune_error @ utf8_fix s
      else take k (c # s) @ utf8_fix (drop (k - 1) s))"
  by pat_completeness auto
termination by (relation "measure length") auto

declare utf8_fix.simps(2) [simp del]

lemma utf8_fix_ok: "utf8_ok s \<Longrightarrow> utf8_fix s = s"
proof (induction s rule: utf8_ok.induct)
  case (2 c s)
  define k where "k = rune_len (c # s)"
  from 2 have k0: "k \<noteq> 0" and IH: "utf8_fix (drop (k - 1) s) = drop (k - 1) s"
    by (auto simp: utf8_ok.simps(2) k_def)
  have "take k (c # s) @ drop (k - 1) s = c # s" using k0 by (cases k) auto
  with k0 IH show ?case by (simp add: utf8_fix.simps(2) Let_def k_def [symmetric])
qed simp

lemma encode_error: "utf8_encode rune_error = [CHR 0xEF, CHR 0xBF, CHR 0xBD]"
  by (simp add: utf8_encode_def rune_error_def char_of_def bit_0)

lemma utf8_ok_append_rune:
  assumes "rune_len r = length r" and "r \<noteq> []" and "utf8_ok s"
  shows "utf8_ok (r @ s)"
proof -
  obtain c r' where r: "r = c # r'" using assms(2) by (cases r) auto
  have "rune_len (take (length r) r @ s) = length r" using rune_len_take [of r "length r" s] assms by simp
  with assms r show ?thesis by (simp add: utf8_ok.simps(2))
qed

lemma utf8_ok_fix [simp]: "utf8_ok (utf8_fix s)"
proof (induction s rule: utf8_fix.induct)
  case (2 c s)
  define k where "k = rune_len (c # s)"
  show ?case
  proof (cases "k = 0")
    case True
    have "rune_len [CHR 0xEF, CHR 0xBF, CHR 0xBD] = 3" by (simp add: rune_len_def cont_byte_def)
    with 2(1) True show ?thesis
      using utf8_ok_append_rune [of "[CHR 0xEF, CHR 0xBF, CHR 0xBD]" "utf8_fix s"]
      by (simp add: utf8_fix.simps(2) k_def encode_error)
  next
    case False
    with rune_len_take [of "c # s" k "[]"] have "rune_len (take k (c # s)) = k" "k \<le> length (c # s)"
      by (simp_all add: k_def)
    with 2(2) False show ?thesis
      using utf8_ok_append_rune [of "take k (c # s)"] by (simp add: utf8_fix.simps(2) Let_def k_def)
  qed
qed simp

lemma utf8_fix_Nil [simp]: "utf8_fix s = [] \<longleftrightarrow> s = []"
  by (cases s) (auto simp: utf8_fix.simps(2) Let_def encode_error)

lemma utf8_fix_fix [simp]: "utf8_fix (utf8_fix s) = utf8_fix s"
  by (rule utf8_fix_ok) simp

lemma parse_chars_ufffd:
  "parse_chars (CHR 0x5C # ''ufffd'' @ t) = prepend (utf8_encode rune_error) (parse_chars t)"
  by (simp add: parse_chars.simps(2) simple_escape_def getu4_def fromHexChar_def rune_error_def)

lemma parse_chars_escape_fix: "parse_chars (json_escape s @ CHR 0x22 # rest) = Some (utf8_fix s, rest)"
proof (induction s rule: utf8_fix.induct)
  case 1
  then show ?case by (simp add: parse_chars.simps(2))
next
  case (2 c s)
  define k where "k = rune_len (c # s)"
  show ?case
  proof (cases "ord c < 128")
    case True
    with 2(2) show ?thesis by (simp add: rune_len_ascii parse_esc_ascii utf8_fix.simps(2))
  next
    case False
    show ?thesis
    proof (cases "k = 0")
      case True
      with 2(1) False show ?thesis
        by (simp add: k_def utf8_fix.simps(2) parse_chars_ufffd [simplified])
    next
      case k0: False
      with 2(2) have IH: "parse_chars (json_escape (drop (k - 1) s) @ CHR 0x22 # rest) = Some (utf8_fix (drop (k - 1) s), rest)"
        by (simp add: k_def)
      with False k0 parse_chars_rune [OF False k_def [symmetric] k0] show ?thesis
        by (auto simp: Let_def k_def [symmetric] parse_chars_u2028 [simplified] utf8_fix.simps(2))
    qed
  qed
qed

lemma reads_string: "reads (json_string s) (JStr (utf8_fix s))"
  by (simp add: reads_def json_string_def skip_ws_no is_ws_def parse_chars_escape_fix)

lemma reads_hd:
  assumes "reads s v"
  obtains c u where "s = c # u" and "\<not> is_ws c" and "c \<noteq> CHR '']''"
proof -
  from assms have p: "parse_value (Suc (length s)) s = Some (v, [])" and sk: "skip_ws s = s" by (auto simp: reads_def)
  from p obtain c u where c: "skip_ws s = c # u" by (rule value_hd)
  moreover have "c \<noteq> CHR '']''"
  proof
    assume b: "c = CHR '']''"
    note n = digit_or_minus [OF scan_number_hd]
    from p show False
    proof (cases rule: parse_valueE)
      case (lit m d w)
      with c b p show ?thesis
        by (auto simp: parse_value_literal [OF lit(3,4,5,2)] HasPrefix_def is_digit_def dest!: scan_number_hd)
    qed (use c b in auto)
  qed
  moreover have "\<not> is_ws c" using c by (rule skip_ws_hd)
  ultimately show ?thesis using that sk by auto
qed

lemma reads_elems:
  assumes "list_all2 reads ss vs" and "ss \<noteq> []"
  shows "\<exists>n. parse_elems n (Join ss '','' @ '']'') = Some (vs, [])"
  using assms
proof (induction ss vs rule: list_all2_induct)
  case (Cons s ss v vs)
  show ?case
  proof (cases ss)
    case Nil
    with Cons(2) have [simp]: "vs = []" by simp
    let ?n = "length s"
    have "parse_value ?n (s @ '']'') = Some (v, '']'')" by (rule reads_value [OF Cons(1)]) (auto simp: is_digit_def)
    with Nil show ?thesis by (intro exI [of _ "Suc ?n"]) (simp add: skip_ws_no is_ws_def)
  next
    case (Cons s' ss')
    let ?r = "Join ss '','' @ '']''"
    obtain n where n: "parse_elems n ?r = Some (vs, [])" using Cons.IH Cons by blast
    define m where "m = length s + length ?r"
    have "parse_value m (s @ '','' @ ?r) = Some (v, '','' @ ?r)"
      by (rule reads_value [OF Cons.hyps(1)]) (auto simp: is_digit_def m_def)
    moreover have "parse_elems m ?r = Some (vs, [])" by (rule parse_fuel(2) [OF n]) (simp add: m_def)
    ultimately show ?thesis using Cons by (intro exI [of _ "Suc m"]) (simp add: skip_ws_no is_ws_def)
  qed
qed simp

lemma reads_arr:
  assumes "list_all2 reads ss vs"
  shows "reads (''['' @ Join ss '','' @ '']'') (JArr vs)"
proof (cases ss)
  case Nil
  with assms show ?thesis by (simp add: reads_def skip_ws_no is_ws_def)
next
  case (Cons s ss')
  let ?r = "Join ss '','' @ '']''"
  obtain n where n: "parse_elems n ?r = Some (vs, [])" using reads_elems [OF assms] Cons by blast
  then have e: "parse_elems (Suc (length ?r)) ?r = Some (vs, [])" by (rule parse_fuel(2)) simp
  obtain v where "reads s v" using assms Cons by (auto simp: list_all2_Cons1)
  then obtain c u where c: "s = c # u" "\<not> is_ws c" "c \<noteq> CHR '']''" by (rule reads_hd)
  then obtain u' where u': "?r = c # u'" using Cons by (cases ss') auto
  have "skip_ws ?r = c # u'" using u' c by (simp add: skip_ws_no)
  then have "parse_value (Suc (Suc (length ?r))) (''['' @ ?r) = Some (JArr vs, [])"
    using e c by (simp add: skip_ws_no is_ws_def del: parse_elems.simps)
  then show ?thesis by (simp add: reads_def skip_ws_no is_ws_def del: parse_value.simps)
qed

abbreviation mtext :: "string \<times> string \<Rightarrow> string" where
  "mtext ks \<equiv> json_string (fst ks) @ '':'' @ snd ks"

abbreviation mreads :: "string \<times> string \<Rightarrow> string \<times> json \<Rightarrow> bool" where
  "mreads ks kv \<equiv> fst kv = utf8_fix (fst ks) \<and> reads (snd ks) (snd kv)"

lemma reads_members:
  assumes "list_all2 mreads ss vs" and "ss \<noteq> []"
  shows "\<exists>n. parse_members n (Join (map mtext ss) '','' @ ''}'') = Some (vs, [])"
  using assms
proof (induction ss vs rule: list_all2_induct)
  case (Cons s ss v vs)
  have key: "parse_chars (json_escape (fst s) @ CHR 0x22 # r) = Some (fst v, r)" for r
    using Cons(1) by (simp add: parse_chars_escape_fix)
  show ?case
  proof (cases ss)
    case Nil
    with Cons(2) have [simp]: "vs = []" by simp
    let ?n = "length (snd s)"
    have "parse_value ?n (snd s @ ''}'') = Some (snd v, ''}'')"
      by (rule reads_value [of "snd s" "snd v"]) (use Cons(1) in \<open>auto simp: is_digit_def\<close>)
    with Nil show ?thesis by (intro exI [of _ "Suc ?n"]) (simp add: skip_ws_no is_ws_def json_string_def key)
  next
    case (Cons s' ss')
    let ?r = "Join (map mtext ss) '','' @ ''}''"
    obtain n where n: "parse_members n ?r = Some (vs, [])" using Cons.IH Cons by blast
    define m where "m = length (snd s) + length ?r"
    have "parse_value m (snd s @ '','' @ ?r) = Some (snd v, '','' @ ?r)"
      by (rule reads_value [of "snd s" "snd v"]) (use Cons.hyps(1) in \<open>auto simp: is_digit_def m_def\<close>)
    moreover have "parse_members m ?r = Some (vs, [])" by (rule parse_fuel(3) [OF n]) (simp add: m_def)
    ultimately show ?thesis using Cons by (intro exI [of _ "Suc m"]) (simp add: skip_ws_no is_ws_def json_string_def key)
  qed
qed simp

lemma reads_obj:
  assumes "list_all2 mreads ss vs"
  shows "reads (''{'' @ Join (map mtext ss) '','' @ ''}'') (JObj vs)"
proof (cases ss)
  case Nil
  with assms show ?thesis by (simp add: reads_def skip_ws_no is_ws_def)
next
  case (Cons s ss')
  let ?r = "Join (map mtext ss) '','' @ ''}''"
  obtain n where n: "parse_members n ?r = Some (vs, [])" using reads_members [OF assms] Cons by blast
  then have e: "parse_members (Suc (length ?r)) ?r = Some (vs, [])" by (rule parse_fuel(3)) simp
  obtain u' where u': "?r = CHR 0x22 # u'" using Cons by (cases ss') (auto simp: json_string_def)
  have "skip_ws ?r = CHR 0x22 # u'" using u' by (simp add: skip_ws_no is_ws_def)
  then have "parse_value (Suc (Suc (length ?r))) (''{'' @ ?r) = Some (JObj vs, [])"
    using e by (simp add: skip_ws_no is_ws_def del: parse_members.simps)
  then show ?thesis by (simp add: reads_def skip_ws_no is_ws_def del: parse_value.simps)
qed

text \<open>Values that can be written: integers in decimal, and raw messages that are one value.\<close>

fun printable :: "json \<Rightarrow> bool" where
  "printable (JNum l) = (case big_SetString l of Some i \<Rightarrow> l = show_int i | None \<Rightarrow> False)"
| "printable (JArr xs) = list_all printable xs"
| "printable (JObj ms) = list_all (\<lambda>kv. printable (snd kv)) ms"
| "printable (JRaw r) = (\<exists>v. reads r v)"
| "printable j = True"

fun reread :: "json \<Rightarrow> json" where
  "reread (JStr s) = JStr (utf8_fix s)"
| "reread (JArr xs) = JArr (map reread xs)"
| "reread (JObj ms) = JObj (map (\<lambda>kv. (utf8_fix (fst kv), reread (snd kv))) ms)"
| "reread (JRaw r) = the (json_parse r)"
| "reread j = j"

theorem reads_text: "printable j \<Longrightarrow> reads (json_text j) (reread j)"
proof (induction j rule: json_text.induct)
  case (3 l)
  then obtain i where l: "l = show_int i" by (auto split: option.splits)
  obtain c cs where c: "show_int i = c # cs" "is_digit c \<or> c = CHR ''-''" by (rule show_int_hd)
  have "parse_value (Suc (length l)) (show_int i @ []) = Some (JNum (show_int i), [])"
    by (rule parse_int) (simp add: stops_def)
  then show ?case using c digit_or_minus [OF c(2)] by (simp add: reads_def l skip_ws_no del: parse_value.simps)
next
  case (4 s)
  show ?case by (simp add: reads_string)
next
  case (5 xs)
  have "list_all2 reads (map json_text xs) (map reread xs)"
    using 5 by (auto simp: list.rel_map list_all_iff list_all2_same)
  then show ?case using reads_arr by simp
next
  case (6 ms)
  have "list_all2 mreads (map (\<lambda>kv. (fst kv, json_text (snd kv))) ms) (map (\<lambda>kv. (utf8_fix (fst kv), reread (snd kv))) ms)"
    using 6 by (auto simp: list.rel_map list_all_iff list_all2_same)
  from reads_obj [OF this] show ?case by (simp add: o_def)
next
  case (7 r)
  then obtain v where "reads r v" by auto
  with reads_parse [OF this] show ?case by simp
qed (auto simp: reads_def skip_ws_no is_ws_def HasPrefix_def)

corollary json_parse_reread: "printable j \<Longrightarrow> json_parse (json_text j) = Some (reread j)"
  by (rule reads_parse [OF reads_text])

lemma json_wf_printable: "json_wf j \<Longrightarrow> printable j \<and> reread j = j"
proof (induction j rule: json_wf.induct)
  case (5 xs)
  then show ?case by (auto simp: list_all_iff intro: map_idI)
next
  case (6 ms)
  then show ?case by (auto simp: list_all_iff utf8_fix_ok intro!: map_idI)
qed (auto simp: utf8_fix_ok)

lemma reads_compact:
  assumes "json_parse r = Some v"
  shows "reads (json_compact False r) v"
proof -
  obtain t where t: "parse_value (Suc (length r)) r = Some (v, t)" "skip_ws t = []"
    using assms by (auto simp: json_parse_def split: option.splits if_splits)
  have c: "parse_value (Suc (length r)) (json_compact False r) = Some (v, [])"
    using parse_compact(1) [OF t(1)] t(2) compact_Nil [OF t(2)] by (simp add: stops_def del: parse_value.simps)
  obtain d w where d: "skip_ws r = d # w" "d = CHR 0x22 \<or> \<not> special d" using t(1) by (rule value_hd)
  have "\<exists>u. json_compact False r = d # u"
    using compact_skip_ws [of r] d skip_ws_hd [OF d(1)] by (auto simp: compact_plain)
  then have "skip_ws (json_compact False r) = json_compact False r"
    using skip_ws_hd [OF d(1)] by (auto simp: skip_ws_no)
  moreover have "parse_value (Suc (length (json_compact False r))) (json_compact False r) = Some (v, [])"
    by (rule parse_fuel(1) [OF c]) simp
  ultimately show ?thesis by (simp add: reads_def del: parse_value.simps)
qed

text \<open>Values the program writes are read back as they are.\<close>

lemma parse_value_text:
  assumes "json_wf j" and "stops rest" and "length (json_text j) \<le> n"
  shows "parse_value n (json_text j @ rest) = Some (j, rest)"
proof (rule reads_value)
  show "reads (json_text j) j" using reads_text [of j] json_wf_printable [OF assms(1)] by simp
  show "delim rest" using assms(2) by (cases rest) (auto simp: stops_def is_digit_def)
qed (rule assms(3))

theorem json_parse_text: "json_wf j \<Longrightarrow> json_parse (json_text j) = Some j"
  using json_parse_reread [of j] json_wf_printable [of j] by simp

abbreviation member_text :: "string \<times> json \<Rightarrow> string" where
  "member_text kv \<equiv> json_string (fst kv) @ '':'' @ json_text (snd kv)"

text \<open>The raw text of a member is the text that was written for it.\<close>

lemma raw_value_text:
  assumes "json_wf j"
  shows "raw_value (json_text j @ rest) rest = json_text j"
proof -
  obtain c cs where c: "json_text j = c # cs" "\<not> is_ws c"
    using reads_text [of j] json_wf_printable [OF assms] by (auto elim: reads_hd)
  then have "skip_ws (json_text j @ rest) = json_text j @ rest" by (simp add: skip_ws_no)
  then show ?thesis by (simp add: raw_value_def)
qed

lemma raw_members_text:
  assumes "list_all (\<lambda>kv. utf8_ok (fst kv) \<and> json_wf (snd kv)) ms"
    and "length (Join (map member_text ms) '','') < n"
  shows "raw_members n (Join (map member_text ms) '','' @ ''}'') = map (json_text \<circ> snd) ms"
  using assms
proof (induction ms arbitrary: n)
  case Nil
  then show ?case by (cases n) (auto simp: skip_ws_no is_ws_def)
next
  case (Cons kv ms)
  from Cons.prems(2) obtain m where n: "n = Suc m" by (cases n) auto
  have wf: "utf8_ok (fst kv)" "json_wf (snd kv)" using Cons.prems(1) by simp_all
  show ?case
  proof (cases ms)
    case Nil
    have "parse_value m (json_text (snd kv) @ ''}'') = Some (snd kv, ''}'')"
      using Cons.prems(2) n Nil wf by (intro parse_value_text) (auto simp: stops_def)
    moreover have "parse_chars [] = None" by simp
    ultimately show ?thesis using n Nil wf raw_value_text [OF wf(2), of "''}''"]
      by (cases m) (auto simp: skip_ws_no is_ws_def json_string_def parse_chars_escape_fix utf8_fix_ok Let_def skip_ws_def)
  next
    case (Cons y ys)
    let ?r = "Join (map member_text ms) '','' @ ''}''"
    have "parse_value m (json_text (snd kv) @ '','' @ ?r) = Some (snd kv, '','' @ ?r)"
      using Cons.prems(2) n Cons wf by (intro parse_value_text) (auto simp: stops_def)
    moreover have "raw_members m ?r = map (json_text \<circ> snd) ms"
      using Cons.prems n Cons by (intro Cons.IH) auto
    ultimately show ?thesis using n Cons wf raw_value_text [OF wf(2), of "'','' @ ?r"]
      by (simp add: skip_ws_no is_ws_def json_string_def parse_chars_escape_fix utf8_fix_ok Let_def)
  qed
qed

lemma object_raws_text:
  assumes "json_wf (JObj ms)"
  shows "object_raws (json_text (JObj ms)) = map (json_text \<circ> snd) ms"
  using raw_members_text [of ms "Suc (length (json_text (JObj ms)))"] assms
  by (simp add: object_raws_def skip_ws_no is_ws_def)

end
