(* ===== verification/Go_Encoding.thy ===== *)
theory Go_Encoding
  imports Go_Base
begin

section \<open>Packages crypto/sha256, encoding/asn1, crypto/elliptic and time\<close>

text \<open>
  The byte-level functions of the standard library that the signing backend and the chain
  adapters use, written out: the SHA-256 digest on 32-bit words, the DER encoding of the
  signature pair, the uncompressed point encoding, and the RFC 3339 text of a time.
\<close>

unbundle bit_operations_syntax

subsection \<open>Bytes\<close>

definition string_bytes :: "string \<Rightarrow> byte list" where
  "string_bytes s = map (\<lambda>c. of_nat (of_char c)) s"

text \<open>The low \<open>n\<close> bytes of a number, most significant first.\<close>

primrec be_bytes :: "nat \<Rightarrow> nat \<Rightarrow> byte list" where
  "be_bytes 0 x = []"
| "be_bytes (Suc n) x = be_bytes n (x div 256) @ [of_nat x]"

definition be_val :: "byte list \<Rightarrow> nat" where
  "be_val bs = foldl (\<lambda>n b. 256 * n + unat b) 0 bs"

lemma length_be_bytes [simp]: "length (be_bytes n x) = n"
  by (induction n arbitrary: x) auto

lemma be_val_snoc: "be_val (bs @ [b]) = 256 * be_val bs + unat b"
  by (simp add: be_val_def)

lemma be_val_be_bytes: "be_val (be_bytes n x) = x mod 256 ^ n"
proof (induction n arbitrary: x)
  case 0
  then show ?case by (simp add: be_val_def)
next
  case (Suc n)
  have "unat (of_nat x :: byte) = x mod 256" by (simp add: unat_of_nat)
  moreover have "x mod (256 * 256 ^ n) = 256 * (x div 256 mod 256 ^ n) + x mod 256"
    by (rule mod_mult2_eq)
  ultimately show ?case using Suc by (simp add: be_val_snoc)
qed

subsection \<open>SHA-256\<close>

text \<open>
  The constants are the first 32 bits of the fractional parts of roots of the first primes:
  cube roots of the first 64 for the rounds, square roots of the first eight for the initial
  state. \<open>floor_root k n\<close> is the greatest \<open>r\<close> below \<open>2 ^ 36\<close> with \<open>r ^ k\<close> at most \<open>n\<close>, bit by bit.
\<close>

definition floor_root :: "nat \<Rightarrow> nat \<Rightarrow> nat" where
  "floor_root k n = foldl (\<lambda>r b. if (r + 2 ^ b) ^ k \<le> n then r + 2 ^ b else r) 0 (rev [0..<36])"

definition small_primes :: "nat list" where
  "small_primes = filter (\<lambda>p. list_all (\<lambda>d. p mod d \<noteq> 0) [2..<p]) [2..<312]"

definition sha256_K :: "32 word list" where
  "sha256_K = map (\<lambda>p. of_nat (floor_root 3 (p * 2 ^ 96))) small_primes"

definition sha256_H :: "32 word list" where
  "sha256_H = map (\<lambda>p. of_nat (floor_root 2 (p * 2 ^ 64))) [2, 3, 5, 7, 11, 13, 17, 19]"

definition rotr32 :: "nat \<Rightarrow> 32 word \<Rightarrow> 32 word" where
  "rotr32 n x = drop_bit n x OR push_bit (32 - n) x"

definition sha256_pad :: "byte list \<Rightarrow> byte list" where
  "sha256_pad m = m @ [0x80] @ replicate ((119 - length m mod 64) mod 64) 0 @ be_bytes 8 (8 * length m)"

fun be_words :: "byte list \<Rightarrow> 32 word list" where
  "be_words (a # b # c # d # bs) = of_nat (be_val [a, b, c, d]) # be_words bs"
| "be_words _ = []"

text \<open>The message schedule, newest word first.\<close>

definition sha256_next :: "32 word list \<Rightarrow> 32 word list" where
  "sha256_next ws =
     (let x = ws ! 1; y = ws ! 14;
          s1 = rotr32 17 x XOR rotr32 19 x XOR drop_bit 10 x;
          s0 = rotr32 7 y XOR rotr32 18 y XOR drop_bit 3 y
      in (s1 + ws ! 6 + s0 + ws ! 15) # ws)"

definition sha256_schedule :: "32 word list \<Rightarrow> 32 word list" where
  "sha256_schedule block = rev ((sha256_next ^^ 48) (rev block))"

definition sha256_round :: "32 word list \<Rightarrow> 32 word \<times> 32 word \<Rightarrow> 32 word list" where
  "sha256_round st kw =
     (case st of [a, b, c, d, e, f, g, h] \<Rightarrow>
        (let t1 = h + (rotr32 6 e XOR rotr32 11 e XOR rotr32 25 e) + ((e AND f) XOR (NOT e AND g)) + fst kw + snd kw;
             t2 = (rotr32 2 a XOR rotr32 13 a XOR rotr32 22 a) + ((a AND b) XOR (a AND c) XOR (b AND c))
         in [t1 + t2, a, b, c, d + t1, e, f, g])
      | _ \<Rightarrow> st)"

definition sha256_block :: "32 word list \<Rightarrow> 32 word list \<Rightarrow> 32 word list" where
  "sha256_block st block = map2 (+) st (foldl sha256_round st (zip sha256_K (sha256_schedule block)))"

fun sha256_blocks :: "nat \<Rightarrow> 32 word list \<Rightarrow> 32 word list \<Rightarrow> 32 word list" where
  "sha256_blocks 0 st ws = st"
| "sha256_blocks (Suc n) st ws = sha256_blocks n (sha256_block st (take 16 ws)) (drop 16 ws)"

text \<open>\<^verbatim>\<open>sha256.Sum256\<close>\<close>

definition sha256_Sum256 :: "string \<Rightarrow> byte list" where
  "sha256_Sum256 s =
     (let ws = be_words (sha256_pad (string_bytes s))
      in concat (map (\<lambda>x. be_bytes 4 (unat x)) (sha256_blocks (length ws div 16) sha256_H ws)))"

lemma length_sha256_round: "length (sha256_round st kw) = length st"
  by (auto simp: sha256_round_def Let_def split: list.splits)

lemma length_sha256_block: "length (sha256_block st block) = length st"
proof -
  have "length (foldl sha256_round st kws) = length st" for kws
    by (induction kws arbitrary: st) (auto simp: length_sha256_round)
  then show ?thesis by (simp add: sha256_block_def)
qed

lemma length_sha256_Sum256 [simp]: "length (sha256_Sum256 s) = 32"
proof -
  have "length (sha256_blocks n st ws) = length st" for n st ws
    by (induction n st ws rule: sha256_blocks.induct) (auto simp: length_sha256_block)
  then show ?thesis
    by (simp add: sha256_Sum256_def Let_def length_concat comp_def sum_list_triv sha256_H_def)
qed

text \<open>The padded message is a whole number of blocks of sixteen words, so nothing is dropped.\<close>

lemma length_sha256_pad: "length (sha256_pad m) mod 64 = 0"
proof -
  obtain q r where m: "length m = 64 * q + r" and r: "r < 64"
    using mult_div_mod_eq [of 64 "length m"] mod_less_divisor [of 64 "length m"] by (metis zero_less_numeral)
  have "r + 9 + (119 - r) mod 64 = (if r \<le> 55 then 64 else 128)"
    using r by (auto simp: mod_if)
  then have "length (sha256_pad m) = 64 * q + (if r \<le> 55 then 64 else 128)"
    using m r by (simp add: sha256_pad_def)
  then show ?thesis by auto
qed

subsection \<open>DER\<close>

text \<open>\<^verbatim>\<open>(*big.Int).Bytes\<close>: big-endian without leading zeros.\<close>

fun big_Bytes :: "nat \<Rightarrow> byte list" where
  "big_Bytes n = (if n = 0 then [] else big_Bytes (n div 256) @ [of_nat n])"

declare big_Bytes.simps [simp del]

text \<open>The content of an INTEGER: two's complement of the least length.\<close>

definition der_int :: "int \<Rightarrow> byte list" where
  "der_int n =
     (if n < 0 then
        (let bs = map NOT (big_Bytes (nat (- n - 1)))
         in if bs = [] \<or> unat (hd bs) < 128 then 0xff # bs else bs)
      else if n = 0 then [0]
      else (let bs = big_Bytes (nat n) in if 128 \<le> unat (hd bs) then 0 # bs else bs))"

definition der_length :: "nat \<Rightarrow> byte list" where
  "der_length n =
     (if n < 128 then [of_nat n] else of_nat (128 + length (big_Bytes n)) # big_Bytes n)"

definition der_tlv :: "byte \<Rightarrow> byte list \<Rightarrow> byte list" where
  "der_tlv tag content = tag # der_length (length content) @ content"

text \<open>\<^verbatim>\<open>asn1.Marshal(ecdsaSignature{R: r, S: s})\<close>; it cannot fail on two integers.\<close>

definition asn1_Marshal_signature :: "int \<Rightarrow> int \<Rightarrow> byte list" where
  "asn1_Marshal_signature r s = der_tlv 0x30 (der_tlv 0x02 (der_int r) @ der_tlv 0x02 (der_int s))"

subsection \<open>Points\<close>

text \<open>\<^verbatim>\<open>elliptic.Marshal\<close> for a curve of 256 bits: the uncompressed form.\<close>

definition elliptic_Marshal :: "nat \<Rightarrow> nat \<Rightarrow> byte list" where
  "elliptic_Marshal x y = 4 # be_bytes 32 x @ be_bytes 32 y"

lemma elliptic_Marshal_inj:
  assumes "elliptic_Marshal x y = elliptic_Marshal x' y'"
    and "x < 2 ^ 256" "y < 2 ^ 256" "x' < 2 ^ 256" "y' < 2 ^ 256"
  shows "x = x' \<and> y = y'"
proof -
  from assms(1) have "be_bytes 32 x = be_bytes 32 x'" "be_bytes 32 y = be_bytes 32 y'"
    by (simp_all add: elliptic_Marshal_def)
  then have "x mod 256 ^ 32 = x' mod 256 ^ 32" "y mod 256 ^ 32 = y' mod 256 ^ 32"
    by (metis be_val_be_bytes)+
  with assms(2-5) show ?thesis by simp
qed

subsection \<open>Times\<close>

text \<open>Year, month and day of a day number (day 0 is January 1, 1970), Gregorian.\<close>

definition civil :: "int \<Rightarrow> int \<times> int \<times> int" where
  "civil days =
     (let z = days + 719468; era = z div 146097; doe = z mod 146097;
          yoe = (doe - doe div 1460 + doe div 36524 - doe div 146096) div 365;
          doy = doe - (365 * yoe + yoe div 4 - yoe div 100);
          mp = (5 * doy + 2) div 153;
          d = doy - (153 * mp + 2) div 5 + 1;
          m = (if mp < 10 then mp + 3 else mp - 9);
          y = yoe + era * 400 + (if m \<le> 2 then 1 else 0)
      in (y, m, d))"

text \<open>Decimal, padded with zeros to a width.\<close>

definition pad_int :: "nat \<Rightarrow> int \<Rightarrow> string" where
  "pad_int w i =
     (let ds = show_nat (nat \<bar>i\<bar>) in (if i < 0 then ''-'' else []) @ replicate (w - length ds) (CHR ''0'') @ ds)"

definition frac_text :: "int \<Rightarrow> string" where
  "frac_text ns = (if ns = 0 then [] else CHR ''.'' # rev (dropWhile ((=) (CHR ''0'')) (rev (pad_int 9 ns))))"

text \<open>\<^verbatim>\<open>t.UTC().Format(time.RFC3339Nano)\<close>\<close>

definition Format_RFC3339Nano :: "time \<Rightarrow> string" where
  "Format_RFC3339Nano t =
     (let secs = t div 1000000000; ns = t mod 1000000000; sod = secs mod 86400;
          (y, m, d) = civil (secs div 86400)
      in pad_int 4 y @ ''-'' @ pad_int 2 m @ ''-'' @ pad_int 2 d @ ''T'' @
         pad_int 2 (sod div 3600) @ '':'' @ pad_int 2 (sod div 60 mod 60) @ '':'' @ pad_int 2 (sod mod 60) @
         frac_text ns @ ''Z'')"

lemma civil_examples:
  "civil 0 = (1970, 1, 1)" "civil (- 719162) = (1, 1, 1)" "civil 11016 = (2000, 2, 29)"
  by code_simp+

lemma Format_examples:
  "Format_RFC3339Nano 0 = ''1970-01-01T00:00:00Z''"
  "Format_RFC3339Nano zero_time = ''0001-01-01T00:00:00Z''"
  "Format_RFC3339Nano (951827696 * 10 ^ 9 + 120000000) = ''2000-02-29T12:34:56.12Z''"
  by (simp_all add: Format_RFC3339Nano_def civil_examples pad_int_def frac_text_def zero_time_def
      show_nat_eval digit_char_eval replicate_eval)

text \<open>The text is plain ASCII without quotes or control characters.\<close>

lemma set_show_nat: "set (show_nat n) \<subseteq> {c. is_digit c}"
  using show_nat_digits [of n] by (auto simp: list_all_iff)

lemma set_pad_int: "set (pad_int w i) \<subseteq> {c. is_digit c} \<union> {CHR ''-''}"
  using set_show_nat [of "nat \<bar>i\<bar>"] by (auto simp: pad_int_def Let_def is_digit_def)

lemma set_Format:
  "set (Format_RFC3339Nano t) \<subseteq> {c. is_digit c} \<union> set ''-T:.Z''"
proof -
  have "set (rev (dropWhile P (rev xs))) \<subseteq> set xs" for P and xs :: string
    using set_dropWhileD [of _ P "rev xs"] by auto
  then have "set (frac_text n) \<subseteq> set (pad_int 9 n) \<union> {CHR ''.''}" for n
    unfolding frac_text_def by auto
  with set_pad_int show ?thesis
    unfolding Format_RFC3339Nano_def Let_def by (auto split: prod.splits) blast+
qed

end
