(* ===== verification/Custody_Json.thy ===== *)
theory Custody_Json
  imports Custody_Types Go_Json_Reread Go_Encoding
begin

section \<open>The JSON form of the wallet types\<close>

text \<open>
  What \<^verbatim>\<open>json.Marshal\<close> writes for the structs of \<^verbatim>\<open>internal/wallet/types.go\<close> and what
  \<^verbatim>\<open>json.Unmarshal\<close> reads, from their field tags: names, \<^verbatim>\<open>omitempty\<close>, map keys in sorted
  order. Marshalling is partial: a raw message that is not JSON, or a time whose year has
  not four digits, makes it fail. The unsigned EVM payload is written by one component and read by
  another; reading what was written gives it back.
\<close>

subsection \<open>Writing\<close>

definition json_uint :: "'w::len word \<Rightarrow> json" where
  "json_uint n = JNum (show_nat (unat n))"

definition json_int :: "int \<Rightarrow> json" where
  "json_int i = JNum (show_int i)"

definition json_time :: "time \<Rightarrow> json option" where
  "json_time t =
     (let (y, m, d) = civil (t div 1000000000 div 86400)
      in if 0 \<le> y \<and> y \<le> 9999 then Some (JStr (Format_RFC3339Nano t)) else None)"

text \<open>A member, a member left out when empty, a member whose value may fail.\<close>

definition fld :: "string \<Rightarrow> json \<Rightarrow> (string \<times> json) list option" where
  "fld k j = Some [(k, j)]"

definition omit :: "bool \<Rightarrow> string \<Rightarrow> json option \<Rightarrow> (string \<times> json) list option" where
  "omit isEmpty k j = (if isEmpty then Some [] else map_option (\<lambda>j. [(k, j)]) j)"

definition json_object :: "(string \<times> json) list option list \<Rightarrow> json option" where
  "json_object ms = (if None \<in> set ms then None else Some (JObj (concat (map the ms))))"

definition utxo_json :: "UTXO \<Rightarrow> json" where
  "utxo_json u =
     JObj [(''tx_id'', JStr (uTxID u)), (''vout'', json_uint (uVout u)),
           (''amount_sats'', json_int (sint (uAmountSats u))), (''script_pub_key'', JStr (uScriptPubKey u))]"

definition wallet_json :: "Wallet \<Rightarrow> json option" where
  "wallet_json w =
     json_object
       [fld ''id'' (JStr (wID w)), fld ''chain'' (JStr (wChain w)), fld ''address'' (JStr (wAddress w)),
        fld ''public_key'' (JStr (wPublicKey w)), omit False ''created_at'' (json_time (wCreatedAt w))]"

definition request_json :: "TransactionRequest \<Rightarrow> json option" where
  "request_json r =
     json_object
       [fld ''wallet_id'' (JStr (rWalletID r)), fld ''to'' (JStr (rTo r)), fld ''amount'' (JStr (rAmount r)),
        omit (rFeeRateSats r = 0) ''fee_rate_sats'' (Some (json_int (sint (rFeeRateSats r)))),
        omit (rGasLimit r = 0) ''gas_limit'' (Some (json_uint (rGasLimit r))),
        omit (rMaxFeePerGas r = []) ''max_fee_per_gas'' (Some (JStr (rMaxFeePerGas r))),
        omit (rData r = []) ''data'' (Some (JStr (rData r))),
        omit (rUTXOs r = []) ''utxos'' (Some (JArr (map utxo_json (rUTXOs r)))),
        omit (rMetadata r = []) ''metadata'' (raw_json (rMetadata r))]"

definition approval_json :: "Approval \<Rightarrow> json option" where
  "approval_json a =
     json_object [fld ''signer_id'' (JStr (SignerID a)), omit False ''created_at'' (json_time (aCreatedAt a))]"

definition raw_transaction_json :: "RawTransaction \<Rightarrow> json option" where
  "raw_transaction_json r =
     json_object [fld ''chain'' (JStr (rawChain r)), omit False ''payload'' (raw_json (Payload r))]"

definition evm_payload_json :: "EVMTransactionPayload \<Rightarrow> json" where
  "evm_payload_json e =
     JObj [(''chain'', JStr (eChain e)), (''chain_id'', json_uint (eChainID e)), (''from'', JStr (eFrom e)),
           (''to'', JStr (eTo e)), (''value_wei'', JStr (eValueWei e)), (''nonce'', json_uint (eNonce e)),
           (''gas_limit'', json_uint (eGasLimit e)), (''max_fee_per_gas'', JStr (eMaxFeePerGas e)),
           (''max_priority_fee_per_gas'', JStr (eMaxPriorityFeePerGas e)), (''data'', JStr (eData e)),
           (''type'', JStr (eType e)), (''created_at'', JStr (eCreatedAt e))]"

definition audit_event_json :: "AuditEvent \<Rightarrow> json option" where
  "audit_event_json e =
     json_object
       [fld ''id'' (JStr (vID e)), fld ''type'' (JStr (vType e)),
        omit (vActor e = []) ''actor'' (Some (JStr (vActor e))),
        fld ''resource_type'' (JStr (vResourceType e)), fld ''resource_id'' (JStr (vResourceID e)),
        omit (vChain e = []) ''chain'' (Some (JStr (vChain e))),
        omit (vMetadata e = []) ''metadata'' (raw_json (vMetadata e)),
        omit False ''created_at'' (json_time (vCreatedAt e))]"

text \<open>A map as an object with sorted keys; a nil map is \<^verbatim>\<open>null\<close>.\<close>

definition map_json :: "('v \<Rightarrow> json option) \<Rightarrow> (string, 'v) gomap option \<Rightarrow> json option" where
  "map_json f m =
     (case m of None \<Rightarrow> Some JNull
      | Some m \<Rightarrow> json_object (map (\<lambda>k. omit False k (f (the (map_of m k)))) (sort (gkeys m))))"

definition proposal_json :: "TransactionProposal \<Rightarrow> json option" where
  "proposal_json p =
     json_object
       [fld ''id'' (JStr (pID p)), fld ''wallet_id'' (JStr (pWalletID p)), fld ''chain'' (JStr (pChain p)),
        fld ''status'' (JStr (pStatus p)), omit False ''request'' (request_json (pRequest p)),
        omit False ''raw_transaction'' (raw_transaction_json (pRawTransaction p)),
        omit False ''approvals'' (map_json approval_json (pApprovals p)),
        omit (pSignedTransaction p = []) ''signed_transaction'' (Some (JStr (pSignedTransaction p))),
        omit (pBroadcastHash p = []) ''broadcast_hash'' (Some (JStr (pBroadcastHash p))),
        omit (pError p = []) ''error'' (Some (JStr (pError p))),
        omit (pTrace p = None \<or> pTrace p = Some []) ''trace'' (map_json (\<lambda>s. Some (JStr s)) (pTrace p)),
        omit False ''created_at'' (json_time (pCreatedAt p)),
        omit False ''updated_at'' (json_time (pUpdatedAt p))]"

subsection \<open>Reading\<close>

definition zero_utxo :: UTXO where
  "zero_utxo = \<lparr>uTxID = [], uVout = 0, uAmountSats = 0, uScriptPubKey = []\<rparr>"

definition zero_request :: TransactionRequest where
  "zero_request =
     \<lparr>rWalletID = [], rTo = [], rAmount = [], rFeeRateSats = 0, rGasLimit = 0, rMaxFeePerGas = [],
      rData = [], rUTXOs = [], rMetadata = []\<rparr>"

definition zero_evm_payload :: EVMTransactionPayload where
  "zero_evm_payload =
     \<lparr>eChain = [], eChainID = 0, eFrom = [], eTo = [], eValueWei = [], eNonce = 0, eGasLimit = 0,
      eMaxFeePerGas = [], eMaxPriorityFeePerGas = [], eData = [], eType = [], eCreatedAt = []\<rparr>"

definition ParseUint32 :: "string \<Rightarrow> 32 word option" where
  "ParseUint32 s =
     (if s = [] \<or> \<not> list_all is_digit s \<or> 2 ^ 32 \<le> dec_val s then None
      else Some (of_nat (dec_val s)))"

definition evm_payload_fields :: "EVMTransactionPayload field list" where
  "evm_payload_fields =
     [str_field ''chain'' (\<lambda>s x. x\<lparr>eChain := s\<rparr>), num_field ParseUint64 ''chain_id'' (\<lambda>n x. x\<lparr>eChainID := n\<rparr>),
      str_field ''from'' (\<lambda>s x. x\<lparr>eFrom := s\<rparr>), str_field ''to'' (\<lambda>s x. x\<lparr>eTo := s\<rparr>),
      str_field ''value_wei'' (\<lambda>s x. x\<lparr>eValueWei := s\<rparr>), num_field ParseUint64 ''nonce'' (\<lambda>n x. x\<lparr>eNonce := n\<rparr>),
      num_field ParseUint64 ''gas_limit'' (\<lambda>n x. x\<lparr>eGasLimit := n\<rparr>),
      str_field ''max_fee_per_gas'' (\<lambda>s x. x\<lparr>eMaxFeePerGas := s\<rparr>),
      str_field ''max_priority_fee_per_gas'' (\<lambda>s x. x\<lparr>eMaxPriorityFeePerGas := s\<rparr>),
      str_field ''data'' (\<lambda>s x. x\<lparr>eData := s\<rparr>), str_field ''type'' (\<lambda>s x. x\<lparr>eType := s\<rparr>),
      str_field ''created_at'' (\<lambda>s x. x\<lparr>eCreatedAt := s\<rparr>)]"

definition utxo_fields :: "UTXO field list" where
  "utxo_fields =
     [str_field ''tx_id'' (\<lambda>s x. x\<lparr>uTxID := s\<rparr>), num_field ParseUint32 ''vout'' (\<lambda>n x. x\<lparr>uVout := n\<rparr>),
      num_field ParseInt64 ''amount_sats'' (\<lambda>n x. x\<lparr>uAmountSats := word_of_int n\<rparr>),
      str_field ''script_pub_key'' (\<lambda>s x. x\<lparr>uScriptPubKey := s\<rparr>)]"

definition obj_raws :: "json \<Rightarrow> string list" where
  "obj_raws j = (case j of JObj ms \<Rightarrow> map (\<lambda>_. []) ms | _ \<Rightarrow> [])"

text \<open>
  A slice of structs: element \<open>i\<close> is decoded over the element the slice already has there
  (from an earlier member of the same name), otherwise over the zero value.
\<close>

fun decode_utxos :: "bool \<Rightarrow> json list \<Rightarrow> UTXO list \<Rightarrow> json_error + UTXO list" where
  "decode_utxos strict [] old = Inr []"
| "decode_utxos strict (j # js) old =
     (case decode_struct strict utxo_fields j (obj_raws j) (case old of [] \<Rightarrow> zero_utxo | u # _ \<Rightarrow> u) of
        Inl e \<Rightarrow> Inl e
      | Inr u \<Rightarrow> (case decode_utxos strict js (drop 1 old) of Inl e \<Rightarrow> Inl e | Inr us \<Rightarrow> Inr (u # us)))"

definition utxos_field :: "bool \<Rightarrow> TransactionRequest field" where
  "utxos_field strict =
     (''utxos'', \<lambda>j _ x. case j of JNull \<Rightarrow> Inr (x\<lparr>rUTXOs := []\<rparr>)
        | JArr js \<Rightarrow> map_sum id (\<lambda>us. x\<lparr>rUTXOs := us\<rparr>) (decode_utxos strict js (rUTXOs x))
        | _ \<Rightarrow> Inl (JType ''utxos''))"

definition request_fields :: "bool \<Rightarrow> TransactionRequest field list" where
  "request_fields strict =
     [str_field ''wallet_id'' (\<lambda>s x. x\<lparr>rWalletID := s\<rparr>), str_field ''to'' (\<lambda>s x. x\<lparr>rTo := s\<rparr>),
      str_field ''amount'' (\<lambda>s x. x\<lparr>rAmount := s\<rparr>),
      num_field ParseInt64 ''fee_rate_sats'' (\<lambda>n x. x\<lparr>rFeeRateSats := word_of_int n\<rparr>),
      num_field ParseUint64 ''gas_limit'' (\<lambda>n x. x\<lparr>rGasLimit := n\<rparr>),
      str_field ''max_fee_per_gas'' (\<lambda>s x. x\<lparr>rMaxFeePerGas := s\<rparr>),
      str_field ''data'' (\<lambda>s x. x\<lparr>rData := s\<rparr>), utxos_field strict,
      (''metadata'', \<lambda>j raw x. Inr (x\<lparr>rMetadata := raw\<rparr>))]"

text \<open>\<^verbatim>\<open>json.Unmarshal(payload, &v)\<close> for the EVM payload.\<close>

definition unmarshal_evm_payload :: "string \<Rightarrow> json_error + EVMTransactionPayload" where
  "unmarshal_evm_payload s =
     (case json_parse s of None \<Rightarrow> Inl (JSyntax s)
      | Some j \<Rightarrow> decode_struct False evm_payload_fields j (obj_raws j) zero_evm_payload)"

subsection \<open>Round trip of the EVM payload\<close>

lemma ParseUint64_show: "ParseUint64 (show_nat (unat (n :: uint64))) = Some n"
  using show_nat_digits [of "unat n"] unsigned_less [of n, where ?'a = nat]
  by (simp add: ParseUint64_def)

lemma json_wf_uint [simp]: "json_wf (json_uint n)"
  using json_wf_show_int [of "int (unat n)"] by (simp add: json_uint_def show_int_def)

definition utf8_payload :: "EVMTransactionPayload \<Rightarrow> bool" where
  "utf8_payload e \<longleftrightarrow>
     list_all utf8_ok [eChain e, eFrom e, eTo e, eValueWei e, eMaxFeePerGas e, eMaxPriorityFeePerGas e,
       eData e, eType e, eCreatedAt e]"

lemma utf8_ok_ascii: "list_all (\<lambda>c. ord c < 128) s \<Longrightarrow> utf8_ok s"
  by (induction s) (auto simp: rune_len_ascii utf8_ok.simps)

lemma decode_str_field:
  "find_field fs k = Some (str_field n put) \<Longrightarrow>
     decode_member b fs (None, x) (k, JStr s, r) = (None, put s x)"
  by (simp add: decode_member_def str_field_def)

lemma decode_uint_field:
  "find_field fs k = Some (num_field ParseUint64 n put) \<Longrightarrow>
     decode_member b fs (None, x) (k, json_uint v, r) = (None, put v x)"
  by (simp add: decode_member_def num_field_def json_uint_def ParseUint64_show)

theorem evm_payload_roundtrip:
  assumes "utf8_payload e"
  shows "unmarshal_evm_payload (json_text (evm_payload_json e)) = Inr e"
proof -
  have keys: "list_all utf8_ok [''chain'', ''chain_id'', ''from'', ''to'', ''value_wei'', ''nonce'', ''gas_limit'',
      ''max_fee_per_gas'', ''max_priority_fee_per_gas'', ''data'', ''type'', ''created_at'']"
    by (simp add: utf8_ok_ascii)
  with assms have "json_wf (evm_payload_json e)"
    by (simp add: evm_payload_json_def utf8_payload_def)
  then have parse: "json_parse (json_text (evm_payload_json e)) = Some (evm_payload_json e)"
    by (rule json_parse_text)
  show ?thesis
    unfolding unmarshal_evm_payload_def parse
    by (simp add: decode_struct_def decode_members_def evm_payload_json_def obj_raws_def zero_evm_payload_def
        decode_str_field decode_uint_field find_field_def evm_payload_fields_def str_field_def num_field_def
        decode_member_def json_uint_def ParseUint64_show)
qed

end
