(* ===== verification/External_Libs.thy ===== *)
theory External_Libs
  imports Custody_Json
begin

section \<open>Code outside the repository\<close>

text \<open>
  What the sources call of go-ethereum and of the randomised part of \<^verbatim>\<open>crypto/ecdsa\<close>: a
  record of functions that every definition which uses them takes as an argument. Nothing
  is assumed of them except where a theorem names a hypothesis. \<open>'tx\<close> is the type of
  signed EVM transactions. A random source is what one read of \<^verbatim>\<open>crypto/rand\<close> yields.
\<close>

type_synonym entropy = "error + (nat \<Rightarrow> byte)"

text \<open>\<^verbatim>\<open>*ecdsa.PrivateKey\<close>: the scalar and the coordinates of the public point.\<close>

record PrivateKey =
  keyD :: nat
  keyX :: nat
  keyY :: nat

text \<open>\<^verbatim>\<open>types.DynamicFeeTx\<close>, the fields the program fills.\<close>

record DynamicFeeTx =
  txChainID :: int
  txNonce :: uint64
  txGasTipCap :: int
  txGasFeeCap :: int
  txGas :: uint64
  txTo :: "byte list"
  txValue :: int
  txData :: "byte list"

record 'tx External =
  HexToECDSA :: "string \<Rightarrow> error + PrivateKey"
  eth_GenerateKey :: "entropy \<Rightarrow> error + PrivateKey"
  FromECDSAPub :: "nat \<Rightarrow> nat \<Rightarrow> byte list"
  PubkeyToAddress_Hex :: "nat \<Rightarrow> nat \<Rightarrow> string"
  HexToAddress :: "string \<Rightarrow> byte list"
  SignTx :: "DynamicFeeTx \<Rightarrow> int \<Rightarrow> PrivateKey \<Rightarrow> error + 'tx"
  MarshalBinary :: "'tx \<Rightarrow> error + byte list"
  UnmarshalBinary :: "byte list \<Rightarrow> error + 'tx"
  Hash_Hex :: "'tx \<Rightarrow> string"
  ecdsa_GenerateKey :: "entropy \<Rightarrow> error + PrivateKey"
  ecdsa_Sign :: "entropy \<Rightarrow> PrivateKey \<Rightarrow> byte list \<Rightarrow> error + int \<times> int"
  json_error_text :: "json_error \<Rightarrow> string"

definition json_failed :: "'tx External \<Rightarrow> json_error \<Rightarrow> error" where
  "json_failed L e = Fresh (json_error_text L e)"

text \<open>
  The named hypothesis on go-ethereum: decoding the binary form of a transaction gives the
  transaction back.
\<close>

definition tx_codec :: "'tx External \<Rightarrow> bool" where
  "tx_codec L \<longleftrightarrow> (\<forall>tx bs. MarshalBinary L tx = Inr bs \<longrightarrow> UnmarshalBinary L bs = Inr tx)"

end
