(* ===== verification/API_Server.thy ===== *)
theory API_Server
  imports Wallet_Service External_Libs
begin

section \<open>The HTTP API\<close>

text \<open>
  \<^verbatim>\<open>internal/api/server.go\<close> with the middleware of \<^verbatim>\<open>internal/observability/tracing.go\<close>. A
  request is what \<^verbatim>\<open>net/http\<close> hands to the handler: method, decoded path, query and
  header values, body. A handler is a program over the service's world that ends in a
  response.
\<close>

record http_request =
  rqMethod :: string
  rqPath :: string
  rqQuery :: "(string \<times> string) list"
  rqHeader :: "(string \<times> string) list"
  rqBody :: string

record http_response =
  rsStatus :: nat
  rsContentType :: string
  rsBody :: string

text \<open>
  \<^verbatim>\<open>Header.Get\<close> and \<^verbatim>\<open>Query().Get\<close>: the first value, or the empty string. Header names
  are kept in canonical form: a letter is upper case at the start and after a hyphen.
\<close>

definition get_first :: "(string \<times> string) list \<Rightarrow> string \<Rightarrow> string" where
  "get_first kvs k = (case map_of kvs k of None \<Rightarrow> [] | Some v \<Rightarrow> v)"

definition lower :: "char \<Rightarrow> char" where
  "lower c = (if 65 \<le> ord c \<and> ord c \<le> 90 then char_of (ord c + 32) else c)"

fun CanonicalHeaderKey :: "bool \<Rightarrow> string \<Rightarrow> string" where
  "CanonicalHeaderKey up [] = []"
| "CanonicalHeaderKey up (c # s) =
     (if up then upper c else lower c) # CanonicalHeaderKey (c = CHR ''-'') s"

definition header_Get :: "http_request \<Rightarrow> string \<Rightarrow> string" where
  "header_Get r name = get_first (rqHeader r) (CanonicalHeaderKey True name)"

record ('st, 'sg, 'ad) Server =
  srvService :: "('st, 'sg, 'ad) Service"
  apiKeys :: "string list"

type_synonym ('st, 'sg, 'ad) server_option = "('st, 'sg, 'ad) Server \<Rightarrow> ('st, 'sg, 'ad) Server"

definition WithAPIKeys :: "string list \<Rightarrow> ('st, 'sg, 'ad) server_option" where
  "WithAPIKeys keys server = server\<lparr>apiKeys := keys\<rparr>"

definition NewServer ::
  "('st, 'sg, 'ad) Service \<Rightarrow> ('st, 'sg, 'ad) server_option list \<Rightarrow>
   ('st, 'sg, 'ad) Server" where
  "NewServer service options = foldl (\<lambda>s opt. opt s) \<lparr>srvService = service, apiKeys = []\<rparr> options"

subsection \<open>Responses\<close>

text \<open>The status line is sent before the body; a value that cannot be marshalled leaves it empty.\<close>

definition writeJSON :: "nat \<Rightarrow> json option \<Rightarrow> http_response" where
  "writeJSON status value =
     \<lparr>rsStatus = status, rsContentType = ''application/json'',
      rsBody = (case value of None \<Rightarrow> [] | Some j \<Rightarrow> json_text j @ [CHR 0x0A])\<rparr>"

definition errorResponse :: "string \<Rightarrow> json" where
  "errorResponse msg = JObj [(''error'', JStr msg)]"

declare errorResponse_def [simp]

definition writeError :: "nat \<Rightarrow> error \<Rightarrow> http_response" where
  "writeError status err = writeJSON status (Some (errorResponse (Error err)))"

definition statusFor :: "error \<Rightarrow> nat" where
  "statusFor err =
     (if errors_Is err ErrWalletNotFound \<or> errors_Is err ErrTransactionNotFound then 404
      else if errors_Is err ErrUnauthorizedSigner then 403
      else if errors_Is err ErrDuplicateIdempotency then 409
      else if errors_Is err ErrUnsupportedChain \<or> errors_Is err ErrDuplicateApproval \<or>
              errors_Is err ErrTransactionNotSigned \<or> errors_Is err ErrTransactionNotProposed \<or>
              errors_Is err ErrPolicyViolation then 400
      else 500)"

subsection \<open>Reading requests\<close>

text \<open>
  \<^verbatim>\<open>decodeJSON\<close>: the first value of the body into the target, unknown fields refused; the
  second \<^verbatim>\<open>Decode\<close> has to find the end of the body.
\<close>

definition decodeJSON :: "'tx External \<Rightarrow> 'a field list \<Rightarrow> 'a \<Rightarrow> http_request \<Rightarrow> http_response + 'a" where
  "decodeJSON L fs target r =
     (case parse_value (Suc (length (rqBody r))) (rqBody r) of
        None \<Rightarrow> Inl (writeError 400 (json_failed L (JSyntax (rqBody r))))
      | Some (j, rest) \<Rightarrow>
          (case decode_struct True fs j (object_raws (rqBody r)) target of
             Inl e \<Rightarrow> Inl (writeError 400 (json_failed L e))
           | Inr x \<Rightarrow>
               if skip_ws rest = [] then Inr x
               else Inl (writeError 400 (Fresh ''request body must contain a single json object''))))"

definition idempotencyKeyOf :: "http_request \<Rightarrow> string" where
  "idempotencyKeyOf r = header_Get r ''Idempotency-Key''"

definition parseTransactionPath :: "string \<Rightarrow> (string \<times> string) option" where
  "parseTransactionPath path =
     (let trimmed = TrimPrefix path ''/v1/transactions/'' in
      if trimmed = path \<or> trimmed = [] then None
      else (case Split (Trim trimmed (CHR ''/'')) (CHR ''/'') of
              [i] \<Rightarrow> Some (i, [])
            | [i, action] \<Rightarrow> Some (i, action)
            | _ \<Rightarrow> None))"

subsection \<open>Handlers\<close>

type_synonym ('st, 'sg, 'ad) http_handler = "http_request \<Rightarrow> (('st, 'sg, 'ad) world, http_response) prog"

definition answer ::
  "nat \<Rightarrow> ('a \<Rightarrow> json option) \<Rightarrow> ('s, error + 'a) prog \<Rightarrow> ('s, http_response) prog" where
  "answer status f m =
     bindP m (\<lambda>r. case r of Inl err \<Rightarrow> Return (writeError (statusFor err) err)
                  | Inr x \<Rightarrow> Return (writeJSON status (f x)))"

definition health :: "('st, 'sg, 'ad) http_handler" where
  "health r = Return (writeJSON 200 (Some (json_of_map [(''status'', ''ok'')])))"

definition ready :: "('st, 'sg, 'ad) http_handler" where
  "ready r = Return (writeJSON 200 (Some (json_of_map [(''status'', ''ready'')])))"

definition metricsHandler :: "(nat \<Rightarrow> string) \<Rightarrow> (int \<Rightarrow> string) \<Rightarrow> ('st, 'sg, 'ad) http_handler" where
  "metricsHandler fmt_g fmt_sec r =
     bindP (actP (\<lambda>w. (WritePrometheus fmt_g fmt_sec (w_metrics w), w))) (\<lambda>body.
     Return \<lparr>rsStatus = 200, rsContentType = ''text/plain; version=0.0.4'', rsBody = body\<rparr>)"

text \<open>The bodies with one field, read into that field.\<close>

definition createWalletRequest :: "Chain field list" where
  "createWalletRequest = [str_field ''chain'' (\<lambda>c _. c)]"

definition cosignRequest :: "string field list" where
  "cosignRequest = [str_field ''signer_id'' (\<lambda>c _. c)]"

declare createWalletRequest_def [simp] cosignRequest_def [simp]

definition api_createWallet ::
  "'tx External \<Rightarrow> ('st, 'sg, 'ad) Server \<Rightarrow> ('st, 'sg, 'ad) http_handler" where
  "api_createWallet L s r =
     (case decodeJSON L createWalletRequest [] r of
        Inl resp \<Rightarrow> Return resp
      | Inr chain \<Rightarrow> answer 201 wallet_json (CreateWallet (srvService s) chain (idempotencyKeyOf r)))"

definition api_proposeTransaction ::
  "'tx External \<Rightarrow> ('st, 'sg, 'ad) Server \<Rightarrow> ctx_values \<Rightarrow> ('st, 'sg, 'ad) http_handler" where
  "api_proposeTransaction L s ctx_vals r =
     (case decodeJSON L (request_fields True) zero_request r of
        Inl resp \<Rightarrow> Return resp
      | Inr request \<Rightarrow>
          answer 201 proposal_json (ProposeTransaction (srvService s) ctx_vals request (idempotencyKeyOf r)))"

definition api_getTransaction :: "('st, 'sg, 'ad) Server \<Rightarrow> string \<Rightarrow> ('st, 'sg, 'ad) http_handler" where
  "api_getTransaction s i r = answer 200 proposal_json (service_GetTransaction (srvService s) i)"

definition api_cosign ::
  "'tx External \<Rightarrow> ('st, 'sg, 'ad) Server \<Rightarrow> string \<Rightarrow> ('st, 'sg, 'ad) http_handler" where
  "api_cosign L s i r =
     (case decodeJSON L cosignRequest [] r of
        Inl resp \<Rightarrow> Return resp
      | Inr signerID \<Rightarrow> answer 200 proposal_json (CoSign (srvService s) i signerID))"

definition api_broadcast :: "('st, 'sg, 'ad) Server \<Rightarrow> string \<Rightarrow> ('st, 'sg, 'ad) http_handler" where
  "api_broadcast s i r = answer 200 proposal_json (Broadcast (srvService s) i)"

definition transactionAction ::
  "'tx External \<Rightarrow> ('st, 'sg, 'ad) Server \<Rightarrow> ('st, 'sg, 'ad) http_handler" where
  "transactionAction L s r =
     (case parseTransactionPath (rqPath r) of
        None \<Rightarrow> Return (writeError 404 (Fresh ''transaction route not found''))
      | Some (i, action) \<Rightarrow>
          if rqMethod r = ''GET'' \<and> action = [] then api_getTransaction s i r
          else if rqMethod r = ''POST'' \<and> action = ''cosign'' then api_cosign L s i r
          else if rqMethod r = ''POST'' \<and> action = ''broadcast'' then api_broadcast s i r
          else Return (writeError 404 (Fresh ''transaction route not found'')))"

definition events_json :: "AuditEvent list \<Rightarrow> json option" where
  "events_json es =
     (if \<exists>e \<in> set es. audit_event_json e = None then None
      else Some (JObj [(''events'', JArr (map (the \<circ> audit_event_json) es))]))"

definition api_listAuditEvents :: "('st, 'sg, 'ad) Server \<Rightarrow> ('st, 'sg, 'ad) http_handler" where
  "api_listAuditEvents s r =
     (let rawLimit = get_first (rqQuery r) ''limit'';
          run = (\<lambda>limit. answer 200 events_json (service_ListAuditEvents (srvService s)
                   \<lparr>fResourceID = get_first (rqQuery r) ''resource_id'', fLimit = limit\<rparr>))
      in if rawLimit = [] then run 100
         else (case ParseInt64 rawLimit of
                 None \<Rightarrow> Return (writeError 400 (Fresh ''limit must be an integer''))
               | Some parsed \<Rightarrow> run parsed))"

subsection \<open>Authentication and routing\<close>

text \<open>The key a request presents.\<close>

definition provided_key :: "http_request \<Rightarrow> string" where
  "provided_key r =
     (let provided = header_Get r ''X-API-Key'' in
      if provided = [] \<and> HasPrefix (header_Get r ''Authorization'') ''Bearer ''
      then TrimPrefix (header_Get r ''Authorization'') ''Bearer '' else provided)"

text \<open>\<^verbatim>\<open>subtle.ConstantTimeCompare\<close> returns 1 for equal byte strings.\<close>

definition requireAPIKey ::
  "('st, 'sg, 'ad) Server \<Rightarrow> ('st, 'sg, 'ad) http_handler \<Rightarrow> ('st, 'sg, 'ad) http_handler" where
  "requireAPIKey s inner r =
     (if length (apiKeys s) = 0 then inner r
      else if \<exists>key \<in> set (apiKeys s). provided_key r = key then inner r
      else Return (writeError 401 (Fresh ''missing or invalid api key'')))"

text \<open>
  The patterns of \<^verbatim>\<open>Handler\<close>; a GET pattern also serves HEAD. Where none matches, or the
  path has empty or dot segments, the mux answers by itself (a redirect, 404 or 405), which
  is the argument \<open>mux\<close>. Paths are those that need no percent-encoding.
\<close>

definition clean_path :: "string \<Rightarrow> bool" where
  "clean_path path \<longleftrightarrow>
     (let segs = Split (drop 1 path) (CHR ''/'') in
      HasPrefix path ''/'' \<and> (\<forall>s \<in> set (butlast segs). s \<notin> {[], ''.'', ''..''}) \<and> last segs \<notin> {''.'', ''..''})"

definition serve ::
  "'tx External \<Rightarrow> (nat \<Rightarrow> string) \<Rightarrow> (int \<Rightarrow> string) \<Rightarrow> (http_request \<Rightarrow> http_response) \<Rightarrow>
   ('st, 'sg, 'ad) Server \<Rightarrow> ctx_values \<Rightarrow> ('st, 'sg, 'ad) http_handler" where
  "serve L fmt_g fmt_sec mux s ctx_vals r =
     (let get = rqMethod r = ''GET'' \<or> rqMethod r = ''HEAD''; post = rqMethod r = ''POST''; path = rqPath r in
      if \<not> clean_path path then Return (mux r)
      else if get \<and> path = ''/healthz'' then health r
      else if get \<and> path = ''/readyz'' then ready r
      else if get \<and> path = ''/metrics'' then metricsHandler fmt_g fmt_sec r
      else if post \<and> path = ''/v1/wallets'' then requireAPIKey s (api_createWallet L s) r
      else if post \<and> path = ''/v1/transactions'' then requireAPIKey s (api_proposeTransaction L s ctx_vals) r
      else if get \<and> path = ''/v1/audit/events'' then requireAPIKey s (api_listAuditEvents s) r
      else if (get \<or> post) \<and> HasPrefix path ''/v1/transactions/'' then requireAPIKey s (transactionAction L s) r
      else Return (mux r))"

subsection \<open>Middleware\<close>

text \<open>\<^verbatim>\<open>http.StatusText\<close> for the statuses the program sets; \<open>other\<close> for those of the mux.\<close>

definition StatusText :: "(nat \<Rightarrow> string) \<Rightarrow> nat \<Rightarrow> string" where
  "StatusText other status =
     (if status = 200 then ''OK'' else if status = 201 then ''Created''
      else if status = 400 then ''Bad Request'' else if status = 401 then ''Unauthorized''
      else if status = 403 then ''Forbidden'' else if status = 404 then ''Not Found''
      else if status = 409 then ''Conflict'' else if status = 500 then ''Internal Server Error''
      else other status)"

definition metrics_Observe ::
  "string \<Rightarrow> labels \<Rightarrow> int \<Rightarrow> ('st, 'sg, 'ad) world \<Rightarrow> unit \<times> ('st, 'sg, 'ad) world" where
  "metrics_Observe name labels d w = ((), w\<lparr>w_metrics := ObserveDuration name labels d (w_metrics w)\<rparr>)"

text \<open>The \<^verbatim>\<open>statusRecorder\<close> around the response: 200 until a handler writes another status.\<close>

record statusRecorder =
  recStatus :: nat

definition WriteHeader :: "nat \<Rightarrow> statusRecorder \<Rightarrow> statusRecorder" where
  "WriteHeader status r = r\<lparr>recStatus := status\<rparr>"

lemma recStatus_WriteHeader [simp]: "recStatus (WriteHeader status r) = status"
  by (simp add: WriteHeader_def)

definition new_trace :: "http_request \<Rightarrow> (('st, 'sg, 'ad) world, Trace) prog" where
  "new_trace r =
     (let trace = traceFromHeader (header_Get r ''traceparent'') in
      if TraceID trace = []
      then bindP (actP (rand_Read 16)) (\<lambda>a. bindP (actP (rand_Read 8)) (\<lambda>b.
             Return \<lparr>TraceID = randomHex a, SpanID = randomHex b\<rparr>))
      else Return trace)"

text \<open>
  The response with the \<^verbatim>\<open>traceparent\<close> header it carries. The log line at the end is not
  modelled; its extra reading of the clock is.
\<close>

definition Middleware ::
  "(nat \<Rightarrow> string) \<Rightarrow> (ctx_values \<Rightarrow> ('st, 'sg, 'ad) http_handler) \<Rightarrow> http_request \<Rightarrow>
   (('st, 'sg, 'ad) world, string \<times> http_response) prog" where
  "Middleware other inner r =
     bindP (actP now) (\<lambda>start.
     bindP (new_trace r) (\<lambda>trace.
     bindP (inner (WithTrace None trace) r) (\<lambda>resp.
     let recorder = WriteHeader (rsStatus resp) \<lparr>recStatus = 200\<rparr>;
         labels = [(''method'', rqMethod r), (''path'', routeLabel (rqPath r)),
                   (''status'', StatusText other (recStatus recorder))] in
     seqP (actP (metrics_Inc ''custody_http_requests_total'' labels))
     (bindP (actP now) (\<lambda>t.
     seqP (actP (metrics_Observe ''custody_http_request_duration_seconds'' labels (t - start)))
     (seqP (actP now)
     (Return (traceparent trace, resp))))))))"

definition Handler ::
  "'tx External \<Rightarrow> (nat \<Rightarrow> string) \<Rightarrow> (int \<Rightarrow> string) \<Rightarrow> (nat \<Rightarrow> string) \<Rightarrow> (http_request \<Rightarrow> http_response) \<Rightarrow>
   ('st, 'sg, 'ad) Server \<Rightarrow> http_request \<Rightarrow> (('st, 'sg, 'ad) world, string \<times> http_response) prog" where
  "Handler L fmt_g fmt_sec other mux s = Middleware other (serve L fmt_g fmt_sec mux s)"

subsection \<open>Laws\<close>

text \<open>The path built for an identifier and an action is read back.\<close>

lemma parse_path_get:
  assumes "i \<noteq> []" and "CHR ''/'' \<notin> set i"
  shows "parseTransactionPath (''/v1/transactions/'' @ i) = Some (i, [])"
proof -
  have "TrimPrefix (''/v1/transactions/'' @ i) ''/v1/transactions/'' = i"
    by (rule TrimPrefix_append)
  then show ?thesis using assms
    by (simp add: parseTransactionPath_def Trim_notin Split_notin del: append.simps)
qed

lemma parse_path_action:
  assumes "i \<noteq> []" and "CHR ''/'' \<notin> set i" and "a \<noteq> []" and "CHR ''/'' \<notin> set a"
  shows "parseTransactionPath (''/v1/transactions/'' @ i @ ''/'' @ a) = Some (i, a)"
proof -
  have "TrimPrefix (''/v1/transactions/'' @ i @ ''/'' @ a) ''/v1/transactions/'' = i @ ''/'' @ a"
    by (rule TrimPrefix_append)
  moreover have "Trim (i @ ''/'' @ a) (CHR ''/'') = i @ ''/'' @ a"
    using assms by (intro Trim_ends) (auto simp: last_append hd_append dest: hd_in_set last_in_set)
  moreover have "i @ ''/'' @ a \<noteq> ''/v1/transactions/'' @ i @ ''/'' @ a"
    by (metis append_self_conv2 append_same_eq list.distinct(1))
  ultimately show ?thesis using assms
    by (simp add: parseTransactionPath_def del: append.simps(2)) (simp add: Split_append Split_notin)
qed

text \<open>Decoding a body that holds exactly one written value.\<close>

lemma decodeJSON_text:
  assumes "json_wf (JObj ms)" and "rqBody r = json_text (JObj ms)"
  shows "decodeJSON L fs x r =
     (case decode_members True fs (map (\<lambda>(k, v). (k, v, json_text v)) ms) x of
        Inl e \<Rightarrow> Inl (writeError 400 (json_failed L e)) | Inr y \<Rightarrow> Inr y)"
proof -
  have "parse_value (Suc (length (json_text (JObj ms)))) (json_text (JObj ms)) = Some (JObj ms, [])"
    using parse_value_text [OF assms(1), of "[]" "Suc (length (json_text (JObj ms)))"]
    by (simp add: stops_def del: parse_value.simps)
  moreover have "map2 (\<lambda>(k, v) r. (k, v, r)) ms (map (json_text \<circ> snd) ms) = map (\<lambda>(k, v). (k, v, json_text v)) ms"
    by (induction ms) auto
  ultimately show ?thesis
    unfolding decodeJSON_def assms(2) object_raws_text [OF assms(1)]
    by (simp add: decode_struct_def skip_ws_def del: parse_value.simps json_text.simps split: sum.splits)
qed

end
