(* ===== verification/Json_Utf8.thy ===== *)
theory Json_Utf8
  imports Go_Json_Reread
begin

section \<open>Strings read from JSON are valid UTF-8\<close>

text \<open>
  Whatever bytes a document holds, the strings the reader produces are valid UTF-8: bytes that
  are not become U+FFFD, and an escape yields the encoding of a scalar value. What a struct
  decoder puts into its fields therefore is, too. The stores rely on it: a text that goes
  through a database comes back unchanged.
\<close>

subsection \<open>Runes\<close>

lemma ord_char_of: "n < 256 \<Longrightarrow> ord (char_of n :: char) = n"
  by simp

lemma rune_len_encode:
  assumes "r < 1114112" and "\<not> (55296 \<le> r \<and> r \<le> 57343)"
  shows "rune_len (utf8_encode r) = length (utf8_encode r)"
proof -
  consider "r < 128" | "128 \<le> r" "r < 2048" | "2048 \<le> r" "r < 65536" | "65536 \<le> r" by linarith
  then show ?thesis
  proof cases
    case 1
    then show ?thesis by (simp add: utf8_encode_def rune_len_def)
  next
    case 2
    then have "2 \<le> r div 64" "r div 64 < 32" by (simp_all add: div_le_mono [of 128 r 64, simplified] div_less_iff_less_mult)
    with 2 show ?thesis by (simp add: utf8_encode_def rune_len_def cont_byte_def)
  next
    case 3
    then have h: "r div 4096 < 16" by (simp add: div_less_iff_less_mult)
    have m: "r div 64 = 64 * (r div 4096) + r div 64 mod 64"
      using mult_div_mod_eq [of 64 "r div 64"] by (simp add: div_mult2_eq [symmetric])
    have low: "32 \<le> r div 64" using 3 by (simp add: less_eq_div_iff_mult_less_eq)
    have a: "r div 4096 = 0 \<Longrightarrow> 32 \<le> r div 64 mod 64" using m low by linarith
    have b: "r div 4096 = 13 \<Longrightarrow> r div 64 mod 64 < 32"
    proof -
      assume d: "r div 4096 = 13"
      then have "r < 57344" using div_less_iff_less_mult [of 4096 r 14] by simp
      with assms(2) have "r < 55296" by linarith
      then have "r div 64 < 864" by (simp add: div_less_iff_less_mult)
      with m d show ?thesis by linarith
    qed
    from 3 h a b show ?thesis by (auto simp: utf8_encode_def rune_len_def cont_byte_def)
  next
    case 4
    then have h: "r div 262144 < 5" using assms(1) by (simp add: div_less_iff_less_mult)
    have m: "r div 4096 = 64 * (r div 262144) + r div 4096 mod 64"
      using mult_div_mod_eq [of 64 "r div 4096"] by (simp add: div_mult2_eq [symmetric])
    have low: "16 \<le> r div 4096" "r div 4096 < 272"
      using 4 assms(1) by (simp_all add: less_eq_div_iff_mult_less_eq div_less_iff_less_mult)
    have a: "r div 262144 = 0 \<Longrightarrow> 16 \<le> r div 4096 mod 64" and b: "r div 262144 = 4 \<Longrightarrow> r div 4096 mod 64 < 16"
      using m low by linarith+
    from 4 h a b show ?thesis by (auto simp: utf8_encode_def rune_len_def cont_byte_def)
  qed
qed

lemma utf8_encode_ne [simp]: "utf8_encode r \<noteq> []"
  by (simp add: utf8_encode_def)

lemma fromHexChar_range: "fromHexChar c = Some n \<Longrightarrow> n < 16"
  by (auto simp: fromHexChar_def Let_def split: if_splits)

lemma getu4_range: "getu4 s = Some r \<Longrightarrow> r < 65536"
proof -
  assume "getu4 s = Some r"
  then obtain w x y z where "r = 4096 * w + 256 * x + 16 * y + z" "w < 16" "x < 16" "y < 16" "z < 16"
    by (auto simp: getu4_def dest!: fromHexChar_range split: list.splits option.splits)
  then show ?thesis by linarith
qed

lemma low_surrogate_range: "low_surrogate s = Some r \<Longrightarrow> 56320 \<le> r \<and> r \<le> 57343"
  by (auto simp: low_surrogate_def split: list.splits if_splits option.splits)

lemma chars_step_rune:
  assumes "chars_step s = Some (p, u)"
  shows "rune_len p = length p" and "p \<noteq> []"
proof -
  have err: "rune_len (utf8_encode rune_error) = length (utf8_encode rune_error)"
    by (rule rune_len_encode) (simp_all add: rune_error_def)
  have pair: "rune_len (utf8_encode (65536 + (r - 55296) * 1024 + (r' - 56320))) =
      length (utf8_encode (65536 + (r - 55296) * 1024 + (r' - 56320)))"
    if "55296 \<le> r" "r \<le> 56319" "low_surrogate t = Some r'" for r r' t
  proof (rule rune_len_encode)
    have "r - 55296 \<le> 1023" "r' - 56320 \<le> 1023" using that low_surrogate_range [OF that(3)] by linarith+
    then show "65536 + (r - 55296) * 1024 + (r' - 56320) < 1114112" by linarith
  qed linarith
  have esc: "rune_len (utf8_encode r) = length (utf8_encode r)"
    if "getu4 t = Some r" "\<not> (55296 \<le> r \<and> r \<le> 57343)" for r t
    by (rule rune_len_encode) (use getu4_range [OF that(1)] that(2) in auto)
  have simple: "rune_len [x] = 1" if "simple_escape e = Some x" for e x
    using that by (auto simp: simple_escape_def rune_len_def split: if_splits)
  obtain c s' where s: "s = c # s'" using assms by (cases s) (auto simp: chars_step_def)
  have "rune_len p = length p \<and> p \<noteq> []"
  proof (cases "c = CHR 0x5C")
    case True
    then obtain e t where t: "s' = e # t" using assms s by (cases s') (auto simp: chars_step_def)
    show ?thesis
      using assms unfolding s t True chars_step_def
      by (auto simp: err pair esc simple split: option.splits if_splits)
  next
    case False
    then consider (ascii) "ord c < 128" "p = [c]" | (bad) "p = utf8_encode rune_error"
      | (rune) "rune_len (c # s') \<noteq> 0" "p = take (rune_len (c # s')) (c # s')"
      using assms unfolding s chars_step_def by (auto simp: Let_def split: if_splits)
    then show ?thesis
    proof cases
      case rune
      from rune_len_take [of "c # s'" "rune_len (c # s')" "[]"] rune(1)
      have "rune_len p = rune_len (c # s')" "rune_len (c # s') \<le> length (c # s')" by (simp_all add: rune(2))
      then have "rune_len p = length p" by (simp add: rune(2) min_def)
      then show ?thesis using rune by (cases p) auto
    qed (simp add: rune_len_def, simp add: err)
  qed
  then show "rune_len p = length p" "p \<noteq> []" by auto
qed

lemma parse_chars_utf8: "parse_chars s = Some (x, t) \<Longrightarrow> utf8_ok x"
proof (induction s arbitrary: x rule: measure_induct_rule [of length])
  case (less s)
  obtain c s' where s: "s = c # s'" using less.prems by (cases s) auto
  show ?case
  proof (cases "c = CHR 0x22")
    case True
    with less.prems s show ?thesis by (simp add: parse_chars_step)
  next
    case False
    with less.prems s obtain p u y where st: "chars_step s = Some (p, u)" and y: "parse_chars u = Some (y, t)" "x = p @ y"
      by (auto simp: parse_chars_step elim: prepend_SomeE split: option.splits)
    have "utf8_ok y" by (rule less.IH [OF chars_step_shorter [OF st] y(1)])
    with chars_step_rune [OF st] show ?thesis unfolding y(2) by (rule utf8_ok_append_rune)
  qed
qed

subsection \<open>Documents\<close>

fun strings_ok :: "json \<Rightarrow> bool" where
  "strings_ok (JStr s) = utf8_ok s"
| "strings_ok (JArr xs) = list_all strings_ok xs"
| "strings_ok (JObj ms) = list_all (\<lambda>kv. strings_ok (snd kv)) ms"
| "strings_ok j = True"

lemma parse_strings_ok:
  "parse_value n s = Some (v, t) \<Longrightarrow> strings_ok v"
  "parse_elems n s = Some (xs, t) \<Longrightarrow> list_all strings_ok xs"
  "parse_members n s = Some (ms, t) \<Longrightarrow> list_all (\<lambda>kv. strings_ok (snd kv)) ms"
proof (induction n arbitrary: s v t xs ms)
  case (Suc n)
  {
    case 1
    then show ?case
      by (auto simp: Suc.IH dest: parse_chars_utf8 split: list.splits if_splits)
  next
    case 2
    then show ?case by (rule parse_elemsE) (use Suc.IH(1,2) in auto)
  next
    case 3
    then show ?case by (rule parse_membersE) (use Suc.IH(1,3) in auto)
  }
qed simp_all

text \<open>What every field keeps, the struct keeps.\<close>

lemma decode_struct_keeps:
  assumes "decode_struct b fs v raws x = Inr y" and "strings_ok v" and "Q x"
    and "\<And>f j r x y. f \<in> set fs \<Longrightarrow> strings_ok j \<Longrightarrow> Q x \<Longrightarrow> snd f j r x = Inr y \<Longrightarrow> Q y"
  shows "Q y"
proof -
  have step: "Q (snd (decode_member b fs st m))" if "Q (snd st)" "strings_ok (fst (snd m))" for st m
  proof (cases "find_field fs (fst m)")
    case (Some f)
    then have "f \<in> set fs" by (auto simp: find_field_def find_Some_iff split: option.splits)
    with Some that assms(4) show ?thesis by (auto simp: decode_member_def split: sum.splits)
  qed (use that in \<open>simp add: decode_member_def\<close>)
  have fold: "Q (snd (foldl (decode_member b fs) st ms))" if "Q (snd st)" "list_all (\<lambda>m. strings_ok (fst (snd m))) ms" for st ms
    using that by (induction ms arbitrary: st) (simp_all add: step)
  show ?thesis
  proof (cases v)
    case (JObj ms)
    let ?T = "map2 (\<lambda>(k, v) r. (k, v, r)) ms raws"
    have "list_all (\<lambda>m. strings_ok (fst (snd m))) ?T"
      using assms(2) unfolding JObj by (fastforce simp: list_all_iff dest: set_zip_leftD)
    from fold [of "(None, x)", OF _ this] assms(1,3) show ?thesis
      unfolding JObj by (auto simp: decode_struct_def decode_members_def split: prod.splits option.splits)
  qed (use assms in \<open>auto simp: decode_struct_def\<close>)
qed

end
