(* ===== verification/Service_Safety.thy ===== *)
theory Service_Safety
  imports Wallet_Service Json_Utf8
begin

section \<open>Safety of the service under every interleaving\<close>

text \<open>
  The custody invariant, the relation every step of every handler stays within, and the
  proof that all handlers are safe for them over any store that meets the store contract,
  with any signing backend and any chain adapters. Nothing about the order of the
  requests, their number or the interleaving of their steps is assumed.
\<close>

subsection \<open>Invariant\<close>

text \<open>
  Per transaction: only allowed signers have approved; a transaction that is signed or
  broadcast has at least two approvals; the amount passed the policy; the fields that
  later phases fill are empty before.
\<close>

definition custody_ok :: "Policy \<Rightarrow> TransactionProposal \<Rightarrow> bool" where
  "custody_ok pol p \<longleftrightarrow>
     pStatus p \<in> {TransactionStatusProposed, TransactionStatusSigned,
                  TransactionStatusBroadcast, TransactionStatusFailed} \<and>
     (\<forall>k \<in> set (gkeys (approvals p)). k \<noteq> [] \<and> signerAllowed pol k) \<and>
     (pStatus p = TransactionStatusSigned \<or> pStatus p = TransactionStatusBroadcast \<longrightarrow>
        2 \<le> ApprovalsCount p) \<and>
     (pStatus p = TransactionStatusBroadcast \<longrightarrow> pSignedTransaction p \<noteq> []) \<and>
     (pStatus p = TransactionStatusProposed \<longrightarrow> pSignedTransaction p = []) \<and>
     (pStatus p \<noteq> TransactionStatusBroadcast \<longrightarrow> pBroadcastHash p = []) \<and>
     validateAmountPolicy pol (pChain p) (rAmount (pRequest p)) = None"

definition view_ok :: "Policy \<Rightarrow> 'k store_view \<Rightarrow> bool" where
  "view_ok pol v \<longleftrightarrow>
     (\<forall>i p. vw_txs v i = Some p \<longrightarrow>
        custody_ok pol p \<and> (\<exists>w. vw_wallets v (pWalletID p) = Some w \<and> wChain w = pChain p)) \<and>
     (\<forall>k r. vw_idem v k = Some r \<longrightarrow>
        iResourceType r = ''wallet'' \<and> vw_wallets v (iResourceID r) \<noteq> None \<or>
        iResourceType r = ''transaction'' \<and> vw_txs v (iResourceID r) \<noteq> None)"

definition custody_inv ::
  "Policy \<Rightarrow> ('st \<Rightarrow> 'k store_view) \<Rightarrow> ('st \<Rightarrow> bool) \<Rightarrow> ('st, 'sg, 'ad) world \<Rightarrow> bool" where
  "custody_inv pol view ok w \<longleftrightarrow> ok (w_store w) \<and> view_ok pol (view (w_store w))"

subsection \<open>Steps\<close>

text \<open>
  Of one transaction: identity, wallet, chain, creation time, request and raw transaction
  never change; it never becomes a proposal again, and while it is one its approvals only grow.
\<close>

definition tx_step ::
  "(TransactionRequest \<Rightarrow> RawTransaction \<Rightarrow> 'c) \<Rightarrow> TransactionProposal \<Rightarrow> TransactionProposal \<Rightarrow> bool" where
  "tx_step norm p q \<longleftrightarrow>
     pID q = pID p \<and> pWalletID q = pWalletID p \<and> pChain q = pChain p \<and> pCreatedAt q = pCreatedAt p \<and>
     rAmount (pRequest q) = rAmount (pRequest p) \<and>
     norm (pRequest q) (pRawTransaction q) = norm (pRequest p) (pRawTransaction p) \<and>
     (pStatus q = TransactionStatusProposed \<longrightarrow>
        pStatus p = TransactionStatusProposed \<and> map_of (approvals p) \<subseteq>\<^sub>m map_of (approvals q))"

text \<open>Of the store: the audit log, the wallets and the idempotency records only grow.\<close>

definition view_step ::
  "(TransactionRequest \<Rightarrow> RawTransaction \<Rightarrow> 'c) \<Rightarrow> 'k store_view \<Rightarrow> 'k store_view \<Rightarrow> bool" where
  "view_step norm v v' \<longleftrightarrow>
     (\<exists>es. vw_audit v' = vw_audit v @ es) \<and>
     vw_wallets v \<subseteq>\<^sub>m vw_wallets v' \<and> vw_idem v \<subseteq>\<^sub>m vw_idem v' \<and>
     (\<forall>i p. vw_txs v i = Some p \<longrightarrow> (\<exists>q. vw_txs v' i = Some q \<and> tx_step norm p q))"

definition custody_step ::
  "('st \<Rightarrow> 'k store_view) \<Rightarrow> (TransactionRequest \<Rightarrow> RawTransaction \<Rightarrow> 'c) \<Rightarrow>
   ('st, 'sg, 'ad) world \<Rightarrow> ('st, 'sg, 'ad) world \<Rightarrow> bool" where
  "custody_step view norm w w' \<longleftrightarrow> view_step norm (view (w_store w)) (view (w_store w'))"

lemma tx_step_refl [simp]: "tx_step norm p p"
  by (simp add: tx_step_def)

lemma tx_step_trans: "tx_step norm p q \<Longrightarrow> tx_step norm q r \<Longrightarrow> tx_step norm p r"
  by (auto simp: tx_step_def intro: map_le_trans)

lemma view_step_refl [simp]: "view_step norm v v"
  by (auto simp: view_step_def)

lemma view_step_trans: "view_step norm u v \<Longrightarrow> view_step norm v x \<Longrightarrow> view_step norm u x"
  unfolding view_step_def by (auto intro: map_le_trans) (meson tx_step_trans)

interpretation world_rg: rely_guarantee "custody_inv pol view ok" "custody_step view norm"
  for pol view ok norm
  by unfold_locales (auto simp: custody_step_def intro: view_step_trans)

text \<open>A local copy of a proposal and what the store holds under its identifier by now.\<close>

definition tracks ::
  "(TransactionRequest \<Rightarrow> RawTransaction \<Rightarrow> 'c) \<Rightarrow> TransactionProposal \<Rightarrow> 'k store_view \<Rightarrow> bool" where
  "tracks norm p v \<longleftrightarrow> (\<exists>q. vw_txs v (pID p) = Some q \<and> tx_step norm p q)"

lemma tracks_stable: "tracks norm p v \<Longrightarrow> view_step norm v v' \<Longrightarrow> tracks norm p v'"
  unfolding tracks_def view_step_def by (meson tx_step_trans)

lemma map_le_length:
  assumes "wf_map m" and "wf_map m'" and "map_of m \<subseteq>\<^sub>m map_of m'"
  shows "length m \<le> length m'"
proof -
  have "dom (map_of m) \<subseteq> dom (map_of m')" using assms(3) by (rule map_le_implies_dom_le)
  then have "card (dom (map_of m)) \<le> card (dom (map_of m'))" by (intro card_mono finite_dom_map_of)
  with assms(1,2) show ?thesis by (simp add: card_keys)
qed

lemma put_tx_ok:
  assumes "view_ok pol v" and "custody_ok pol q"
    and "vw_wallets v (pWalletID q) = Some w" and "wChain w = pChain q"
  shows "view_ok pol (v\<lparr>vw_txs := (vw_txs v)(i \<mapsto> q)\<rparr>)"
  using assms unfolding view_ok_def by auto

lemma view_okD:
  assumes "view_ok pol v" and "vw_txs v i = Some p"
  shows "custody_ok pol p" and "\<exists>w. vw_wallets v (pWalletID p) = Some w \<and> wChain w = pChain p"
  using assms by (auto simp: view_ok_def)

lemma put_wallet_ok:
  assumes "view_ok pol v" and "vw_wallets v i = None"
  shows "view_ok pol (v\<lparr>vw_wallets := (vw_wallets v)(i \<mapsto> x)\<rparr>)"
  unfolding view_ok_def
proof (intro conjI allI impI)
  fix j p
  assume "vw_txs (v\<lparr>vw_wallets := (vw_wallets v)(i \<mapsto> x)\<rparr>) j = Some p"
  then have p: "vw_txs v j = Some p" by simp
  show "custody_ok pol p" using view_okD(1) [OF assms(1) p] .
  obtain w where w: "vw_wallets v (pWalletID p) = Some w" "wChain w = pChain p"
    using view_okD(2) [OF assms(1) p] by blast
  with assms(2) have "pWalletID p \<noteq> i" by auto
  with w show "\<exists>w. vw_wallets (v\<lparr>vw_wallets := (vw_wallets v)(i \<mapsto> x)\<rparr>) (pWalletID p) = Some w \<and>
      wChain w = pChain p" by simp
next
  fix k r
  assume "vw_idem (v\<lparr>vw_wallets := (vw_wallets v)(i \<mapsto> x)\<rparr>) k = Some r"
  with assms(1) show "iResourceType r = ''wallet'' \<and>
       vw_wallets (v\<lparr>vw_wallets := (vw_wallets v)(i \<mapsto> x)\<rparr>) (iResourceID r) \<noteq> None \<or>
     iResourceType r = ''transaction'' \<and>
       vw_txs (v\<lparr>vw_wallets := (vw_wallets v)(i \<mapsto> x)\<rparr>) (iResourceID r) \<noteq> None"
    by (auto simp: view_ok_def)
qed

lemma put_audit [simp]:
  "view_ok pol (v\<lparr>vw_audit := es\<rparr>) = view_ok pol v" "view_step norm v (v\<lparr>vw_audit := vw_audit v @ es\<rparr>)"
  by (simp_all add: view_ok_def view_step_def)

lemma put_idem_ok:
  assumes "view_ok pol v"
    and "iResourceType rec = ''wallet'' \<and> vw_wallets v (iResourceID rec) \<noteq> None \<or>
         iResourceType rec = ''transaction'' \<and> vw_txs v (iResourceID rec) \<noteq> None"
  shows "view_ok pol (v\<lparr>vw_idem := (vw_idem v)(k \<mapsto> rec)\<rparr>)"
  using assms unfolding view_ok_def by simp

lemma put_tx_step:
  assumes "\<And>p. vw_txs v i = Some p \<Longrightarrow> tx_step norm p q"
  shows "view_step norm v (v\<lparr>vw_txs := (vw_txs v)(i \<mapsto> q)\<rparr>)"
  using assms by (auto simp: view_step_def)

lemma custody_approve:
  assumes "custody_ok pol p" and "pStatus p = TransactionStatusProposed"
    and "SignerID a \<noteq> []" and "signerAllowed pol (SignerID a)"
  shows "custody_ok pol (approve a p)"
  using assms by (auto simp: custody_ok_def ApprovalsCount_def dom_update)

lemma custody_sign_as:
  assumes "custody_ok pol p" and "pStatus p = TransactionStatusProposed" and "2 \<le> ApprovalsCount p"
  shows "custody_ok pol (sign_as x t p)"
  using assms by (auto simp: custody_ok_def ApprovalsCount_def)

subsection \<open>Every handler is safe\<close>

text \<open>
  The texts that reach the service are UTF-8, which the store keeps. \<open>pol\<close> is any policy the
  service's own policy is within: its own, or a laxer one that several configurations share.
\<close>

locale custody_service = store_contract S view ok ikey clean norm
  for S :: "'st Store" and view :: "'st \<Rightarrow> 'k store_view" and ok ikey clean
    and norm :: "TransactionRequest \<Rightarrow> RawTransaction \<Rightarrow> 'c" +
  fixes svc :: "('st, 'sg, 'ad) Service" and pol :: Policy
  assumes store_is: "svStore svc = S" and clean_utf8: "utf8_ok x \<Longrightarrow> clean x"
    and within_signers: "signerAllowed (svPolicy svc) signer \<Longrightarrow> signerAllowed pol signer"
    and within_amount: "validateAmountPolicy (svPolicy svc) chain amount = None \<Longrightarrow> validateAmountPolicy pol chain amount = None"
begin

abbreviation I :: "('st, 'sg, 'ad) world \<Rightarrow> bool" where
  "I \<equiv> custody_inv pol view ok"

abbreviation G :: "('st, 'sg, 'ad) world \<Rightarrow> ('st, 'sg, 'ad) world \<Rightarrow> bool" where
  "G \<equiv> custody_step view norm"

abbreviation vw :: "('st, 'sg, 'ad) world \<Rightarrow> 'k store_view" where
  "vw w \<equiv> view (w_store w)"

abbreviation K :: "TransactionProposal \<Rightarrow> TransactionProposal \<Rightarrow> bool" where
  "K \<equiv> kept clean norm"

lemma keep_custody:
  assumes "K p q" and "wf_proposal p"
  shows "custody_ok pol q = custody_ok pol p"
proof -
  from assms(1) have sc: "same_custody p q" and wf: "wf_proposal q" by (auto simp: kept_def)
  from sc show ?thesis
    unfolding custody_ok_def same_custody_count [OF sc assms(2) wf] same_custody_keys [OF sc]
    by (simp add: same_custody_def)
qed

lemma keep_fields:
  assumes "K p q"
  shows "pWalletID q = pWalletID p" "pChain q = pChain p" "pID q = pID p" "pStatus q = pStatus p"
  using assms by (auto simp: kept_def same_custody_def)

lemma keep_tx_step: "K p q \<Longrightarrow> tx_step norm p0 p \<Longrightarrow> tx_step norm p0 q"
  by (auto simp: kept_def same_custody_def tx_step_def)

text \<open>Steps that do not touch the store.\<close>

lemma frame: "w_store w' = w_store w \<Longrightarrow> I w \<Longrightarrow> I w' \<and> G w w'"
  by (simp add: custody_inv_def custody_step_def)

lemma safe_pure:
  assumes "\<And>w x w'. f w = (x, w') \<Longrightarrow> w_store w' = w_store w \<and> Q x"
  shows "safe I G (\<lambda>x _. Q x) w (actP f)"
  by (rule world_rg.safe_act) (use assms frame in blast)

lemma safe_now: "safe I G (\<lambda>_ _. True) w (actP now)"
  by (rule safe_pure) (auto simp: now_def)

lemma safe_inc: "safe I G (\<lambda>_ _. True) w (actP (metrics_Inc n l))"
  by (rule safe_pure) (auto simp: metrics_Inc_def)

lemma safe_id: "safe I G (\<lambda>_ _. True) w (actP (ids_New n))"
  by (rule safe_pure) (auto dest: ids_New_world)

lemma safe_signer: "safe I G (\<lambda>_ _. True) w (actP (on_signer f))"
  by (rule safe_pure) (auto simp: on_signer_def split: prod.splits)

lemma safe_adapters: "safe I G (\<lambda>_ _. True) w (actP (on_adapters f))"
  by (rule safe_pure) (auto simp: on_adapters_def split: prod.splits)

text \<open>One store operation: what its specification has to give.\<close>

lemma safe_store:
  assumes "\<And>t c r s'. G w t \<Longrightarrow> I t \<Longrightarrow> f c (w_store t) = (r, s') \<Longrightarrow>
      ok s' \<and> view_ok pol (view s') \<and> view_step norm (vw t) (view s') \<and>
      (\<forall>u. view_step norm (view s') (vw u) \<longrightarrow> I u \<longrightarrow> Q r u)"
  shows "safe I G Q w (actP (on_store f))"
proof (rule world_rg.safe_act)
  fix t r t'
  assume t: "G w t" "I t" "on_store f t = (r, t')"
  then obtain s' where f: "f (shd (w_ctx t)) (w_store t) = (r, s')" and t': "w_store t' = s'"
    by (auto simp: on_store_def split: prod.splits)
  from assms [OF t(1,2) f] t' show "I t' \<and> G t t' \<and> (\<forall>u. G t' u \<longrightarrow> I u \<longrightarrow> Q r u)"
    by (auto simp: custody_inv_def custody_step_def)
qed

lemma safe_append:
  "safe I G (\<lambda>_ _. True) w (actP (on_store (\<lambda>c. sAppendAuditEvent (svStore svc) c e)))"
proof (rule safe_store)
  fix t c r s'
  assume "I t" and "sAppendAuditEvent (svStore svc) c e (w_store t) = (r, s')"
  then have "ok s' \<and> append_audit_spec e (vw t) r (view s')" and "view_ok pol (vw t)"
    by (auto simp: custody_inv_def store_is dest: AppendAuditEvent_law)
  then show "ok s' \<and> view_ok pol (view s') \<and> view_step norm (vw t) (view s') \<and>
      (\<forall>u. view_step norm (view s') (vw u) \<longrightarrow> I u \<longrightarrow> True)"
    by (cases r) (auto simp: append_audit_spec_def)
qed

lemma safe_appendAudit: "I w \<Longrightarrow> safe I G (\<lambda>_ _. True) w (appendAudit svc e)"
  unfolding appendAudit_def Let_def
  by (rule world_rg.safe_try [OF safe_id] world_rg.safe_bind [OF safe_now]
      world_rg.safe_try [OF safe_append] world_rg.safe_seq [OF safe_inc] world_rg.safe_ret
      | assumption | simp)+

text \<open>Storing a proposal derived from a copy the store still tracks, in a closed state.\<close>

lemma put_tracked:
  assumes "I t" and "tracks norm p (vw t)" and "wf_proposal q" and "custody_ok pol q"
    and "tx_step norm p q" and "pStatus q \<noteq> TransactionStatusProposed" and "K q q'"
    and "v' = (vw t)\<lparr>vw_txs := (vw_txs (vw t))(pID q \<mapsto> q')\<rparr>"
  shows "view_ok pol v' \<and> view_step norm (vw t) v' \<and> tracks norm q v'"
proof -
  from assms(2) obtain p' where p': "vw_txs (vw t) (pID p) = Some p'" and st: "tx_step norm p p'"
    by (auto simp: tracks_def)
  from assms(1) have vok: "view_ok pol (vw t)" by (simp add: custody_inv_def)
  from view_okD(2) [OF vok p'] obtain x
    where x: "vw_wallets (vw t) (pWalletID p') = Some x" "wChain x = pChain p'" by blast
  have same: "pID q = pID p" "pWalletID q = pWalletID p'" "pChain q = pChain p'"
    using assms(5) st by (auto simp: tx_step_def)
  have "tx_step norm p' q" using assms(5,6) st by (auto simp: tx_step_def)
  then have "tx_step norm p' q'" by (rule keep_tx_step [OF assms(7)])
  moreover have "tx_step norm q q'" by (rule keep_tx_step [OF assms(7)]) simp
  moreover have "custody_ok pol q'" by (simp add: keep_custody [OF assms(7,3)] assms(4))
  ultimately show ?thesis
    using vok x same p' keep_fields [OF assms(7)] unfolding assms(8)
    by (auto simp: tracks_def intro!: put_tx_ok [where w = x] put_tx_step)
qed

lemma safe_update:
  assumes "tracks norm p (vw w)" and "wf_proposal q" and "custody_ok pol q"
    and "tx_step norm p q" and "pStatus q \<noteq> TransactionStatusProposed" and "fits clean q"
  shows "safe I G (\<lambda>_ _. True) w (actP (on_store (\<lambda>c. sUpdateTransaction (svStore svc) c q)))"
proof (rule safe_store)
  fix t c r s'
  assume t: "G w t" "I t" and eq: "sUpdateTransaction (svStore svc) c q (w_store t) = (r, s')"
  have spec: "ok s' \<and> update_tx_spec K q (vw t) r (view s')"
    using t(2) eq assms(2,6) by (auto simp: custody_inv_def store_is dest: UpdateTransaction_law)
  have tr: "tracks norm p (vw t)" using assms(1) t(1) tracks_stable by (auto simp: custody_step_def)
  have vok: "view_ok pol (vw t)" using t(2) by (simp add: custody_inv_def)
  show "ok s' \<and> view_ok pol (view s') \<and> view_step norm (vw t) (view s') \<and>
      (\<forall>u. view_step norm (view s') (vw u) \<longrightarrow> I u \<longrightarrow> True)"
    using spec vok put_tracked [OF t(2) tr assms(2-5)]
    by (cases r) (auto simp: update_tx_spec_def)
qed

lemma safe_fail:
  assumes "I w" and "tracks norm p (vw w)" and "wf_proposal p" and "custody_ok pol p"
    and "pStatus p \<noteq> TransactionStatusBroadcast" and "fits clean p"
  shows "safe I G (\<lambda>_ _. True) w (failTransaction svc p e ph)"
proof -
  have q: "wf_proposal (p\<lparr>pStatus := TransactionStatusFailed, pError := x, pUpdatedAt := t\<rparr>)"
    "custody_ok pol (p\<lparr>pStatus := TransactionStatusFailed, pError := x, pUpdatedAt := t\<rparr>)"
    "tx_step norm p (p\<lparr>pStatus := TransactionStatusFailed, pError := x, pUpdatedAt := t\<rparr>)"
    "fits clean (p\<lparr>pStatus := TransactionStatusFailed, pError := x, pUpdatedAt := t\<rparr>)" for x t
    using assms(3-6)
    by (auto simp: wf_proposal_def custody_ok_def tx_step_def ApprovalsCount_def approvals_def fits_def)
  show ?thesis
    unfolding failTransaction_def Let_def
    apply (rule world_rg.safe_bind [OF safe_now _ assms(1)])
    apply (rule world_rg.safe_bind [OF safe_update [where p = p]])
    using q assms(2) by (auto simp: custody_step_def intro: tracks_stable world_rg.safe_ret split: sum.splits)
qed

text \<open>What a handler knows of the proposal an approval was added to.\<close>

definition got_approved :: "string \<Rightarrow> TransactionProposal \<Rightarrow> ('st, 'sg, 'ad) world \<Rightarrow> bool" where
  "got_approved i p u \<longleftrightarrow> pID p = i \<and> wf_proposal p \<and> fits clean p \<and> custody_ok pol p \<and>
     pStatus p = TransactionStatusProposed \<and> tracks norm p (vw u)"

lemma safe_AddApproval:
  assumes "SignerID a \<noteq> []" and "signerAllowed pol (SignerID a)" and "clean (SignerID a)"
  shows "safe I G (\<lambda>r u. case r of Inl _ \<Rightarrow> True | Inr p \<Rightarrow> got_approved i p u) w
     (actP (on_store (\<lambda>c. sAddApproval (svStore svc) c i a)))"
proof (rule safe_store)
  fix t c r s'
  assume t: "G w t" "I t" and eq: "sAddApproval (svStore svc) c i a (w_store t) = (r, s')"
  have spec: "ok s'" "add_approval_spec K i a (vw t) r (view s')" and okt: "ok (w_store t)"
    and vok: "view_ok pol (vw t)"
    using t(2) eq assms(3) by (auto simp: custody_inv_def store_is dest: AddApproval_law)
  show "ok s' \<and> view_ok pol (view s') \<and> view_step norm (vw t) (view s') \<and>
      (\<forall>u. view_step norm (view s') (vw u) \<longrightarrow> I u \<longrightarrow>
        (case r of Inl _ \<Rightarrow> True | Inr p \<Rightarrow> got_approved i p u))"
  proof (cases r)
    case (Inl e)
    with spec vok show ?thesis by (simp add: add_approval_spec_def)
  next
    case (Inr p)
    then obtain p0 q where p0: "vw_txs (vw t) i = Some p0" "pStatus p0 = TransactionStatusProposed"
      and new: "SignerID a \<notin> set (gkeys (approvals p0))" and p: "p = approve a p0" and q: "K p q"
      and v': "view s' = (vw t)\<lparr>vw_txs := (vw_txs (vw t))(i \<mapsto> q)\<rparr>"
      using spec(2) by (auto simp: add_approval_spec_def)
    have wf0: "wf_proposal p0" and fit0: "fits clean p0" and pid: "pID p0 = i" using ok_stored [OF okt p0(1)] by auto
    have wf: "wf_proposal p" unfolding p by (rule wf_approve [OF wf0])
    have fit: "fits clean p" unfolding p by (rule fits_approve [OF fit0 assms(3)])
    have cu: "custody_ok pol p"
      unfolding p using view_okD(1) [OF vok p0(1)] p0(2) assms(1,2) by (rule custody_approve)
    have "map_of (approvals p0) \<subseteq>\<^sub>m map_of (approvals p)"
      using map_le_gput [OF new, of a] by (simp only: p approve_fields)
    then have st: "tx_step norm p0 p" using p0(2) by (simp add: p tx_step_def)
    obtain x where x: "vw_wallets (vw t) (pWalletID p0) = Some x" "wChain x = pChain p0"
      using view_okD(2) [OF vok p0(1)] by blast
    have ok': "view_ok pol (view s')"
      unfolding v' using x cu keep_fields [OF q]
      by (intro put_tx_ok [OF vok, where w = x]) (auto simp: keep_custody [OF q wf] p)
    have step: "view_step norm (vw t) (view s')"
      unfolding v' using p0(1) keep_tx_step [OF q st] by (intro put_tx_step) auto
    have "tracks norm p (view s')"
      using pid keep_tx_step [OF q tx_step_refl] by (simp add: tracks_def v' p)
    then show ?thesis
      using Inr spec(1) ok' step wf fit cu pid p0(2)
      by (auto simp: got_approved_def p intro: tracks_stable)
  qed
qed

lemma safe_Mark:
  assumes "got_approved i p w" and "2 \<le> ApprovalsCount p"
  shows "safe I G (\<lambda>_ _. True) w (actP (on_store (\<lambda>c. sMarkTransactionSigned (svStore svc) c i x)))"
proof (rule safe_store)
  fix t c r s'
  assume t: "G w t" "I t" and eq: "sMarkTransactionSigned (svStore svc) c i x (w_store t) = (r, s')"
  have spec: "ok s'" "mark_signed_spec K i x (vw t) r (view s')" and okt: "ok (w_store t)"
    and vok: "view_ok pol (vw t)"
    using t(2) eq by (auto simp: custody_inv_def store_is dest: MarkTransactionSigned_law)
  show "ok s' \<and> view_ok pol (view s') \<and> view_step norm (vw t) (view s') \<and>
      (\<forall>u. view_step norm (view s') (vw u) \<longrightarrow> I u \<longrightarrow> True)"
  proof (cases "\<exists>q. r = Inr (q, True)")
    case False
    with spec vok show ?thesis by (cases r) (auto simp: mark_signed_spec_def)
  next
    case True
    then obtain q p0 tm q' where r: "r = Inr (q, True)" and p0: "vw_txs (vw t) i = Some p0"
      and stp: "pStatus p0 = TransactionStatusProposed" and q: "q = sign_as x tm p0" and q': "K q q'"
      and v': "view s' = (vw t)\<lparr>vw_txs := (vw_txs (vw t))(i \<mapsto> q')\<rparr>"
      using spec(2) by (auto simp: mark_signed_spec_def)
    have wf0: "wf_proposal p0" and pid: "pID p0 = i" using ok_stored [OF okt p0] by auto
    have "tracks norm p (vw t)"
      using assms(1) t(1) by (auto simp: got_approved_def custody_step_def intro: tracks_stable)
    with p0 stp assms(1) have "map_of (approvals p) \<subseteq>\<^sub>m map_of (approvals p0)"
      by (auto simp: tracks_def tx_step_def got_approved_def)
    then have "2 \<le> ApprovalsCount p0"
      using map_le_length [of "approvals p" "approvals p0"] assms wf0
      by (auto simp: ApprovalsCount_def wf_proposal_def got_approved_def)
    then have cu: "custody_ok pol q"
      unfolding q using view_okD(1) [OF vok p0] stp by (intro custody_sign_as)
    have "tx_step norm p0 q" by (simp add: q tx_step_def)
    then show ?thesis
      using put_tracked [OF t(2), of p0 q q' "view s'"] p0 pid wf0 cu q' v' spec(1) by (simp add: q tracks_def)
  qed
qed

lemma safe_GetTransaction:
  "safe I G (\<lambda>r u. case r of Inl _ \<Rightarrow> True
     | Inr p \<Rightarrow> pID p = i \<and> wf_proposal p \<and> fits clean p \<and> custody_ok pol p \<and> tracks norm p (vw u)) w
     (actP (on_store (\<lambda>c. sGetTransaction (svStore svc) c i)))"
proof (rule safe_store)
  fix t c r s'
  assume t: "G w t" "I t" and eq: "sGetTransaction (svStore svc) c i (w_store t) = (r, s')"
  have spec: "ok s'" "get_tx_spec i (vw t) r (view s')" and okt: "ok (w_store t)"
    and vok: "view_ok pol (vw t)"
    using t(2) eq by (auto simp: custody_inv_def store_is dest: GetTransaction_law)
  have "vw_txs (vw t) i = Some p \<Longrightarrow>
      pID p = i \<and> wf_proposal p \<and> fits clean p \<and> custody_ok pol p \<and> tracks norm p (vw t)" for p
    using ok_stored [OF okt] view_okD(1) [OF vok] by (auto simp: tracks_def)
  with spec vok show "ok s' \<and> view_ok pol (view s') \<and> view_step norm (vw t) (view s') \<and>
      (\<forall>u. view_step norm (view s') (vw u) \<longrightarrow> I u \<longrightarrow> (case r of Inl _ \<Rightarrow> True
     | Inr p \<Rightarrow> pID p = i \<and> wf_proposal p \<and> fits clean p \<and> custody_ok pol p \<and> tracks norm p (vw u)))"
    by (cases r) (auto simp: get_tx_spec_def intro: tracks_stable)
qed

lemma safe_ListAuditEvents:
  "safe I G (\<lambda>_ _. True) w (actP (on_store (\<lambda>c. sListAuditEvents (svStore svc) c f)))"
proof (rule safe_store)
  fix t c r s'
  assume "I t" and "sListAuditEvents (svStore svc) c f (w_store t) = (r, s')"
  then have "ok s' \<and> view s' = vw t" and "view_ok pol (vw t)"
    by (auto simp: custody_inv_def store_is dest: ListAuditEvents_law)
  then show "ok s' \<and> view_ok pol (view s') \<and> view_step norm (vw t) (view s') \<and>
      (\<forall>u. view_step norm (view s') (vw u) \<longrightarrow> I u \<longrightarrow> True)"
    by simp
qed

lemma safe_GetWallet:
  "safe I G (\<lambda>r u. case r of Inl _ \<Rightarrow> True | Inr x \<Rightarrow> wID x = i \<and> clean (wID x) \<and> clean (wChain x) \<and> vw_wallets (vw u) i = Some x) w
     (actP (on_store (\<lambda>c. sGetWallet (svStore svc) c i)))"
proof (rule safe_store)
  fix t c r s'
  assume t: "G w t" "I t" and eq: "sGetWallet (svStore svc) c i (w_store t) = (r, s')"
  have spec: "ok s'" "get_wallet_spec i (vw t) r (view s')" and okt: "ok (w_store t)"
    and vok: "view_ok pol (vw t)"
    using t(2) eq by (auto simp: custody_inv_def store_is dest: GetWallet_law)
  then show "ok s' \<and> view_ok pol (view s') \<and> view_step norm (vw t) (view s') \<and>
      (\<forall>u. view_step norm (view s') (vw u) \<longrightarrow> I u \<longrightarrow>
        (case r of Inl _ \<Rightarrow> True | Inr x \<Rightarrow> wID x = i \<and> clean (wID x) \<and> clean (wChain x) \<and> vw_wallets (vw u) i = Some x))"
    using ok_wallets [OF okt]
    by (cases r) (auto simp: get_wallet_spec_def view_step_def map_le_def dom_def)
qed

lemma safe_CreateWallet_store:
  "safe I G (\<lambda>_ _. True) w (actP (on_store (\<lambda>c. sCreateWallet (svStore svc) c x)))"
proof (rule safe_store)
  fix t c r s'
  assume t: "I t" and eq: "sCreateWallet (svStore svc) c x (w_store t) = (r, s')"
  have "ok s'" "create_wallet_spec x (vw t) r (view s')" and "view_ok pol (vw t)"
    using t eq by (auto simp: custody_inv_def store_is dest: CreateWallet_law)
  then show "ok s' \<and> view_ok pol (view s') \<and> view_step norm (vw t) (view s') \<and>
      (\<forall>u. view_step norm (view s') (vw u) \<longrightarrow> I u \<longrightarrow> True)"
    by (cases r) (auto simp: create_wallet_spec_def view_step_def map_le_def put_wallet_ok)
qed

lemma safe_CreateWalletIdem_store:
  assumes "iResourceType rec = ''wallet''" and "iResourceID rec = wID x"
  shows "safe I G (\<lambda>_ _. True) w
     (actP (on_store (\<lambda>c. sCreateWalletIdempotently (svStore svc) c x rec)))"
proof (rule safe_store)
  fix t c r s'
  assume t: "I t" and eq: "sCreateWalletIdempotently (svStore svc) c x rec (w_store t) = (r, s')"
  let ?k = "ikey (iScope rec) (iKey rec)"
  have spec: "ok s'" "create_wallet_idem_spec ?k x rec (vw t) r (view s')"
    and vok: "view_ok pol (vw t)"
    using t eq by (auto simp: custody_inv_def store_is dest: CreateWalletIdempotently_law)
  show "ok s' \<and> view_ok pol (view s') \<and> view_step norm (vw t) (view s') \<and>
      (\<forall>u. view_step norm (view s') (vw u) \<longrightarrow> I u \<longrightarrow> True)"
  proof (cases "\<exists>q. r = Inr (q, True)")
    case False
    with spec vok show ?thesis by (cases r) (auto simp: create_wallet_idem_spec_def)
  next
    case True
    then obtain y rec' where new: "vw_idem (vw t) ?k = None" "vw_wallets (vw t) (wID x) = None"
      and y: "kept_wallet x y" "kept_record rec rec'"
      and v': "view s' = (vw t)\<lparr>vw_wallets := (vw_wallets (vw t))(wID x \<mapsto> y), vw_idem := (vw_idem (vw t))(?k \<mapsto> rec')\<rparr>"
      using spec(2) by (auto simp: create_wallet_idem_spec_def)
    from put_idem_ok [OF put_wallet_ok [OF vok new(2), of y], of rec' ?k]
    have "view_ok pol (view s')" using assms y by (simp add: v' kept_record_def)
    moreover have "view_step norm (vw t) (view s')"
      using new by (auto simp: view_step_def v' map_le_def)
    ultimately show ?thesis using spec(1) by simp
  qed
qed

text \<open>Storing a new proposal of a wallet the store holds.\<close>

lemma put_new:
  assumes "view_ok pol v" and "wf_proposal p" and "custody_ok pol p"
    and "vw_wallets v (pWalletID p) = Some x" and "wChain x = pChain p" and "vw_txs v (pID p) = None" and "K p q"
  shows "view_ok pol (v\<lparr>vw_txs := (vw_txs v)(pID p \<mapsto> q)\<rparr>)"
    and "view_step norm v (v\<lparr>vw_txs := (vw_txs v)(pID p \<mapsto> q)\<rparr>)"
  using assms keep_fields [OF assms(7)] by (auto simp: keep_custody [OF assms(7)] intro!: put_tx_ok put_tx_step)

lemma safe_CreateTransaction_store:
  assumes "wf_proposal p" and "custody_ok pol p"
    and "vw_wallets (vw w) (pWalletID p) = Some x" and "wChain x = pChain p" and "fits clean p"
  shows "safe I G (\<lambda>_ _. True) w (actP (on_store (\<lambda>c. sCreateTransaction (svStore svc) c p)))"
proof (rule safe_store)
  fix t c r s'
  assume t: "G w t" "I t" and eq: "sCreateTransaction (svStore svc) c p (w_store t) = (r, s')"
  have spec: "ok s'" "create_tx_spec K p (vw t) r (view s')"
    and vok: "view_ok pol (vw t)"
    using t(2) eq assms(1,5) by (auto simp: custody_inv_def store_is dest: CreateTransaction_law)
  have "vw_wallets (vw t) (pWalletID p) = Some x"
    using t(1) assms(3) by (auto simp: custody_step_def view_step_def map_le_def dom_def)
  from put_new [OF vok assms(1,2) this assms(4)] spec vok
  show "ok s' \<and> view_ok pol (view s') \<and> view_step norm (vw t) (view s') \<and>
      (\<forall>u. view_step norm (view s') (vw u) \<longrightarrow> I u \<longrightarrow> True)"
    by (cases r) (auto simp: create_tx_spec_def)
qed

lemma safe_CreateTransactionIdem_store:
  assumes "wf_proposal p" and "custody_ok pol p"
    and "vw_wallets (vw w) (pWalletID p) = Some x" and "wChain x = pChain p"
    and "iResourceType rec = ''transaction''" and "iResourceID rec = pID p" and "fits clean p"
  shows "safe I G (\<lambda>_ _. True) w
     (actP (on_store (\<lambda>c. sCreateTransactionIdempotently (svStore svc) c p rec)))"
proof (rule safe_store)
  fix t c r s'
  assume t: "G w t" "I t" and eq: "sCreateTransactionIdempotently (svStore svc) c p rec (w_store t) = (r, s')"
  let ?k = "ikey (iScope rec) (iKey rec)"
  have spec: "ok s'" "create_tx_idem_spec K ?k p rec (vw t) r (view s')"
    and vok: "view_ok pol (vw t)"
    using t(2) eq assms(1,7) by (auto simp: custody_inv_def store_is dest: CreateTransactionIdempotently_law)
  have "vw_wallets (vw t) (pWalletID p) = Some x"
    using t(1) assms(3) by (auto simp: custody_step_def view_step_def map_le_def dom_def)
  note put = put_new [OF vok assms(1,2) this assms(4)]
  show "ok s' \<and> view_ok pol (view s') \<and> view_step norm (vw t) (view s') \<and>
      (\<forall>u. view_step norm (view s') (vw u) \<longrightarrow> I u \<longrightarrow> True)"
  proof (cases "\<exists>q. r = Inr (q, True)")
    case False
    with spec vok show ?thesis by (cases r) (auto simp: create_tx_idem_spec_def)
  next
    case True
    then obtain q rec' where new: "vw_idem (vw t) ?k = None" "vw_txs (vw t) (pID p) = None"
      and q: "K p q" "kept_record rec rec'"
      and v': "view s' = (vw t)\<lparr>vw_txs := (vw_txs (vw t))(pID p \<mapsto> q), vw_idem := (vw_idem (vw t))(?k \<mapsto> rec')\<rparr>"
      using spec(2) by (auto simp: create_tx_idem_spec_def)
    from put_idem_ok [OF put(1) [OF new(2) q(1)], of rec' ?k] have "view_ok pol (view s')"
      using assms(5,6) q(2) by (simp add: v' kept_record_def)
    moreover from put(2) [OF new(2) q(1)] have "view_step norm (vw t) (view s')"
      using new(1) by (auto simp: view_step_def v' map_le_def)
    ultimately show ?thesis using spec(1) by simp
  qed
qed

text \<open>The handlers.\<close>

lemmas true_rules =
  world_rg.safe_try [where P = "\<lambda>_ _. True"] world_rg.safe_bind [where P = "\<lambda>_ _. True"]
  world_rg.safe_seq [where P = "\<lambda>_ _. True"]

lemmas from_rules =
  world_rg.safe_try_from [where P = "\<lambda>_ _. True"] world_rg.safe_bind_from [where P = "\<lambda>_ _. True"]
  world_rg.safe_seq_from [where P = "\<lambda>_ _. True"]

lemmas leaf_rules = safe_now safe_inc safe_id safe_signer safe_adapters safe_append safe_appendAudit

lemma safe_True_Return [simp]: "safe I G (\<lambda>_ _. True) w (Return x)"
  by (rule world_rg.safe_ret) simp

lemma safe_tail:
  assumes "I w"
  shows "safe I G (\<lambda>_ _. True) w (tryP (appendAudit svc e) (\<lambda>_. seqP (actP (metrics_Inc n l)) (Return x)))"
  using assms by (intro true_rules leaf_rules) auto

lemma safe_CreateWallet:
  assumes "I w"
  shows "safe I G (\<lambda>_ _. True) w (CreateWallet svc chain key)"
proof -
  have store: "safe I G (\<lambda>_ _. True) t
     (if key = [] then tryP (actP (on_store (\<lambda>c. sCreateWallet (svStore svc) c x))) (\<lambda>_. Return (Inr (x, True)))
      else bindP (actP now) (\<lambda>t'. actP (on_store (\<lambda>c. sCreateWalletIdempotently (svStore svc) c x
        \<lparr>iScope = ''wallet:'' @ chain, iKey = key, iResourceType = ''wallet'', iResourceID = wID x, iCreatedAt = t'\<rparr>))))"
    if "I t" for t x
    using that by (auto intro!: true_rules leaf_rules safe_CreateWallet_store safe_CreateWalletIdem_store)
  show ?thesis
    unfolding CreateWallet_def Let_def
    using assms by (auto intro!: true_rules leaf_rules store safe_tail split: if_splits)
qed

lemma new_proposal_ok:
  "wf_proposal (new_proposal x trace rq raw i t)"
  "validateAmountPolicy pol (wChain x) (rAmount rq) = None \<Longrightarrow> custody_ok pol (new_proposal x trace rq raw i t)"
  "pWalletID (new_proposal x trace rq raw i t) = wID x"
  "pChain (new_proposal x trace rq raw i t) = wChain x"
  "clean (wID x) \<Longrightarrow> clean (wChain x) \<Longrightarrow> clean (rAmount rq) \<Longrightarrow> fits clean (new_proposal x trace rq raw i t)"
  by (simp_all add: new_proposal_def wf_proposal_def custody_ok_def approvals_def fits_def)

lemma safe_propose_store:
  assumes "I u" and "vw_wallets (vw u) (wID x) = Some x"
    and "validateAmountPolicy pol (wChain x) (rAmount rq) = None"
    and "clean (wID x)" and "clean (wChain x)" and "clean (rAmount rq)"
  shows "safe I G (\<lambda>_ _. True) u
     (if key = [] then tryP (actP (on_store (\<lambda>c. sCreateTransaction (svStore svc) c (new_proposal x trace rq raw i tm))))
        (\<lambda>_. Return (Inr (new_proposal x trace rq raw i tm, True)))
      else actP (on_store (\<lambda>c. sCreateTransactionIdempotently (svStore svc) c (new_proposal x trace rq raw i tm)
        \<lparr>iScope = sc, iKey = key, iResourceType = ''transaction'',
         iResourceID = pID (new_proposal x trace rq raw i tm), iCreatedAt = tm\<rparr>)))"
  using assms
  by (auto intro!: true_rules safe_CreateTransaction_store [where x = x]
      safe_CreateTransactionIdem_store [where x = x] simp: new_proposal_ok)

lemma wallet_stable: "vw_wallets (vw t) i = Some x \<Longrightarrow> G t u \<Longrightarrow> vw_wallets (vw u) i = Some x"
  by (auto simp: custody_step_def view_step_def map_le_def dom_def)

lemma safe_ProposeTransaction:
  assumes "I w" and "clean (rAmount rq)"
  shows "safe I G (\<lambda>_ _. True) w (ProposeTransaction svc trace rq key)"
  unfolding ProposeTransaction_def
proof (rule world_rg.safe_try [OF safe_GetWallet assms(1)], goal_cases)
  case (2 source t)
  then have "vw_wallets (vw t) (wID source) = Some source" by simp
  with 2 assms(2) within_amount show ?case
    unfolding Let_def
    by (auto intro!: from_rules [where b = t] leaf_rules safe_propose_store safe_tail
        intro: wallet_stable split: option.splits if_splits)
qed simp

lemma got_approved_stable: "got_approved i p t \<Longrightarrow> G t u \<Longrightarrow> got_approved i p u"
  by (auto simp: got_approved_def custody_step_def intro: tracks_stable)

lemma safe_sign_phase:
  assumes "I w" and "got_approved i p w" and "2 \<le> ApprovalsCount p"
  shows "safe I G (\<lambda>_ _. True) w (sign_phase svc p)"
proof -
  have g: "got_approved (pID p) p t" if "G w t" for t
    using got_approved_stable [OF assms(2) that] by (simp add: got_approved_def)
  then have p: "wf_proposal p" "custody_ok pol p" "pStatus p = TransactionStatusProposed" "fits clean p"
    and tr: "G w t \<Longrightarrow> tracks norm p (vw t)" for t
    using assms(2) by (auto simp: got_approved_def)
  show ?thesis
    unfolding sign_phase_def using assms(1,3) p
    by (auto intro!: from_rules [where b = w] leaf_rules safe_fail tr safe_Mark [OF g] split: sum.splits)
qed

lemma safe_CoSign:
  assumes "I w" and "clean signer"
  shows "safe I G (\<lambda>_ _. True) w (CoSign svc i signer)"
proof (cases "signer = [] \<or> \<not> signerAllowed (svPolicy svc) signer")
  case True
  then show ?thesis by (auto simp: CoSign_def)
next
  case False
  have rest: "safe I G (\<lambda>_ _. True) t
     (seqP (actP (metrics_Inc n l)) (tryP (appendAudit svc e) (\<lambda>_.
        if pStatus p = TransactionStatusProposed \<and> ApprovalsCount p \<ge> 2
        then sign_phase svc p else Return (Inr p))))"
    if "I t" "got_approved i p t" for t n l e p
    using that by (auto intro!: from_rules [where b = t] leaf_rules safe_sign_phase
        intro: got_approved_stable)
  show ?thesis
    unfolding CoSign_def using False assms(2) within_signers
    by (auto intro!: world_rg.safe_bind [OF safe_now _ assms(1)]
        world_rg.safe_try [OF safe_AddApproval] rest)
qed

lemma safe_Broadcast:
  assumes "I w"
  shows "safe I G (\<lambda>_ _. True) w (Broadcast svc i)"
  unfolding Broadcast_def
proof (rule world_rg.safe_try [OF safe_GetTransaction assms], goal_cases)
  case (2 p t)
  then have p: "wf_proposal p" "custody_ok pol p" "fits clean p" and tr: "tracks norm p (vw t)" by simp_all
  have trs: "tracks norm p (vw u)" if "G t u" for u
    using tr that by (auto simp: custody_step_def intro: tracks_stable)
  have q: "wf_proposal (p\<lparr>pStatus := TransactionStatusBroadcast, pBroadcastHash := h, pUpdatedAt := tm\<rparr>)"
    "custody_ok pol (p\<lparr>pStatus := TransactionStatusBroadcast, pBroadcastHash := h, pUpdatedAt := tm\<rparr>)"
    "tx_step norm p (p\<lparr>pStatus := TransactionStatusBroadcast, pBroadcastHash := h, pUpdatedAt := tm\<rparr>)"
    "fits clean (p\<lparr>pStatus := TransactionStatusBroadcast, pBroadcastHash := h, pUpdatedAt := tm\<rparr>)"
    if "pStatus p = TransactionStatusSigned" "pSignedTransaction p \<noteq> []" for h tm
    using p that
    by (auto simp: wf_proposal_def custody_ok_def tx_step_def ApprovalsCount_def approvals_def fits_def)
  show ?case
    unfolding Let_def
    using 2 p by (auto intro!: from_rules [where b = t] leaf_rules safe_fail safe_update [OF trs] q trs
        split: option.splits sum.splits)
qed simp

end

end
