(* ===== verification/API_Safety.thy ===== *)
theory API_Safety
  imports API_Server Service_Safety
begin

section \<open>Safety of the HTTP handlers\<close>

text \<open>
  Every HTTP request, whatever its method, path, headers and body, runs the service's
  handlers and otherwise touches only metrics, clock and random source: the custody
  invariant and the step relation carry over to any interleaving of HTTP requests.
\<close>

text \<open>The texts of a decoded request are UTF-8.\<close>

lemma str_field_utf8:
  assumes "snd (str_field n (\<lambda>c _. c)) j r x = Inr y" and "strings_ok j" and "utf8_ok x"
  shows "utf8_ok y"
  using assms by (auto simp: str_field_def split: json.splits)

lemma decodeJSON_utf8:
  assumes "decodeJSON L [str_field n (\<lambda>c _. c)] [] r = Inr y"
  shows "utf8_ok y"
proof -
  from assms obtain j rest where j: "parse_value (Suc (length (rqBody r))) (rqBody r) = Some (j, rest)"
    and d: "decode_struct True [str_field n (\<lambda>c _. c)] j (object_raws (rqBody r)) [] = Inr y"
    by (auto simp: decodeJSON_def split: option.splits sum.splits if_splits)
  show ?thesis by (rule decode_struct_keeps [OF d parse_strings_ok(1) [OF j]]) (auto intro: str_field_utf8)
qed

lemma map_sum_Inr: "map_sum f g x = Inr y \<longleftrightarrow> (\<exists>z. x = Inr z \<and> y = g z)"
  by (cases x) auto

lemma request_field_utf8:
  assumes "f \<in> set (request_fields b)" and "snd f j r x = Inr y" and "strings_ok j" and "utf8_ok (rAmount x)"
  shows "utf8_ok (rAmount y)"
  using assms unfolding request_fields_def
  by (auto simp: str_field_def num_field_def utxos_field_def map_sum_Inr split: json.splits option.splits)

lemma decodeJSON_request_utf8:
  assumes "decodeJSON L (request_fields True) zero_request r = Inr rq"
  shows "utf8_ok (rAmount rq)"
proof -
  from assms obtain j rest where j: "parse_value (Suc (length (rqBody r))) (rqBody r) = Some (j, rest)"
    and d: "decode_struct True (request_fields True) j (object_raws (rqBody r)) zero_request = Inr rq"
    by (auto simp: decodeJSON_def split: option.splits sum.splits if_splits)
  show ?thesis
    by (rule decode_struct_keeps [OF d parse_strings_ok(1) [OF j], where Q = "\<lambda>rq. utf8_ok (rAmount rq)"])
      (auto simp: zero_request_def intro: request_field_utf8)
qed

context custody_service
begin

lemma safe_observe: "safe I G (\<lambda>_ _. True) w (actP (metrics_Observe n l d))"
  by (rule safe_pure) (auto simp: metrics_Observe_def)

lemma safe_rand: "safe I G (\<lambda>_ _. True) w (actP (rand_Read n))"
  by (rule safe_pure) (auto simp: rand_Read_def)

lemma safe_answer:
  assumes "I w" and "safe I G (\<lambda>_ _. True) w m"
  shows "safe I G (\<lambda>_ _. True) w (answer st f m)"
  unfolding answer_def using assms by (auto intro!: true_rules split: sum.splits)

lemma safe_service_GetTransaction:
  assumes "I w"
  shows "safe I G (\<lambda>_ _. True) w (service_GetTransaction svc i)"
  unfolding service_GetTransaction_def by (rule world_rg.safe_mono [OF safe_GetTransaction _ assms]) simp

lemma safe_service_ListAuditEvents: "safe I G (\<lambda>_ _. True) w (service_ListAuditEvents svc f)"
  unfolding service_ListAuditEvents_def by (rule safe_ListAuditEvents)

lemmas handler_rules =
  safe_answer safe_CreateWallet safe_ProposeTransaction safe_CoSign safe_Broadcast
  safe_service_GetTransaction safe_service_ListAuditEvents

lemma safe_transactionAction:
  assumes "I w" and "srvService s = svc"
  shows "safe I G (\<lambda>_ _. True) w (transactionAction L s r)"
  using assms(1)
  by (auto simp: assms(2) transactionAction_def api_getTransaction_def api_cosign_def api_broadcast_def
      intro!: handler_rules clean_utf8 decodeJSON_utf8 split: option.splits sum.splits)

lemma safe_serve:
  assumes "I w" and "srvService s = svc"
  shows "safe I G (\<lambda>_ _. True) w (serve L fmt_g fmt_sec mux s trace r)"
proof -
  have "safe I G (\<lambda>_ _. True) w (metricsHandler fmt_g fmt_sec r)"
    unfolding metricsHandler_def using assms(1)
    by (auto intro!: true_rules safe_pure [where Q = "\<lambda>_. True", simplified])
  moreover have "safe I G (\<lambda>_ _. True) w (api_createWallet L s r)"
    using assms(1) by (auto simp: assms(2) api_createWallet_def intro!: handler_rules split: sum.splits)
  moreover have "safe I G (\<lambda>_ _. True) w (api_proposeTransaction L s trace r)"
    using assms(1) by (auto simp: assms(2) api_proposeTransaction_def
        intro!: handler_rules clean_utf8 decodeJSON_request_utf8 split: sum.splits)
  moreover have "safe I G (\<lambda>_ _. True) w (api_listAuditEvents s r)"
    using assms(1) by (auto simp: assms(2) api_listAuditEvents_def Let_def intro!: handler_rules split: option.splits)
  ultimately show ?thesis
    using safe_transactionAction [OF assms, of L r]
    by (simp add: serve_def requireAPIKey_def health_def ready_def Let_def)
qed

lemma safe_new_trace: "I w \<Longrightarrow> safe I G (\<lambda>_ _. True) w (new_trace r)"
  unfolding new_trace_def Let_def by (auto intro!: true_rules safe_rand)

theorem Handler_safe:
  assumes "I w" and "srvService s = svc"
  shows "safe I G (\<lambda>_ _. True) w (Handler L fmt_g fmt_sec other mux s r)"
  unfolding Handler_def Middleware_def Let_def using assms(1)
  by (auto intro!: true_rules leaf_rules safe_observe safe_new_trace safe_serve [OF _ assms(2)])

text \<open>Every interleaving of any HTTP requests, from a state that satisfies the invariant.\<close>

theorem http_interleavings_safe:
  assumes "I w" and "srvService s = svc"
    and "csteps (Handler L fmt_g fmt_sec other mux s) (w, []) (w', ts)"
  shows "I w'"
    and "csteps (Handler L fmt_g fmt_sec other mux s) (w', ts) (w'', ts') \<Longrightarrow> G w' w''"
proof -
  note H = Handler_safe [OF _ assms(2), of _ L fmt_g fmt_sec other mux]
  note reach = world_rg.csteps_safe [OF assms(3,1), where Q = "\<lambda>_ _. True", simplified, OF H]
  then show "I w'" by simp
  show "G w' w''" if "csteps (Handler L fmt_g fmt_sec other mux s) (w', ts) (w'', ts')"
    using world_rg.csteps_safe [OF that, of pol view ok norm "\<lambda>_ _. True"] reach H by auto
qed

end

end
