(* ===== verification/Signing_Demo.thy ===== *)
theory Signing_Demo
  imports External_Libs Service_World
begin

section \<open>The demo signing backend\<close>

text \<open>
  \<^verbatim>\<open>internal/signing/demo.go\<close>: key material per wallet, the quorum gate, the signed envelope
  for UTXO chains and the EIP-1559 transaction for EVM chains. The backend's own reads of
  the random source and of the clock are streams in its state.
\<close>

definition quorumThreshold :: nat where
  "quorumThreshold = 2"

record walletRecord =
  kChain :: Chain
  kPrivate :: PrivateKey
  kPublicKey :: string
  kAddress :: string

record DemoQuorumBackend =
  records :: "(string, walletRecord) gomap"
  evmPrivateKey :: "PrivateKey option"
  b_rand :: "entropy stream"
  b_clock :: "time stream"

type_synonym backend_option = "DemoQuorumBackend \<Rightarrow> error + DemoQuorumBackend"

definition WithEVMPrivateKey :: "'tx External \<Rightarrow> string \<Rightarrow> backend_option" where
  "WithEVMPrivateKey L privateKey backend =
     (if privateKey = [] then Inr backend
      else (case HexToECDSA L (TrimPrefix privateKey ''0x'') of
              Inl err \<Rightarrow> Inl err
            | Inr key \<Rightarrow> Inr (backend\<lparr>evmPrivateKey := Some key\<rparr>)))"

fun apply_options :: "backend_option list \<Rightarrow> DemoQuorumBackend \<Rightarrow> error + DemoQuorumBackend" where
  "apply_options [] backend = Inr backend"
| "apply_options (opt # opts) backend =
     (case opt backend of Inl err \<Rightarrow> Inl err | Inr b \<Rightarrow> apply_options opts b)"

definition NewDemoQuorumBackend ::
  "entropy stream \<Rightarrow> time stream \<Rightarrow> backend_option list \<Rightarrow> error + DemoQuorumBackend" where
  "NewDemoQuorumBackend rnd clk options =
     apply_options options \<lparr>records = [], evmPrivateKey = None, b_rand = rnd, b_clock = clk\<rparr>"

subsection \<open>Wallet material\<close>

definition createPrivateKey ::
  "'tx External \<Rightarrow> Chain \<Rightarrow> DemoQuorumBackend \<Rightarrow> (error + PrivateKey) \<times> DemoQuorumBackend" where
  "createPrivateKey L chain b =
     (if chain = ChainEVM then
        (case evmPrivateKey b of
           Some key \<Rightarrow> (Inr key, b)
         | None \<Rightarrow> (eth_GenerateKey L (shd (b_rand b)), b\<lparr>b_rand := stl (b_rand b)\<rparr>))
      else (ecdsa_GenerateKey L (shd (b_rand b)), b\<lparr>b_rand := stl (b_rand b)\<rparr>))"

definition encodePublicKey :: "'tx External \<Rightarrow> Chain \<Rightarrow> PrivateKey \<Rightarrow> string" where
  "encodePublicKey L chain key =
     (if chain = ChainEVM then hex_EncodeToString (FromECDSAPub L (keyX key) (keyY key))
      else hex_EncodeToString (elliptic_Marshal (keyX key) (keyY key)))"

definition addressFor :: "'tx External \<Rightarrow> Chain \<Rightarrow> PrivateKey \<Rightarrow> string \<Rightarrow> string" where
  "addressFor L chain key pub =
     (let digest = sha256_Sum256 pub in
      if chain = ChainBitcoin then ''tb1q'' @ hex_EncodeToString (take 20 digest)
      else if chain = ChainEVM then PubkeyToAddress_Hex L (keyX key) (keyY key)
      else hex_EncodeToString (take 20 digest))"

definition demo_CreateWallet ::
  "'tx External \<Rightarrow> ctx \<Rightarrow> string \<Rightarrow> Chain \<Rightarrow> DemoQuorumBackend \<Rightarrow>
   (error + WalletMaterial) \<times> DemoQuorumBackend" where
  "demo_CreateWallet L ctx walletID chain b =
     (case ctx of Some err \<Rightarrow> (Inl err, b)
      | None \<Rightarrow>
        (case createPrivateKey L chain b of
           (Inl err, b) \<Rightarrow> (Inl err, b)
         | (Inr key, b) \<Rightarrow>
             (let pub = encodePublicKey L chain key;
                  addr = addressFor L chain key pub;
                  record = \<lparr>kChain = chain, kPrivate = key, kPublicKey = pub, kAddress = addr\<rparr>
              in (Inr \<lparr>mAddress = addr, mPublicKey = pub\<rparr>, b\<lparr>records := gput walletID record (records b)\<rparr>))))"

subsection \<open>Signing\<close>

definition signEVMTransaction ::
  "'tx External \<Rightarrow> TransactionProposal \<Rightarrow> PrivateKey \<Rightarrow> error + Signature" where
  "signEVMTransaction L proposal privateKey =
     (case unmarshal_evm_payload (Payload (pRawTransaction proposal)) of
        Inl e \<Rightarrow> Inl (json_failed L e)
      | Inr payload \<Rightarrow>
      (case big_SetString (eValueWei payload) of
         None \<Rightarrow> Inl (Fresh ''evm value_wei must be a base-10 integer'')
       | Some valueWei \<Rightarrow>
       (case big_SetString (eMaxFeePerGas payload) of
          None \<Rightarrow> Inl (Fresh ''evm max_fee_per_gas must be a base-10 integer'')
        | Some maxFeePerGas \<Rightarrow>
        (case big_SetString (eMaxPriorityFeePerGas payload) of
           None \<Rightarrow> Inl (Fresh ''evm max_priority_fee_per_gas must be a base-10 integer'')
         | Some maxPriorityFeePerGas \<Rightarrow>
         (case hex_DecodeString (TrimPrefix (eData payload) ''0x'') of
            Inl err \<Rightarrow> Inl err
          | Inr dat \<Rightarrow>
            (let tx = \<lparr>txChainID = int (unat (eChainID payload)), txNonce = eNonce payload,
                       txGasTipCap = maxPriorityFeePerGas, txGasFeeCap = maxFeePerGas,
                       txGas = eGasLimit payload, txTo = HexToAddress L (eTo payload),
                       txValue = valueWei, txData = dat\<rparr> in
             case SignTx L tx (int (unat (eChainID payload))) privateKey of
               Inl err \<Rightarrow> Inl err
             | Inr signedTx \<Rightarrow>
                 (case MarshalBinary L signedTx of
                    Inl err \<Rightarrow> Inl err
                  | Inr raw \<Rightarrow> Inr \<lparr>SignedTransaction = ''0x'' @ hex_EncodeToString raw,
                                    SignatureID = Hash_Hex L signedTx\<rparr>)))))))"

text \<open>The signed envelope: a \<^verbatim>\<open>map[string]any\<close>, written with its keys sorted.\<close>

definition envelope_json :: "TransactionProposal \<Rightarrow> byte list \<Rightarrow> byte list \<Rightarrow> time \<Rightarrow> json option" where
  "envelope_json proposal encodedSignature digest t =
     map_json (\<lambda>j. j) (Some
       [(''wallet_id'', Some (JStr (pWalletID proposal))),
        (''chain'', Some (JStr (pChain proposal))),
        (''raw_transaction'', raw_json (Payload (pRawTransaction proposal))),
        (''signature'', Some (JStr (hex_EncodeToString encodedSignature))),
        (''signature_hash'', Some (JStr (hex_EncodeToString digest))),
        (''signer_model'', Some (JStr ''demo-local-key-with-2-of-3-approval-gate'')),
        (''signed_at'', Some (JStr (Format_RFC3339Nano t)))])"

definition sign_envelope ::
  "'tx External \<Rightarrow> TransactionProposal \<Rightarrow> PrivateKey \<Rightarrow> DemoQuorumBackend \<Rightarrow>
   (error + Signature) \<times> DemoQuorumBackend" where
  "sign_envelope L proposal key b =
     (let digest = sha256_Sum256 (Payload (pRawTransaction proposal));
          signed = ecdsa_Sign L (shd (b_rand b)) key digest;
          b = b\<lparr>b_rand := stl (b_rand b)\<rparr>
      in case signed of
           Inl err \<Rightarrow> (Inl err, b)
         | Inr (r, s) \<Rightarrow>
             (let t = shd (b_clock b); b = b\<lparr>b_clock := stl (b_clock b)\<rparr> in
              case envelope_json proposal (asn1_Marshal_signature r s) digest t of
                None \<Rightarrow> (Inl (json_failed L JMarshal), b)
              | Some j \<Rightarrow>
                  (let payload = json_text j in
                   (Inr \<lparr>SignedTransaction = hex_EncodeToString (string_bytes payload),
                         SignatureID = hex_EncodeToString (sha256_Sum256 payload)\<rparr>, b))))"

definition demo_SignTransaction ::
  "'tx External \<Rightarrow> ctx \<Rightarrow> TransactionProposal \<Rightarrow> DemoQuorumBackend \<Rightarrow>
   (error + Signature) \<times> DemoQuorumBackend" where
  "demo_SignTransaction L ctx proposal b =
     (case ctx of Some err \<Rightarrow> (Inl err, b)
      | None \<Rightarrow>
        if ApprovalsCount proposal < quorumThreshold
        then (Inl (Fresh ''2-of-3 quorum has not been reached''), b)
        else (case map_of (records b) (pWalletID proposal) of
                None \<Rightarrow> (Inl (Fresh ''signing wallet material not found''), b)
              | Some record \<Rightarrow>
                  if pChain proposal = ChainEVM
                  then (signEVMTransaction L proposal (kPrivate record), b)
                  else sign_envelope L proposal (kPrivate record) b))"

definition demo_backend :: "'tx External \<Rightarrow> DemoQuorumBackend SigningBackend" where
  "demo_backend L =
     \<lparr>bCreateWallet = demo_CreateWallet L, bSignTransaction = demo_SignTransaction L\<rparr>"

subsection \<open>The backend's contract\<close>

text \<open>
  Material recorded for a wallet is the public form of the key that signs for it; signing
  never changes it, and only \<^verbatim>\<open>CreateWallet\<close> of the same identifier replaces it.
\<close>

definition backend_ok :: "'tx External \<Rightarrow> DemoQuorumBackend \<Rightarrow> bool" where
  "backend_ok L b \<longleftrightarrow> wf_map (records b) \<and>
     (\<forall>(i, r) \<in> set (records b).
        kPublicKey r = encodePublicKey L (kChain r) (kPrivate r) \<and>
        kAddress r = addressFor L (kChain r) (kPrivate r) (kPublicKey r))"

lemma createPrivateKey_records:
  "createPrivateKey L chain b = (r, b') \<Longrightarrow> records b' = records b \<and> evmPrivateKey b' = evmPrivateKey b"
  by (auto simp: createPrivateKey_def split: if_splits option.splits)

lemma demo_CreateWallet_cases:
  assumes "demo_CreateWallet L ctx i chain b = (r, b')"
  obtains (err) e where "r = Inl e" and "records b' = records b"
  | (ok) key rec where "r = Inr \<lparr>mAddress = kAddress rec, mPublicKey = kPublicKey rec\<rparr>"
      and "rec = \<lparr>kChain = chain, kPrivate = key, kPublicKey = encodePublicKey L chain key,
                   kAddress = addressFor L chain key (encodePublicKey L chain key)\<rparr>"
      and "records b' = gput i rec (records b)" and "ctx = None"
  using assms createPrivateKey_records [of L chain b]
  by (auto simp: demo_CreateWallet_def Let_def split: option.splits prod.splits sum.splits)

lemma backend_ok_CreateWallet:
  assumes "backend_ok L b" and "demo_CreateWallet L ctx i chain b = (r, b')"
  shows "backend_ok L b'"
  using assms(2)
proof (cases rule: demo_CreateWallet_cases)
  case err
  with assms(1) show ?thesis by (simp add: backend_ok_def)
next
  case (ok key rec)
  with assms(1) set_gput_subset [of i rec "records b"] show ?thesis
    by (auto simp: backend_ok_def)
qed

lemma sign_envelope_records: "sign_envelope L p key b = (r, b') \<Longrightarrow> records b' = records b"
  by (auto simp: sign_envelope_def Let_def split: sum.splits option.splits)

lemma demo_SignTransaction_records:
  "demo_SignTransaction L ctx p b = (r, b') \<Longrightarrow> records b' = records b"
  by (auto simp: demo_SignTransaction_def sign_envelope_records split: option.splits if_splits)

subsection \<open>Properties\<close>

text \<open>
  C31. The backend itself signs only behind the quorum and only with the wallet's own key:
  below two approvals the call fails and changes nothing, and a signature that is returned was
  made, with a live context, by the key kept for the proposal's wallet, over the payload of the
  proposal; outside EVM it is a JSON envelope in hexadecimal around that payload, with the
  ECDSA signature of its SHA-256 digest. The kept keys never change.
\<close>

theorem signature_needs_quorum:
  assumes "demo_SignTransaction L c p b = (res, b')"
  shows "(ApprovalsCount p < 2 \<longrightarrow> isl res \<and> b' = b) \<and> records b' = records b \<and>
     (res = Inr sig \<longrightarrow> c = None \<and>
       (\<exists>k. map_of (records b) (pWalletID p) = Some k \<and>
         (if pChain p = ChainEVM then signEVMTransaction L p (kPrivate k) = Inr sig
          else \<exists>r s j.
            ecdsa_Sign L (shd (b_rand b)) (kPrivate k) (sha256_Sum256 (Payload (pRawTransaction p))) = Inr (r, s) \<and>
            envelope_json p (asn1_Marshal_signature r s) (sha256_Sum256 (Payload (pRawTransaction p))) (shd (b_clock b)) = Some j \<and>
            hex_DecodeString (SignedTransaction sig) = Inr (string_bytes (json_text j)) \<and>
            SignatureID sig = hex_EncodeToString (sha256_Sum256 (json_text j)))))"
proof (intro conjI impI)
  show "records b' = records b" by (rule demo_SignTransaction_records [OF assms])
  assume "ApprovalsCount p < 2"
  then show "isl res" "b' = b"
    using assms by (auto simp: demo_SignTransaction_def quorumThreshold_def split: option.splits)
next
  assume res: "res = Inr sig"
  then show "c = None" using assms by (auto simp: demo_SignTransaction_def split: option.splits)
  from res assms obtain k where k: "map_of (records b) (pWalletID p) = Some k"
    and sig: "if pChain p = ChainEVM then signEVMTransaction L p (kPrivate k) = Inr sig
       else sign_envelope L p (kPrivate k) b = (Inr sig, b')"
    by (auto simp: demo_SignTransaction_def split: option.splits if_splits)
  have "\<exists>r s j.
      ecdsa_Sign L (shd (b_rand b)) (kPrivate k) (sha256_Sum256 (Payload (pRawTransaction p))) = Inr (r, s) \<and>
      envelope_json p (asn1_Marshal_signature r s) (sha256_Sum256 (Payload (pRawTransaction p))) (shd (b_clock b)) = Some j \<and>
      hex_DecodeString (SignedTransaction sig) = Inr (string_bytes (json_text j)) \<and>
      SignatureID sig = hex_EncodeToString (sha256_Sum256 (json_text j))"
    if "sign_envelope L p (kPrivate k) b = (Inr sig, b')"
    using that by (auto simp: sign_envelope_def Let_def hex_Decode_Encode split: sum.splits option.splits)
  with k sig show "\<exists>k. map_of (records b) (pWalletID p) = Some k \<and>
         (if pChain p = ChainEVM then signEVMTransaction L p (kPrivate k) = Inr sig
          else \<exists>r s j.
            ecdsa_Sign L (shd (b_rand b)) (kPrivate k) (sha256_Sum256 (Payload (pRawTransaction p))) = Inr (r, s) \<and>
            envelope_json p (asn1_Marshal_signature r s) (sha256_Sum256 (Payload (pRawTransaction p))) (shd (b_clock b)) = Some j \<and>
            hex_DecodeString (SignedTransaction sig) = Inr (string_bytes (json_text j)) \<and>
            SignatureID sig = hex_EncodeToString (sha256_Sum256 (json_text j)))"
    by (intro exI [of _ k]) (cases "pChain p = ChainEVM"; simp)
qed

text \<open>
  C32. The address and public key returned for a new wallet are those of the key the backend
  keeps for it, the invariant of the backend is kept, the keys of all other wallets stay, and
  a Bitcoin address is \<^verbatim>\<open>tb1q\<close> followed by 40 hexadecimal digits.
\<close>

theorem wallet_material_is_of_the_kept_key:
  assumes "backend_ok L b" and "demo_CreateWallet L None i chain b = (Inr m, b')"
  shows "backend_ok L b' \<and>
     (\<exists>r. map_of (records b') i = Some r \<and> mPublicKey m = encodePublicKey L chain (kPrivate r) \<and>
        mAddress m = addressFor L chain (kPrivate r) (mPublicKey m)) \<and>
     (\<forall>j. j \<noteq> i \<longrightarrow> map_of (records b') j = map_of (records b) j) \<and>
     (chain = ChainBitcoin \<longrightarrow> (\<exists>h. mAddress m = ''tb1q'' @ h \<and> length h = 40 \<and> set h \<subseteq> set hextable))"
  using assms(2)
proof (cases rule: demo_CreateWallet_cases)
  case (ok key rec)
  have "length (take 20 (sha256_Sum256 x)) = 20" for x by simp
  then have "chain = ChainBitcoin \<longrightarrow> (\<exists>h. mAddress m = ''tb1q'' @ h \<and> length h = 40 \<and> set h \<subseteq> set hextable)"
    using ok(1,2) set_hex_Encode by (auto simp: addressFor_def Let_def)
  with ok backend_ok_CreateWallet [OF assms] show ?thesis by auto
qed simp

end
