(* ===== verification/Chain_Adapters.thy ===== *)
theory Chain_Adapters
  imports External_Libs Service_World
begin

section \<open>Chain adapters\<close>

text \<open>
  \<^verbatim>\<open>internal/chains/bitcoin/bitcoin.go\<close> and \<^verbatim>\<open>internal/chains/evm/evm.go\<close>. The adapters share
  one state: the local nonces of the EVM adapter, the clock they read, and the JSON-RPC
  node behind \<^verbatim>\<open>ethclient\<close>, whose client is a record of functions on the node's state.
\<close>

record 'rpc EthClient =
  DialContext :: "ctx \<Rightarrow> string \<Rightarrow> 'rpc \<Rightarrow> (error + unit) \<times> 'rpc"
  ChainID :: "ctx \<Rightarrow> 'rpc \<Rightarrow> (error + int) \<times> 'rpc"
  PendingNonceAt :: "ctx \<Rightarrow> byte list \<Rightarrow> 'rpc \<Rightarrow> (error + uint64) \<times> 'rpc"
  EstimateGas :: "ctx \<Rightarrow> byte list \<Rightarrow> byte list \<Rightarrow> int \<Rightarrow> byte list \<Rightarrow> 'rpc \<Rightarrow> (error + uint64) \<times> 'rpc"
  SuggestGasPrice :: "ctx \<Rightarrow> 'rpc \<Rightarrow> (error + int) \<times> 'rpc"
  SuggestGasTipCap :: "ctx \<Rightarrow> 'rpc \<Rightarrow> (error + int) \<times> 'rpc"

record 'rpc adapters =
  nonces :: "(string, uint64) gomap"
  ad_clock :: "time stream"
  ad_rpc :: 'rpc

definition ad_now :: "'rpc adapters \<Rightarrow> time \<times> 'rpc adapters" where
  "ad_now st = (shd (ad_clock st), st\<lparr>ad_clock := stl (ad_clock st)\<rparr>)"

text \<open>Sequencing of calls that may fail, and a call of the node.\<close>

definition bindR :: "('s \<Rightarrow> (error + 'a) \<times> 's) \<Rightarrow> ('a \<Rightarrow> 's \<Rightarrow> (error + 'b) \<times> 's) \<Rightarrow> 's \<Rightarrow> (error + 'b) \<times> 's" where
  "bindR m k s = (case m s of (Inl e, s') \<Rightarrow> (Inl e, s') | (Inr x, s') \<Rightarrow> k x s')"

definition on_rpc :: "('rpc \<Rightarrow> 'r \<times> 'rpc) \<Rightarrow> 'rpc adapters \<Rightarrow> 'r \<times> 'rpc adapters" where
  "on_rpc f st = (case f (ad_rpc st) of (r, s) \<Rightarrow> (r, st\<lparr>ad_rpc := s\<rparr>))"

definition retR :: "error + 'a \<Rightarrow> 's \<Rightarrow> (error + 'a) \<times> 's" where
  "retR r s = (r, s)"

subsection \<open>Bitcoin\<close>

record bitcoin_Adapter =
  network :: string

definition bitcoin_NewAdapter :: "string \<Rightarrow> bitcoin_Adapter" where
  "bitcoin_NewAdapter net = \<lparr>network = (if net = [] then ''testnet'' else net)\<rparr>"

definition bitcoin_payload ::
  "bitcoin_Adapter \<Rightarrow> Wallet \<Rightarrow> TransactionRequest \<Rightarrow> int \<Rightarrow> time \<Rightarrow> json option" where
  "bitcoin_payload a source request amountSats t =
     map_json (\<lambda>j. j) (Some
       [(''chain'', Some (JStr ChainBitcoin)), (''network'', Some (JStr (network a))),
        (''from'', Some (JStr (wAddress source))), (''to'', Some (JStr (rTo request))),
        (''amount_sats'', Some (json_int amountSats)),
        (''fee_rate_sats'', Some (json_int (sint (rFeeRateSats request)))),
        (''utxos'', Some (JArr (map utxo_json (rUTXOs request)))),
        (''change_policy'', Some (JStr ''send change back to wallet address'')),
        (''created_at'', Some (JStr (Format_RFC3339Nano t)))])"

definition bitcoin_BuildTransaction ::
  "'tx External \<Rightarrow> bitcoin_Adapter \<Rightarrow> ctx \<Rightarrow> Wallet \<Rightarrow> TransactionRequest \<Rightarrow>
   'rpc adapters \<Rightarrow> (error + RawTransaction) \<times> 'rpc adapters" where
  "bitcoin_BuildTransaction L a ctx source request st =
     (case ctx of Some err \<Rightarrow> (Inl err, st)
      | None \<Rightarrow>
        if rTo request = [] then (Inl (Fresh ''bitcoin destination address is required''), st)
        else if rAmount request = [] then (Inl (Fresh ''bitcoin amount is required''), st)
        else (case ParseInt64 (rAmount request) of
          None \<Rightarrow> (Inl (Fresh ''bitcoin amount must be positive base-10 sats''), st)
        | Some amountSats \<Rightarrow>
          if amountSats \<le> 0 then (Inl (Fresh ''bitcoin amount must be positive base-10 sats''), st)
          else if length (rUTXOs request) = 0
          then (Inl (Fresh ''bitcoin proposal requires at least one utxo''), st)
          else if sint (rFeeRateSats request) \<le> 0
          then (Inl (Fresh ''bitcoin fee_rate_sats must be positive''), st)
          else (case ad_now st of (t, st) \<Rightarrow>
            (case bitcoin_payload a source request amountSats t of
               None \<Rightarrow> (Inl (json_failed L JMarshal), st)
             | Some j \<Rightarrow> (Inr \<lparr>rawChain = ChainBitcoin, Payload = json_text j\<rparr>, st)))))"

definition bitcoin_Broadcast ::
  "ctx \<Rightarrow> string \<Rightarrow> 'rpc adapters \<Rightarrow> (error + string) \<times> 'rpc adapters" where
  "bitcoin_Broadcast ctx signedTransaction st =
     (case ctx of Some err \<Rightarrow> (Inl err, st)
      | None \<Rightarrow>
        if signedTransaction = [] then (Inl (Fresh ''signed transaction is required''), st)
        else (Inr (''btc_'' @ hex_EncodeToString (sha256_Sum256 (''btc:'' @ signedTransaction))), st))"

definition bitcoin_adapter :: "'tx External \<Rightarrow> bitcoin_Adapter \<Rightarrow> 'rpc adapters ChainAdapter" where
  "bitcoin_adapter L a =
     \<lparr>aChain = ChainBitcoin, aBuildTransaction = bitcoin_BuildTransaction L a, aBroadcast = bitcoin_Broadcast\<rparr>"

subsection \<open>EVM\<close>

record evm_Adapter =
  chainID :: uint64
  rpcURL :: string

text \<open>\<^verbatim>\<open>NewAdapter(chainID, rpcURL...)\<close>\<close>

definition evm_NewAdapter :: "uint64 \<Rightarrow> string list \<Rightarrow> evm_Adapter" where
  "evm_NewAdapter cid urls =
     \<lparr>chainID = (if cid = 0 then 31337 else cid), rpcURL = (case urls of [] \<Rightarrow> [] | u # _ \<Rightarrow> u)\<rparr>"

definition trimHexPrefix :: "string \<Rightarrow> string" where
  "trimHexPrefix value =
     (if length value \<ge> 2 \<and> take 2 value = ''0x'' then drop 2 value else value)"

definition nextNonce :: "string \<Rightarrow> 'rpc adapters \<Rightarrow> uint64 \<times> 'rpc adapters" where
  "nextNonce addr st =
     (let nonce = (case map_of (nonces st) addr of None \<Rightarrow> 0 | Some n \<Rightarrow> n)
      in (nonce, st\<lparr>nonces := gput addr (nonce + 1) (nonces st)\<rparr>))"

text \<open>\<^verbatim>\<open>(*big.Int).Uint64\<close>: the low 64 bits of the magnitude.\<close>

definition big_Uint64 :: "int \<Rightarrow> uint64" where
  "big_Uint64 x = of_int \<bar>x\<bar>"

definition populateFromRPC ::
  "'tx External \<Rightarrow> 'rpc EthClient \<Rightarrow> evm_Adapter \<Rightarrow> ctx \<Rightarrow> EVMTransactionPayload \<Rightarrow> int \<Rightarrow>
   TransactionRequest \<Rightarrow> 'rpc adapters \<Rightarrow> (error + EVMTransactionPayload) \<times> 'rpc adapters" where
  "populateFromRPC L C a ctx payload valueWei request =
     bindR (on_rpc (DialContext C ctx (rpcURL a))) (\<lambda>_.
     bindR (on_rpc (ChainID C ctx)) (\<lambda>cid.
     let payload = payload\<lparr>eChainID := big_Uint64 cid\<rparr> in
     bindR (on_rpc (PendingNonceAt C ctx (HexToAddress L (eFrom payload)))) (\<lambda>nonce.
     let payload = payload\<lparr>eNonce := nonce\<rparr> in
     bindR (retR (hex_DecodeString (trimHexPrefix (rData request)))) (\<lambda>dat.
     bindR (if rGasLimit request = 0
            then on_rpc (EstimateGas C ctx (HexToAddress L (eFrom payload)) (HexToAddress L (rTo request)) valueWei dat)
            else retR (Inr (rGasLimit request))) (\<lambda>gasLimit.
     let payload = payload\<lparr>eGasLimit := gasLimit\<rparr> in
     bindR (if rMaxFeePerGas request = []
            then bindR (on_rpc (SuggestGasPrice C ctx)) (\<lambda>gasPrice. retR (Inr (show_int gasPrice)))
            else retR (Inr (rMaxFeePerGas request))) (\<lambda>maxFeePerGas.
     let payload = payload\<lparr>eMaxFeePerGas := maxFeePerGas\<rparr> in
     (\<lambda>st. case on_rpc (SuggestGasTipCap C ctx) st of
            (Inl _, st) \<Rightarrow> (Inr (payload\<lparr>eMaxPriorityFeePerGas := maxFeePerGas\<rparr>), st)
          | (Inr tipCap, st) \<Rightarrow> (Inr (payload\<lparr>eMaxPriorityFeePerGas := show_int tipCap\<rparr>), st))))))))"

text \<open>The fields \<^verbatim>\<open>BuildTransaction\<close> fills before it knows nonce and fees.\<close>

definition evm_base_payload :: "evm_Adapter \<Rightarrow> Wallet \<Rightarrow> TransactionRequest \<Rightarrow> time \<Rightarrow> EVMTransactionPayload" where
  "evm_base_payload a source request t =
     zero_evm_payload\<lparr>eChain := ChainEVM, eChainID := chainID a, eFrom := wAddress source, eTo := rTo request,
       eValueWei := rAmount request, eData := rData request, eType := ''eip1559'',
       eCreatedAt := Format_RFC3339Nano t\<rparr>"

definition evm_BuildTransaction ::
  "'tx External \<Rightarrow> 'rpc EthClient \<Rightarrow> evm_Adapter \<Rightarrow> ctx \<Rightarrow> Wallet \<Rightarrow> TransactionRequest \<Rightarrow>
   'rpc adapters \<Rightarrow> (error + RawTransaction) \<times> 'rpc adapters" where
  "evm_BuildTransaction L C a ctx source request st =
     (case ctx of Some err \<Rightarrow> (Inl err, st)
      | None \<Rightarrow>
        if rTo request = [] then (Inl (Fresh ''evm destination address is required''), st)
        else if rAmount request = [] then (Inl (Fresh ''evm amount is required''), st)
        else (case big_SetString (rAmount request) of
          None \<Rightarrow> (Inl (Fresh ''evm amount must be a positive base-10 wei value''), st)
        | Some valueWei \<Rightarrow>
          if valueWei \<le> 0 then (Inl (Fresh ''evm amount must be a positive base-10 wei value''), st)
          else (case ad_now st of (t, st) \<Rightarrow>
            let payload = evm_base_payload a source request t;
                marshal = (\<lambda>payload st.
                  (Inr \<lparr>rawChain = ChainEVM, Payload = json_text (evm_payload_json payload)\<rparr>, st))
            in
            if rpcURL a = [] then
              if rGasLimit request = 0 then (Inl (Fresh ''evm gas_limit must be positive''), st)
              else if rMaxFeePerGas request = [] then (Inl (Fresh ''evm max_fee_per_gas is required''), st)
              else (case nextNonce (wAddress source) st of (nonce, st) \<Rightarrow>
                marshal (payload\<lparr>eNonce := nonce, eGasLimit := rGasLimit request,
                           eMaxFeePerGas := rMaxFeePerGas request,
                           eMaxPriorityFeePerGas := rMaxFeePerGas request\<rparr>) st)
            else bindR (populateFromRPC L C a ctx payload valueWei request) marshal st)))"

text \<open>\<^verbatim>\<open>client.SendTransaction\<close> needs the type of transactions, so it is an argument of its own.\<close>

definition evm_Broadcast ::
  "'tx External \<Rightarrow> 'rpc EthClient \<Rightarrow> (ctx \<Rightarrow> 'tx \<Rightarrow> 'rpc \<Rightarrow> (error + unit) \<times> 'rpc) \<Rightarrow>
   evm_Adapter \<Rightarrow> ctx \<Rightarrow> string \<Rightarrow> 'rpc adapters \<Rightarrow> (error + string) \<times> 'rpc adapters" where
  "evm_Broadcast L C SendTransaction a ctx signedTransaction st =
     (case ctx of Some err \<Rightarrow> (Inl err, st)
      | None \<Rightarrow>
        if signedTransaction = [] then (Inl (Fresh ''signed transaction is required''), st)
        else if rpcURL a \<noteq> [] then
          bindR (on_rpc (DialContext C ctx (rpcURL a))) (\<lambda>_.
          bindR (retR (hex_DecodeString (trimHexPrefix signedTransaction))) (\<lambda>raw.
          bindR (retR (UnmarshalBinary L raw)) (\<lambda>tx.
          bindR (on_rpc (SendTransaction ctx tx)) (\<lambda>_.
          retR (Inr (Hash_Hex L tx)))))) st
        else (Inr (''0x'' @ hex_EncodeToString (sha256_Sum256 (''evm:'' @ signedTransaction))), st))"

definition evm_adapter ::
  "'tx External \<Rightarrow> 'rpc EthClient \<Rightarrow> (ctx \<Rightarrow> 'tx \<Rightarrow> 'rpc \<Rightarrow> (error + unit) \<times> 'rpc) \<Rightarrow>
   evm_Adapter \<Rightarrow> 'rpc adapters ChainAdapter" where
  "evm_adapter L C send a =
     \<lparr>aChain = ChainEVM, aBuildTransaction = evm_BuildTransaction L C a, aBroadcast = evm_Broadcast L C send a\<rparr>"

subsection \<open>Laws\<close>

lemma trimHexPrefix_TrimPrefix: "trimHexPrefix v = TrimPrefix v ''0x''"
  by (auto simp: trimHexPrefix_def TrimPrefix_def HasPrefix_def numeral_2_eq_2)

text \<open>The nonces handed out for a sequence of calls.\<close>

primrec issue_nonces :: "string list \<Rightarrow> 'rpc adapters \<Rightarrow> uint64 list \<times> 'rpc adapters" where
  "issue_nonces [] st = ([], st)"
| "issue_nonces (addr # addrs) st =
     (case nextNonce addr st of (n, st') \<Rightarrow>
        (case issue_nonces addrs st' of (ns, st'') \<Rightarrow> (n # ns, st'')))"

definition nonce_of :: "'rpc adapters \<Rightarrow> string \<Rightarrow> uint64" where
  "nonce_of st addr = (case map_of (nonces st) addr of None \<Rightarrow> 0 | Some n \<Rightarrow> n)"

lemma nextNonce_eq: "nextNonce addr st = (nonce_of st addr, st\<lparr>nonces := gput addr (nonce_of st addr + 1) (nonces st)\<rparr>)"
  by (simp add: nextNonce_def nonce_of_def Let_def)

lemma nonce_of_next:
  "nextNonce addr st = (n, st') \<Longrightarrow> nonce_of st' b = (if b = addr then nonce_of st addr + 1 else nonce_of st b)"
  by (auto simp: nextNonce_eq nonce_of_def)

text \<open>Call \<open>i\<close> gets the starting nonce plus the number of earlier calls for its address.\<close>

lemma issue_nonces_nth:
  "issue_nonces addrs st = (ns, st') \<Longrightarrow> i < length addrs \<Longrightarrow>
     length ns = length addrs \<and>
     ns ! i = nonce_of st (addrs ! i) + of_nat (count_list (take i addrs) (addrs ! i))"
proof (induction addrs arbitrary: st ns st' i)
  case Nil
  then show ?case by simp
next
  case (Cons a addrs)
  obtain n st1 where n: "nextNonce a st = (n, st1)" by (cases "nextNonce a st")
  obtain ms st2 where ms: "issue_nonces addrs st1 = (ms, st2)" by (cases "issue_nonces addrs st1")
  have ns: "ns = n # ms" using Cons.prems(1) n ms by simp
  have len: "length ms = length addrs" using Cons.IH [OF ms, of 0] ms by (cases addrs) auto
  show ?case
  proof (cases i)
    case 0
    with ns len n show ?thesis by (simp add: nextNonce_eq)
  next
    case (Suc j)
    with Cons.prems(2) have "j < length addrs" by simp
    from Cons.IH [OF ms this] ns Suc nonce_of_next [OF n] show ?thesis by simp
  qed
qed

subsection \<open>Builds in local mode\<close>

text \<open>Without a node a build succeeds for exactly the requests with all the fields.\<close>

definition evm_request_ok :: "TransactionRequest \<Rightarrow> bool" where
  "evm_request_ok r \<longleftrightarrow> rTo r \<noteq> [] \<and> rGasLimit r \<noteq> 0 \<and> rMaxFeePerGas r \<noteq> [] \<and>
     (\<exists>v > 0. big_SetString (rAmount r) = Some v)"

definition evm_local_payload ::
  "evm_Adapter \<Rightarrow> Wallet \<Rightarrow> TransactionRequest \<Rightarrow> time \<Rightarrow> uint64 \<Rightarrow> EVMTransactionPayload" where
  "evm_local_payload a source r t n =
     (evm_base_payload a source r t)\<lparr>eNonce := n, eGasLimit := rGasLimit r, eMaxFeePerGas := rMaxFeePerGas r,
        eMaxPriorityFeePerGas := rMaxFeePerGas r\<rparr>"

lemma evm_Build_local_ok:
  assumes "rpcURL a = []" and "evm_request_ok r"
  shows "evm_BuildTransaction L C a None source r st =
     (Inr \<lparr>rawChain = ChainEVM,
           Payload = json_text (evm_payload_json
             (evm_local_payload a source r (shd (ad_clock st)) (nonce_of st (wAddress source))))\<rparr>,
      st\<lparr>ad_clock := stl (ad_clock st),
         nonces := gput (wAddress source) (nonce_of st (wAddress source) + 1) (nonces st)\<rparr>)"
  using assms
  by (auto simp: evm_BuildTransaction_def evm_request_ok_def evm_local_payload_def nextNonce_eq nonce_of_def
      ad_now_def Let_def split: option.splits)

lemma evm_Build_local_refused:
  assumes "rpcURL a = []" and "\<not> evm_request_ok r"
  shows "isl (fst (evm_BuildTransaction L C a c source r st)) \<and>
     nonces (snd (evm_BuildTransaction L C a c source r st)) = nonces st"
  using assms
  by (auto simp: evm_BuildTransaction_def evm_request_ok_def ad_now_def Let_def split: option.splits)

lemma big_SetString_ascii:
  assumes "big_SetString s = Some v"
  shows "utf8_ok s"
proof (rule utf8_ok_ascii)
  from assms have "list_all is_digit (snd (split_sign s))"
    by (auto simp: big_SetString_def split: prod.splits if_splits)
  then show "list_all (\<lambda>c. ord c < 128) s"
    by (cases s) (auto simp: split_sign_def is_digit_def list_all_iff Let_def split: if_splits)
qed

lemma Format_ascii: "utf8_ok (Format_RFC3339Nano t)"
proof (rule utf8_ok_ascii)
  show "list_all (\<lambda>c. ord c < 128) (Format_RFC3339Nano t)"
    using set_Format [of t] by (auto simp: list_all_iff is_digit_def Let_def)
qed

lemma utf8_local_payload:
  assumes "evm_request_ok r" and "list_all utf8_ok [wAddress source, rTo r, rMaxFeePerGas r, rData r]"
  shows "utf8_payload (evm_local_payload a source r t n)"
  using assms
  by (auto simp: utf8_payload_def evm_local_payload_def evm_base_payload_def evm_request_ok_def ChainEVM_def
      Format_ascii big_SetString_ascii utf8_ok_ascii)

subsection \<open>Properties\<close>

text \<open>
  C33. In local mode the EVM adapter hands out nonces per address without gaps: over any
  sequence of calls of \<^verbatim>\<open>nextNonce\<close>, each gets the address's starting nonce plus the number of
  earlier calls for the same address, modulo the 64 bits of the counter.
\<close>

theorem nonces_are_consecutive:
  assumes "issue_nonces addrs st = (ns, st')" and "i < length addrs"
  shows "ns ! i = nonce_of st (addrs ! i) + of_nat (count_list (take i addrs) (addrs ! i))"
  using issue_nonces_nth [OF assms] by blast


text \<open>
  C35. The Bitcoin adapter builds exactly the requests with a destination, a positive amount
  that fits 64 bits, at least one input and a positive fee rate; it never fails otherwise.
\<close>

theorem bitcoin_build:
  "isl (fst (bitcoin_BuildTransaction L a None source r st)) =
     (\<not> (rTo r \<noteq> [] \<and> (\<exists>v > 0. ParseInt64 (rAmount r) = Some v) \<and> rUTXOs r \<noteq> [] \<and> 0 < sint (rFeeRateSats r)))"
proof -
  have payload: "bitcoin_payload a source r v t \<noteq> None" for v t
    by (simp add: bitcoin_payload_def map_json_def json_object_def omit_def chain_defs)
  have empty: "ParseInt64 [] = None" by (simp add: ParseInt64_def split_sign_def)
  show ?thesis
    by (cases "ParseInt64 (rAmount r)"; cases "rAmount r")
       (auto simp: bitcoin_BuildTransaction_def ad_now_def payload empty split: option.splits)
qed

end
