(* ===== verification/Config.thy ===== *)
theory Config
  imports Go_Json Observability
begin

section \<open>Configuration\<close>

text \<open>
  \<^verbatim>\<open>internal/config/config.go\<close>: the settings read from the environment, a function from
  names to values in which an unset variable is the empty string (\<^verbatim>\<open>os.Getenv\<close>). A
  \<^verbatim>\<open>time.Duration\<close> is a number of nanoseconds; its multiplication wraps at 64 bits.
\<close>

type_synonym environment = "string \<Rightarrow> string"

record Config =
  HTTPAddr :: string
  ServiceName :: string
  Environment :: string
  BroadcastMode :: string
  DatabaseURL :: string
  BitcoinNetwork :: string
  EVMRPCURL :: string
  EVMChainID :: uint64
  EVMDevPrivateKey :: string
  APIKeys :: "string list"
  SignerIDs :: "string list"
  MaxBTCAmountSats :: int
  cfgMaxEVMAmountWei :: "int option"
  ShutdownGraceTime :: int

definition env :: "environment \<Rightarrow> string \<Rightarrow> string \<Rightarrow> string" where
  "env E key fallback = (if E key = [] then fallback else E key)"

definition second :: int where
  "second = 1000000000"

definition envDuration :: "environment \<Rightarrow> string \<Rightarrow> int \<Rightarrow> int" where
  "envDuration E key fallback =
     (if E key = [] then fallback
      else (case ParseInt64 (E key) of
              None \<Rightarrow> fallback
            | Some seconds \<Rightarrow> if seconds \<le> 0 then fallback else wrap_int64 (seconds * second)))"

definition envUint64 :: "environment \<Rightarrow> string \<Rightarrow> uint64 \<Rightarrow> uint64" where
  "envUint64 E key fallback =
     (if E key = [] then fallback
      else (case ParseUint64 (E key) of
              None \<Rightarrow> fallback
            | Some parsed \<Rightarrow> if parsed = 0 then fallback else parsed))"

definition envInt64 :: "environment \<Rightarrow> string \<Rightarrow> int \<Rightarrow> int" where
  "envInt64 E key fallback =
     (if E key = [] then fallback
      else (case ParseInt64 (E key) of
              None \<Rightarrow> fallback
            | Some parsed \<Rightarrow> if parsed < 0 then fallback else parsed))"

definition envBigInt :: "environment \<Rightarrow> string \<Rightarrow> int option" where
  "envBigInt E key =
     (if E key = [] then None
      else (case big_SetString (E key) of
              None \<Rightarrow> None
            | Some parsed \<Rightarrow> if parsed < 0 then None else Some parsed))"

subsection \<open>Lists\<close>

text \<open>
  \<^verbatim>\<open>strings.TrimSpace\<close>: the length of the white space rune at the head of a string, \<open>0\<close>
  where there is none, for the runes \<^verbatim>\<open>unicode.IsSpace\<close> accepts.
\<close>

definition space_len :: "string \<Rightarrow> nat" where
  "space_len s =
     (if take 1 s \<in> {[CHR '' ''], [CHR 0x09], [CHR 0x0A], [CHR 0x0B], [CHR 0x0C], [CHR 0x0D]} then 1
      else if take 2 s \<in> {[CHR 0xC2, CHR 0x85], [CHR 0xC2, CHR 0xA0]} then 2
      else if take 3 s \<in> {[CHR 0xE1, CHR 0x9A, CHR 0x80], [CHR 0xE2, CHR 0x80, CHR 0xA8],
                [CHR 0xE2, CHR 0x80, CHR 0xA9], [CHR 0xE2, CHR 0x80, CHR 0xAF],
                [CHR 0xE2, CHR 0x81, CHR 0x9F], [CHR 0xE3, CHR 0x80, CHR 0x80]} \<or>
              take 2 s = [CHR 0xE2, CHR 0x80] \<and> length s \<ge> 3 \<and> 0x80 \<le> ord (s ! 2) \<and> ord (s ! 2) \<le> 0x8A
           then 3 else 0)"

fun trim_left :: "nat \<Rightarrow> string \<Rightarrow> string" where
  "trim_left 0 s = s"
| "trim_left (Suc n) s = (if space_len s = 0 then s else trim_left n (drop (space_len s) s))"

definition space_suffix :: "string \<Rightarrow> nat" where
  "space_suffix s =
     (case filter (\<lambda>k. k \<le> length s \<and> space_len (drop (length s - k) s) = k) [1, 2, 3] of
        [] \<Rightarrow> 0 | k # _ \<Rightarrow> k)"

fun trim_right :: "nat \<Rightarrow> string \<Rightarrow> string" where
  "trim_right 0 s = s"
| "trim_right (Suc n) s =
     (if space_suffix s = 0 then s else trim_right n (take (length s - space_suffix s) s))"

definition TrimSpace :: "string \<Rightarrow> string" where
  "TrimSpace s = (let t = trim_left (length s) s in trim_right (length t) t)"

definition envList :: "environment \<Rightarrow> string \<Rightarrow> string list" where
  "envList E key =
     (if E key = [] then []
      else filter (\<lambda>item. item \<noteq> []) (map TrimSpace (Split (E key) (CHR '',''))))"

definition Load :: "environment \<Rightarrow> Config" where
  "Load E =
     \<lparr>HTTPAddr = env E ''HTTP_ADDR'' '':8080'',
      ServiceName = env E ''SERVICE_NAME'' ''mpc-custody-api'',
      Environment = env E ''ENVIRONMENT'' ''local'',
      BroadcastMode = env E ''BROADCAST_MODE'' ''mock'',
      DatabaseURL = env E ''DATABASE_URL'' [],
      BitcoinNetwork = env E ''BITCOIN_NETWORK'' ''testnet'',
      EVMRPCURL = env E ''EVM_RPC_URL'' [],
      EVMChainID = envUint64 E ''EVM_CHAIN_ID'' 31337,
      EVMDevPrivateKey = env E ''EVM_DEV_PRIVATE_KEY'' [],
      APIKeys = envList E ''API_KEYS'',
      SignerIDs = envList E ''SIGNER_IDS'',
      MaxBTCAmountSats = envInt64 E ''MAX_BTC_AMOUNT_SATS'' 0,
      cfgMaxEVMAmountWei = envBigInt E ''MAX_EVM_AMOUNT_WEI'',
      ShutdownGraceTime = envDuration E ''SHUTDOWN_GRACE_SECONDS'' (10 * second)\<rparr>"

subsection \<open>Laws\<close>

text \<open>The fuel is enough: nothing that is trimmed ends in white space.\<close>

lemma trim_left_done: "length s \<le> n \<Longrightarrow> space_len (trim_left n s) = 0"
proof (induction n s rule: trim_left.induct)
  case (1 s)
  then show ?case by (simp add: space_len_def)
next
  case (2 n s)
  then show ?case by (cases "space_len s = 0") auto
qed

lemma space_suffix_bounds: "space_suffix s \<le> length s"
  by (auto simp: space_suffix_def)

lemma trim_right_done: "length s \<le> n \<Longrightarrow> space_suffix (trim_right n s) = 0"
proof (induction n s rule: trim_right.induct)
  case (1 s)
  then show ?case by (simp add: space_suffix_def)
next
  case (2 n s)
  then show ?case by (cases "space_suffix s = 0") auto
qed

lemma envList_items: "item \<in> set (envList E key) \<Longrightarrow> item \<noteq> [] \<and> space_suffix item = 0"
  by (auto simp: envList_def TrimSpace_def Let_def trim_right_done split: if_splits)

lemma wrap_int64_id: "- (2 ^ 63) \<le> i \<Longrightarrow> i < 2 ^ 63 \<Longrightarrow> wrap_int64 i = i"
  by (simp add: wrap_int64_def)

lemma trim_right_prefix: "\<exists>k. trim_right n s = take k s"
proof (induction n s rule: trim_right.induct)
  case (1 s)
  then show ?case by (auto intro: exI [of _ "length s"])
next
  case (2 n s)
  then show ?case by (cases "space_suffix s = 0") (auto intro: exI [of _ "length s"] simp: min_def)
qed

lemma space_len_head: "space_len (a # b # c # s) = space_len [a, b, c]"
  by (simp add: space_len_def)

lemma space_len_short:
  "space_len (a # b # s) = 0 \<Longrightarrow> space_len [a, b] = 0" "space_len (a # s) = 0 \<Longrightarrow> space_len [a] = 0" "space_len [] = 0"
  by (cases s; simp add: space_len_def split: if_splits)+

lemma space_len_take:
  assumes "space_len s = 0"
  shows "space_len (take k s) = 0"
proof -
  consider "k = 0" | "k = 1" | "k = 2" | m where "k = Suc (Suc (Suc m))"
    by (metis One_nat_def Suc_1 not0_implies_Suc)
  then show ?thesis
  proof cases
    case 2
    with assms show ?thesis by (cases s) (auto dest: space_len_short(2))
  next
    case 3
    with assms show ?thesis
      by (cases s; cases "tl s") (auto simp: numeral_2_eq_2 intro: space_len_short(1))
  next
    case (4 m)
    consider "length s \<le> 2" | a b c t where "s = a # b # c # t"
      by (cases s; cases "tl s"; cases "tl (tl s)") auto
    then show ?thesis
    proof cases
      case 1
      with assms 4 show ?thesis by simp
    next
      case (2 a b c t)
      have "space_len (take k s) = space_len [a, b, c]" unfolding 2 4 take_Suc_Cons by (rule space_len_head)
      also have "\<dots> = space_len s" unfolding 2 by (rule space_len_head [symmetric])
      finally show ?thesis using assms by simp
    qed
  qed (simp add: space_len_short)
qed

lemma trim_left_set: "set (trim_left n s) \<subseteq> set s"
proof (induction n s rule: trim_left.induct)
  case (2 n s)
  then show ?case using set_drop_subset [of "space_len s" s] by (cases "space_len s = 0") auto
qed simp

text \<open>An item of a list setting: not empty, without white space at either end, without a comma.\<close>

lemma envList_item:
  assumes "item \<in> set (envList E key)"
  shows "item \<noteq> []" and "space_len item = 0" and "space_suffix item = 0" and "CHR '','' \<notin> set item"
proof -
  from assms obtain p where p: "p \<in> set (Split (E key) (CHR '',''))" and item: "item = TrimSpace p" "item \<noteq> []"
    by (auto simp: envList_def split: if_splits)
  let ?t = "trim_left (length p) p"
  obtain k where k: "item = take k ?t" using trim_right_prefix [of "length ?t" ?t] by (auto simp: item(1) TrimSpace_def Let_def)
  show "item \<noteq> []" by (rule item(2))
  show "space_len item = 0" unfolding k by (intro space_len_take trim_left_done) simp
  show "space_suffix item = 0" unfolding item(1) TrimSpace_def Let_def by (intro trim_right_done) simp
  have "set ?t \<subseteq> set p" by (rule trim_left_set)
  then have "set item \<subseteq> set p" using set_take_subset [of k ?t] k by auto
  then show "CHR '','' \<notin> set item" using Split_parts [OF p] by blast
qed

subsection \<open>Properties\<close>

text \<open>
  C40. Whatever the environment holds, the configuration is in range: the chain identifier is
  never zero, the Bitcoin cap is a non-negative 64-bit number and the EVM cap is not negative,
  every API key and every signer is non-empty and has neither a comma nor white space at its
  ends; the grace period is a positive duration, unless the number of seconds exceeds
  9223372036, where the multiplication wraps.
\<close>

theorem configuration_in_range:
  "EVMChainID (Load E) \<noteq> 0 \<and> 0 \<le> MaxBTCAmountSats (Load E) \<and> MaxBTCAmountSats (Load E) < 2 ^ 63 \<and>
   (cfgMaxEVMAmountWei (Load E) = Some m \<longrightarrow> 0 \<le> m) \<and>
   (\<forall>item \<in> set (APIKeys (Load E)) \<union> set (SignerIDs (Load E)).
      item \<noteq> [] \<and> space_len item = 0 \<and> space_suffix item = 0 \<and> CHR '','' \<notin> set item) \<and>
   (0 < ShutdownGraceTime (Load E) \<and> ShutdownGraceTime (Load E) < 2 ^ 63 \<or>
    (\<exists>n. ParseInt64 (E ''SHUTDOWN_GRACE_SECONDS'') = Some n \<and> 9223372036 < n \<and>
       ShutdownGraceTime (Load E) = wrap_int64 (n * 1000000000)))"
proof (intro conjI)
  show "EVMChainID (Load E) \<noteq> 0" by (simp add: Load_def envUint64_def split: option.splits)
  show "0 \<le> MaxBTCAmountSats (Load E)" "MaxBTCAmountSats (Load E) < 2 ^ 63"
    using ParseInt64_range by (auto simp: Load_def envInt64_def split: option.splits)
  show "cfgMaxEVMAmountWei (Load E) = Some m \<longrightarrow> 0 \<le> m"
    by (auto simp: Load_def envBigInt_def split: option.splits if_splits)
  show "\<forall>item \<in> set (APIKeys (Load E)) \<union> set (SignerIDs (Load E)).
      item \<noteq> [] \<and> space_len item = 0 \<and> space_suffix item = 0 \<and> CHR '','' \<notin> set item"
    using envList_item by (auto simp: Load_def)
  show "0 < ShutdownGraceTime (Load E) \<and> ShutdownGraceTime (Load E) < 2 ^ 63 \<or>
    (\<exists>n. ParseInt64 (E ''SHUTDOWN_GRACE_SECONDS'') = Some n \<and> 9223372036 < n \<and>
       ShutdownGraceTime (Load E) = wrap_int64 (n * 1000000000))"
    by (auto simp: Load_def envDuration_def second_def wrap_int64_id split: option.splits)
qed

text \<open>A cap that cannot be read is no cap, and a large grace period is negative.\<close>

theorem configuration_in_range_witness:
  "0 \<le> MaxBTCAmountSats (Load (\<lambda>k. ''9223372037'')) \<and> ShutdownGraceTime (Load (\<lambda>k. ''9223372037'')) < 0 \<and>
   [] \<notin> set (SignerIDs (Load (\<lambda>k. '' a ,,b'')))"
proof -
  let ?E = "\<lambda>k. ''9223372037''" and ?F = "\<lambda>k. '' a ,,b''"
  have "ParseInt64 ''9223372037'' = Some 9223372037"
    by (simp add: ParseInt64_def big_SetString_def split_sign_def is_digit_def dec_val_def digit_val_def)
  then have wrapped: "ShutdownGraceTime (Load ?E) < 0"
    by (simp add: Load_def envDuration_def second_def wrap_int64_def)
  have cap: "0 \<le> MaxBTCAmountSats (Load ?E)" using configuration_in_range [of ?E 0] by (elim conjE)
  have "\<forall>item \<in> set (APIKeys (Load ?F)) \<union> set (SignerIDs (Load ?F)).
      item \<noteq> [] \<and> space_len item = 0 \<and> space_suffix item = 0 \<and> CHR '','' \<notin> set item"
    using configuration_in_range [of ?F 0] by (elim conjE)
  then have "[] \<notin> set (SignerIDs (Load ?F))" by blast
  with wrapped cap show ?thesis by simp
qed

end
