(* ===== verification/Custody_System.thy ===== *)
theory Custody_System
  imports Memory_Store API_Safety Signing_Demo Chain_Adapters Config
begin

section \<open>The assembled program\<close>

text \<open>
  \<^verbatim>\<open>cmd/custody-api/main.go\<close>: the configuration decides the store, the policy, the chain
  registry and the signer; the parts become one service and one HTTP handler. The streams
  of random values, times and context states, and the state of the JSON-RPC node, are the
  program's surroundings.
\<close>

definition signerSet :: "string list \<Rightarrow> (string, unit) gomap" where
  "signerSet signers = foldl (\<lambda>acc signer. gput signer () acc) [] signers"

definition cloneBigInt :: "int option \<Rightarrow> int option" where
  "cloneBigInt value = (case value of None \<Rightarrow> None | Some v \<Rightarrow> Some v)"

definition system_policy :: "Config \<Rightarrow> Policy" where
  "system_policy cfg =
     \<lparr>AllowedSigners = signerSet (SignerIDs cfg), MaxBitcoinAmountSats = MaxBTCAmountSats cfg,
      MaxEVMAmountWei = cloneBigInt (cfgMaxEVMAmountWei cfg)\<rparr>"

type_synonym ('tx, 'rpc) sender = "ctx \<Rightarrow> 'tx \<Rightarrow> 'rpc \<Rightarrow> (error + unit) \<times> 'rpc"

definition system_registry ::
  "'tx External \<Rightarrow> 'rpc EthClient \<Rightarrow> ('tx, 'rpc) sender \<Rightarrow> Config \<Rightarrow> 'rpc adapters ChainRegistry" where
  "system_registry L C send cfg =
     NewChainRegistry
       [bitcoin_adapter L (bitcoin_NewAdapter (BitcoinNetwork cfg)),
        evm_adapter L C send (evm_NewAdapter (EVMChainID cfg) [EVMRPCURL cfg])]"

definition system_service ::
  "'st Store \<Rightarrow> 'tx External \<Rightarrow> 'rpc EthClient \<Rightarrow> ('tx, 'rpc) sender \<Rightarrow> Config \<Rightarrow>
   ('st, DemoQuorumBackend, 'rpc adapters) Service" where
  "system_service store L C send cfg =
     NewService store (system_registry L C send cfg) (demo_backend L) [WithPolicy (system_policy cfg)]"

definition system_server ::
  "'st Store \<Rightarrow> 'tx External \<Rightarrow> 'rpc EthClient \<Rightarrow> ('tx, 'rpc) sender \<Rightarrow> Config \<Rightarrow>
   ('st, DemoQuorumBackend, 'rpc adapters) Server" where
  "system_server store L C send cfg =
     NewServer (system_service store L C send cfg) [WithAPIKeys (APIKeys cfg)]"

text \<open>\<^verbatim>\<open>openStore\<close>: which store the program runs on; opening PostgreSQL may fail.\<close>

datatype 'pg opened = UseMemory MemoryStore | UsePostgres 'pg

definition openStore :: "(string \<Rightarrow> error + 'pg) \<Rightarrow> Config \<Rightarrow> error + 'pg opened" where
  "openStore OpenPostgres cfg =
     (if DatabaseURL cfg = [] then Inr (UseMemory NewMemoryStore)
      else (case OpenPostgres (DatabaseURL cfg) of Inl err \<Rightarrow> Inl err | Inr pg \<Rightarrow> Inr (UsePostgres pg)))"

text \<open>What surrounds the process.\<close>

record 'rpc surroundings =
  env_rand :: "entropy stream"
  env_clock :: "time stream"
  env_ctx :: "ctx stream"
  env_signer_rand :: "entropy stream"
  env_signer_clock :: "time stream"
  env_adapter_clock :: "time stream"
  env_rpc :: 'rpc

text \<open>
  The state \<^verbatim>\<open>main\<close> has built when the server starts to listen, on a store that has been
  opened; \<open>boot\<close> is the case of the in-memory store.
\<close>

type_synonym 'rpc system = "(MemoryStore, DemoQuorumBackend, 'rpc adapters) world"

definition boot_on ::
  "'st \<Rightarrow> 'tx External \<Rightarrow> Config \<Rightarrow> 'rpc surroundings \<Rightarrow> error + ('st, DemoQuorumBackend, 'rpc adapters) world" where
  "boot_on store L cfg e =
     (case NewDemoQuorumBackend (env_signer_rand e) (env_signer_clock e) [WithEVMPrivateKey L (EVMDevPrivateKey cfg)] of
        Inl err \<Rightarrow> Inl err
      | Inr signer \<Rightarrow>
          Inr \<lparr>w_store = store, w_signer = signer,
               w_adapters = \<lparr>nonces = [], ad_clock = env_adapter_clock e, ad_rpc = env_rpc e\<rparr>,
               w_metrics = NewMetrics, w_rand = env_rand e, w_clock = env_clock e, w_ctx = env_ctx e\<rparr>)"

definition boot :: "'tx External \<Rightarrow> Config \<Rightarrow> 'rpc surroundings \<Rightarrow> error + 'rpc system" where
  "boot L cfg e = boot_on NewMemoryStore L cfg e"

lemma boot_on_store: "boot_on store L cfg e = Inr w \<Longrightarrow> w_store w = store"
  by (auto simp: boot_on_def split: sum.splits)

subsection \<open>The assembled service meets its contracts\<close>

lemma set_signerSet: "set (gkeys (signerSet signers)) = set signers"
  unfolding signerSet_def by (induction signers rule: rev_induct) (auto simp: dom_update)

lemma signerSet_empty [simp]: "signerSet signers = [] \<longleftrightarrow> signers = []"
  using set_signerSet [of signers] by (cases signers) auto

text \<open>Who may approve: anyone when no signers are configured, otherwise the configured ones.\<close>

lemma signerAllowed_system:
  "signerAllowed (system_policy cfg) signer \<longleftrightarrow> SignerIDs cfg = [] \<or> signer \<in> set (SignerIDs cfg)"
  using set_signerSet [of "SignerIDs cfg"]
  by (auto simp: signerAllowed_def system_policy_def map_of_eq_None_iff)

lemma system_service_fields [simp]:
  "svStore (system_service store L C send cfg) = store"
  "svPolicy (system_service store L C send cfg) = system_policy cfg"
  "svChains (system_service store L C send cfg) = system_registry L C send cfg"
  "svSigner (system_service store L C send cfg) = demo_backend L"
  by (simp_all add: system_service_def NewService_def WithPolicy_def)

lemma system_server_fields [simp]:
  "srvService (system_server store L C send cfg) = system_service store L C send cfg"
  "apiKeys (system_server store L C send cfg) = APIKeys cfg"
  by (simp_all add: system_server_def NewServer_def WithAPIKeys_def)

lemma system_registry_Get:
  "registry_Get (system_registry L C send cfg) chain =
     (if chain = ChainEVM then Some (evm_adapter L C send (evm_NewAdapter (EVMChainID cfg) [EVMRPCURL cfg]))
      else if chain = ChainBitcoin then Some (bitcoin_adapter L (bitcoin_NewAdapter (BitcoinNetwork cfg)))
      else None)"
  by (simp add: system_registry_def NewChainRegistry_def registry_Get_def bitcoin_adapter_def evm_adapter_def)

interpretation sys: custody_service memory_store mem_view mem_ok idempotencyKey "\<lambda>_. True" Pair
    "system_service memory_store L C send cfg" "system_policy cfg" for L C send cfg
  by unfold_locales simp_all

lemma boot_inv:
  assumes "boot L cfg e = Inr w"
  shows "custody_inv (system_policy cfg) mem_view mem_ok w"
  using assms
  by (auto simp: boot_def dest!: boot_on_store) (simp add: custody_inv_def view_ok_def mem_view_def NewMemoryStore_def mem_ok_def)

text \<open>The states the running program can be in: any requests, any interleaving of their steps.\<close>

definition system_reach ::
  "'tx External \<Rightarrow> 'rpc EthClient \<Rightarrow> ('tx, 'rpc) sender \<Rightarrow> (nat \<Rightarrow> string) \<Rightarrow> (int \<Rightarrow> string) \<Rightarrow> (nat \<Rightarrow> string) \<Rightarrow>
   (http_request \<Rightarrow> http_response) \<Rightarrow> Config \<Rightarrow> 'rpc surroundings \<Rightarrow>
   ('rpc system, string \<times> http_response) config \<Rightarrow> bool" where
  "system_reach L C send fmt_g fmt_sec other mux cfg e c \<longleftrightarrow>
     (\<exists>w. boot L cfg e = Inr w \<and>
        csteps (Handler L fmt_g fmt_sec other mux (system_server memory_store L C send cfg)) (w, []) c)"

lemma system_reach_inv:
  assumes "system_reach L C send fmt_g fmt_sec other mux cfg e (w, ts)"
  shows "custody_inv (system_policy cfg) mem_view mem_ok w"
  using assms sys.http_interleavings_safe(1) [OF _ system_server_fields(1), simplified]
  by (auto simp: system_reach_def dest!: boot_inv)

lemma system_reach_step:
  assumes "system_reach L C send fmt_g fmt_sec other mux cfg e (w, ts)"
    and "csteps (Handler L fmt_g fmt_sec other mux (system_server memory_store L C send cfg)) (w, ts) (w', ts')"
  shows "view_step Pair (mem_view (w_store w)) (mem_view (w_store w'))"
proof -
  from assms(1) obtain w0 where "custody_inv (system_policy cfg) mem_view mem_ok w0"
    and "csteps (Handler L fmt_g fmt_sec other mux (system_server memory_store L C send cfg)) (w0, []) (w, ts)"
    by (auto simp: system_reach_def dest!: boot_inv)
  with sys.http_interleavings_safe(2) [OF _ system_server_fields(1), simplified] assms(2)
  show ?thesis by (auto simp: custody_step_def)
qed

lemma system_tx:
  assumes "system_reach L C send fmt_g fmt_sec other mux cfg e (w, ts)"
    and "transactions (w_store w) i = Some p"
  shows "custody_ok (system_policy cfg) p" and "wf_proposal p" and "pID p = i"
    and "\<exists>x. wallets (w_store w) (pWalletID p) = Some x \<and> wChain x = pChain p"
  using system_reach_inv [OF assms(1)] assms(2)
  by (auto simp: custody_inv_def view_ok_def mem_ok_def)

end
