(* ===== verification/Service_Behaviour.thy ===== *)
theory Service_Behaviour
  imports Wallet_Service Memory_Store
begin

section \<open>What the handlers do when run alone\<close>

text \<open>
  The results and effects of the service's handlers on the in-memory store, one request at
  a time, while the context is live and the random source works: liveness of the
  two-approval flow, idempotent replay, and the audit trail each handler leaves.
\<close>

definition lively :: "(error + (nat \<Rightarrow> byte)) stream \<Rightarrow> bool" where
  "lively r \<longleftrightarrow> (\<forall>x \<in> sset r. \<not> isl x)"

definition calm :: "('st, 'sg, 'ad) world \<Rightarrow> bool" where
  "calm w \<longleftrightarrow> w_ctx w = sconst None \<and> lively (w_rand w)"

lemma lively_stl [simp]: "lively r \<Longrightarrow> lively (stl r)"
  by (simp add: lively_def stl_sset)

lemma lively_shd: "lively r \<Longrightarrow> \<not> isl (shd r)"
  by (simp add: lively_def shd_sset)

definition next_id :: "string \<Rightarrow> ('st, 'sg, 'ad) world \<Rightarrow> string" where
  "next_id prefix w = prefix @ ''_'' @ hex_EncodeToString (map (projr (shd (w_rand w))) [0..<16])"

lemma on_store_calm:
  "w_ctx w = sconst None \<Longrightarrow>
     on_store f w = (fst (f None (w_store w)), w\<lparr>w_store := snd (f None (w_store w))\<rparr>)"
  by (cases "f None (w_store w)") (simp add: on_store_def)

lemma on_signer_calm:
  "w_ctx w = sconst None \<Longrightarrow>
     on_signer f w = (fst (f None (w_signer w)), w\<lparr>w_signer := snd (f None (w_signer w))\<rparr>)"
  by (cases "f None (w_signer w)") (simp add: on_signer_def)

lemma on_adapters_calm:
  "w_ctx w = sconst None \<Longrightarrow>
     on_adapters f w = (fst (f None (w_adapters w)), w\<lparr>w_adapters := snd (f None (w_adapters w))\<rparr>)"
  by (cases "f None (w_adapters w)") (simp add: on_adapters_def)

lemma ids_New_calm:
  assumes "calm w"
  shows "ids_New prefix w = (Inr (next_id prefix w), w\<lparr>w_rand := stl (w_rand w)\<rparr>)"
proof -
  have "\<not> isl (shd (w_rand w))" using assms by (simp add: calm_def lively_shd)
  then show ?thesis
    by (cases "shd (w_rand w)") (simp_all add: ids_New_def rand_Read_def next_id_def)
qed

lemma calm_rand [simp]: "calm w \<Longrightarrow> lively (w_rand w)"
  by (simp add: calm_def)

lemma calm_ctx [simp]: "calm w \<Longrightarrow> w_ctx w = sconst None"
  by (simp add: calm_def)

lemma calm_update [simp]:
  "calm (w\<lparr>w_store := x\<rparr>) = calm w" "calm (w\<lparr>w_signer := sg\<rparr>) = calm w"
  "calm (w\<lparr>w_adapters := ad\<rparr>) = calm w" "calm (w\<lparr>w_metrics := m\<rparr>) = calm w"
  "calm (w\<lparr>w_clock := c\<rparr>) = calm w"
  unfolding calm_def by (simp_all del: calm_rand calm_ctx)

lemma calm_put_rand [simp]: "calm (w\<lparr>w_rand := r\<rparr>) \<longleftrightarrow> w_ctx w = sconst None \<and> lively r"
  unfolding calm_def by (simp del: calm_rand calm_ctx)

text \<open>Recording an event, and what it leaves alone.\<close>

definition audited :: "AuditEvent \<Rightarrow> (MemoryStore, 'sg, 'ad) world \<Rightarrow> (MemoryStore, 'sg, 'ad) world" where
  "audited e w =
     w\<lparr>w_rand := stl (w_rand w), w_clock := stl (w_clock w),
       w_store := (w_store w)\<lparr>auditEvents := auditEvents (w_store w) @
                    [e\<lparr>vID := next_id ''aud'' w, vCreatedAt := shd (w_clock w)\<rparr>]\<rparr>,
       w_metrics := Inc ''custody_audit_events_total'' [(''type'', vType e)] (w_metrics w)\<rparr>"

lemma appendAudit_calm:
  assumes "calm w" and "svStore s = memory_store"
  shows "exec (appendAudit s e) w = (Inr (), audited e w)"
  using assms
  by (simp add: appendAudit_def ids_New_calm now_def on_store_calm calm_ctx AppendAuditEvent_def
      metrics_Inc_def audited_def Let_def)

lemma audited_simps [simp]:
  "transactions (w_store (audited e w)) = transactions (w_store w)"
  "wallets (w_store (audited e w)) = wallets (w_store w)"
  "idempotency (w_store (audited e w)) = idempotency (w_store w)"
  "w_signer (audited e w) = w_signer w" "w_adapters (audited e w) = w_adapters w"
  "w_ctx (audited e w) = w_ctx w" "map vType (auditEvents (w_store (audited e w))) = map vType (auditEvents (w_store w)) @ [vType e]"
  "calm w \<Longrightarrow> calm (audited e w)"
  by (simp_all add: audited_def)

lemma mem_ok_audited [simp]: "mem_ok (w_store (audited e w)) = mem_ok (w_store w)"
  by (simp add: mem_ok_def)

lemma audit_event_type [simp]: "vType (audit_event ty a rt ri ch m) = ty"
  by (simp add: audit_event_def)

subsection \<open>Approving\<close>

text \<open>The approval a signer gives now, and the world once it is recorded and audited.\<close>

definition approval_now :: "string \<Rightarrow> ('st, 'sg, 'ad) world \<Rightarrow> Approval" where
  "approval_now signer w = \<lparr>SignerID = signer, aCreatedAt = shd (w_clock w)\<rparr>"

definition after_approval ::
  "string \<Rightarrow> TransactionProposal \<Rightarrow> (MemoryStore, 'sg, 'ad) world \<Rightarrow> (MemoryStore, 'sg, 'ad) world" where
  "after_approval signer p w =
     (let q = approve (approval_now signer w) p in
      audited (audit_event AuditEventTransactionApproved signer ''transaction'' (pID q) (pChain q) [])
        (w\<lparr>w_clock := stl (w_clock w),
           w_store := (w_store w)\<lparr>transactions := (transactions (w_store w))(pID p \<mapsto> q)\<rparr>,
           w_metrics := Inc ''custody_transaction_approvals_total'' [(''chain'', pChain q)] (w_metrics w)\<rparr>))"

text \<open>When an approval is accepted.\<close>

definition may_approve ::
  "Policy \<Rightarrow> string \<Rightarrow> TransactionProposal \<Rightarrow> bool" where
  "may_approve pol signer p \<longleftrightarrow>
     signer \<noteq> [] \<and> signerAllowed pol signer \<and> pStatus p = TransactionStatusProposed \<and>
     signer \<notin> set (gkeys (approvals p))"

lemma exec_CoSign:
  assumes "calm w" and "svStore s = memory_store" and "mem_ok (w_store w)"
    and "transactions (w_store w) i = Some p" and "may_approve (svPolicy s) signer p"
  shows "exec (CoSign s i signer) w =
     (if 2 \<le> ApprovalsCount (approve (approval_now signer w) p)
      then exec (sign_phase s (approve (approval_now signer w) p)) (after_approval signer p w)
      else (Inr (approve (approval_now signer w) p), after_approval signer p w))"
proof -
  let ?a = "approval_now signer w"
  have i: "i = pID p" using assms(3,4) by (auto simp: mem_ok_def)
  have add: "AddApproval None (pID p) ?a (w_store w) =
      (Inr (approve ?a p), (w_store w)\<lparr>transactions := (transactions (w_store w))(pID p \<mapsto> approve ?a p)\<rparr>)"
    using assms i by (intro mem_AddApproval_live) (auto simp: may_approve_def approval_now_def)
  show ?thesis
    using assms(1,2,5) add unfolding i may_approve_def
    by (simp add: CoSign_def now_def on_store_calm calm_ctx metrics_Inc_def appendAudit_calm
        after_approval_def Let_def flip: approval_now_def)
qed

text \<open>Why an approval is not accepted.\<close>

definition cosign_refusal :: "Policy \<Rightarrow> MemoryStore \<Rightarrow> string \<Rightarrow> string \<Rightarrow> error" where
  "cosign_refusal pol st i signer =
     (if signer = [] then Fresh ''signer_id is required''
      else if \<not> signerAllowed pol signer then wrapf ErrUnauthorizedSigner signer
      else (case transactions st i of
              None \<Rightarrow> ErrTransactionNotFound
            | Some p \<Rightarrow> if pStatus p \<noteq> TransactionStatusProposed then ErrTransactionNotProposed
                        else ErrDuplicateApproval))"

lemma exec_CoSign_refused:
  assumes "svStore s = memory_store" and "shd (w_ctx w) = None"
    and "\<not> (\<exists>p. transactions (w_store w) i = Some p \<and> may_approve (svPolicy s) signer p)"
  shows "fst (exec (CoSign s i signer) w) = Inl (cosign_refusal (svPolicy s) (w_store w) i signer)"
    and "w_store (snd (exec (CoSign s i signer) w)) = w_store w"
    and "w_signer (snd (exec (CoSign s i signer) w)) = w_signer w"
  using assms
  by (auto simp: CoSign_def now_def on_store_def AddApproval_def may_approve_def approvals_def
      cosign_refusal_def map_of_eq_None_iff Let_def split: option.splits if_splits)

lemma after_approval_simps [simp]:
  "transactions (w_store (after_approval signer p w)) =
     (transactions (w_store w))(pID p \<mapsto> approve (approval_now signer w) p)"
  "wallets (w_store (after_approval signer p w)) = wallets (w_store w)"
  "w_signer (after_approval signer p w) = w_signer w" "w_adapters (after_approval signer p w) = w_adapters w"
  "map vType (auditEvents (w_store (after_approval signer p w))) =
     map vType (auditEvents (w_store w)) @ [AuditEventTransactionApproved]"
  "calm w \<Longrightarrow> calm (after_approval signer p w)"
  by (simp_all add: after_approval_def Let_def)

lemma mem_ok_after_approval:
  "mem_ok (w_store w) \<Longrightarrow> wf_proposal p \<Longrightarrow> mem_ok (w_store (after_approval signer p w))"
  by (auto simp: mem_ok_def intro: wf_approve)

subsection \<open>Signing\<close>

definition signed_as :: "Signature \<Rightarrow> TransactionProposal \<Rightarrow> TransactionProposal" where
  "signed_as sig q = sign_as (SignedTransaction sig) (latest_approval (approvals q) (pUpdatedAt q)) q"

text \<open>The signing phase with a backend that signs, and with one that refuses.\<close>

lemma exec_sign_phase_ok:
  assumes "calm w" and "svStore s = memory_store" and "mem_ok (w_store w)"
    and "transactions (w_store w) (pID q) = Some q" and "pStatus q = TransactionStatusProposed"
    and "bSignTransaction (svSigner s) None q (w_signer w) = (Inr sig, sg)"
  shows "\<exists>w'. exec (sign_phase s q) w = (Inr (signed_as sig q), w') \<and>
     transactions (w_store w') = (transactions (w_store w))(pID q \<mapsto> signed_as sig q) \<and>
     map vType (auditEvents (w_store w')) = map vType (auditEvents (w_store w)) @ [AuditEventTransactionSigned] \<and>
     wallets (w_store w') = wallets (w_store w) \<and> w_signer w' = sg \<and> calm w'"
  using assms
  by (simp add: sign_phase_def on_signer_calm on_store_calm calm_ctx mem_MarkTransactionSigned_live
      metrics_Inc_def appendAudit_calm signed_as_def Let_def)

lemma exec_sign_phase_fail:
  assumes "calm w" and "svStore s = memory_store" and "mem_ok (w_store w)"
    and "transactions (w_store w) (pID q) = Some q"
    and "bSignTransaction (svSigner s) None q (w_signer w) = (Inl err, sg)"
  shows "\<exists>w' t. exec (sign_phase s q) w = (Inl err, w') \<and>
     transactions (w_store w') = (transactions (w_store w))(pID q \<mapsto>
       q\<lparr>pStatus := TransactionStatusFailed, pError := Error err, pUpdatedAt := t\<rparr>) \<and>
     map vType (auditEvents (w_store w')) = map vType (auditEvents (w_store w)) @ [AuditEventTransactionFailed]"
proof -
  have "wf_proposal (q\<lparr>pStatus := st, pError := e, pUpdatedAt := t\<rparr>)" for st e t
    using assms(3,4) by (auto simp: mem_ok_def wf_proposal_def approvals_def)
  with assms show ?thesis
    by (auto simp: sign_phase_def on_signer_calm on_store_calm calm_ctx failTransaction_def now_def
        UpdateTransaction_def appendAudit_calm Let_def)
qed

subsection \<open>Creating wallets and proposals\<close>

definition new_wallet ::
  "Chain \<Rightarrow> WalletMaterial \<Rightarrow> ('st, 'sg, 'ad) world \<Rightarrow> Wallet" where
  "new_wallet chain m w =
     \<lparr>wID = next_id ''wlt'' w, wChain = chain, wAddress = mAddress m, wPublicKey = mPublicKey m,
      wCreatedAt = shd (w_clock w)\<rparr>"

lemma next_id_update [simp]:
  "next_id prefix (w\<lparr>w_signer := sg\<rparr>) = next_id prefix w" "next_id prefix (w\<lparr>w_adapters := ad\<rparr>) = next_id prefix w"
  "next_id prefix (w\<lparr>w_store := st\<rparr>) = next_id prefix w" "next_id prefix (w\<lparr>w_clock := c\<rparr>) = next_id prefix w"
  "next_id prefix (w\<lparr>w_metrics := ms\<rparr>) = next_id prefix w"
  by (simp_all add: next_id_def)

lemma exec_CreateWallet_ok:
  assumes "calm w" and "svStore s = memory_store" and "registry_Get (svChains s) chain \<noteq> None"
    and "bCreateWallet (svSigner s) None (next_id ''wlt'' w) chain (w_signer w) = (Inr m, sg)"
    and "wallets (w_store w) (next_id ''wlt'' w) = None"
  shows "\<exists>w'. exec (Wallet_Service.CreateWallet s chain []) w = (Inr (new_wallet chain m w), w') \<and>
     wallets (w_store w') = (wallets (w_store w))(next_id ''wlt'' w \<mapsto> new_wallet chain m w) \<and>
     transactions (w_store w') = transactions (w_store w) \<and>
     map vType (auditEvents (w_store w')) = map vType (auditEvents (w_store w)) @ [AuditEventWalletCreated] \<and>
     idempotency (w_store w') = idempotency (w_store w) \<and>
     w_signer w' = sg \<and> w_adapters w' = w_adapters w \<and> calm w'"
  using assms
  by (simp add: Wallet_Service.CreateWallet_def ids_New_calm on_signer_calm on_store_calm calm_ctx now_def
      Memory_Store.CreateWallet_def appendAudit_calm metrics_Inc_def new_wallet_def Let_def)

text \<open>
  A replay: the stored wallet comes back and the store does not change. The signing backend
  has made new key material by then.
\<close>

lemma exec_CreateWallet_replay:
  assumes "calm w" and "svStore s = memory_store" and "registry_Get (svChains s) chain \<noteq> None"
    and "bCreateWallet (svSigner s) None (next_id ''wlt'' w) chain (w_signer w) = (Inr m, sg)"
    and "key \<noteq> []" and "idempotency (w_store w) (idempotencyKey (''wallet:'' @ chain) key) = Some ex"
    and "wallets (w_store w) (iResourceID ex) = Some x"
  shows "\<exists>w'. exec (Wallet_Service.CreateWallet s chain key) w = (Inr x, w') \<and> w_store w' = w_store w \<and> w_signer w' = sg"
  using assms
  by (simp add: Wallet_Service.CreateWallet_def ids_New_calm on_signer_calm on_store_calm calm_ctx now_def
      CreateWalletIdempotently_def Let_def)

lemma exec_Propose_ok:
  assumes "calm w" and "svStore s = memory_store"
    and "wallets (w_store w) (rWalletID rq) = Some source"
    and "validateAmountPolicy (svPolicy s) (wChain source) (rAmount rq) = None"
    and "registry_Get (svChains s) (wChain source) = Some adapter"
    and "aBuildTransaction adapter None source rq (w_adapters w) = (Inr raw, ad)"
    and "transactions (w_store w) (next_id ''txn'' w) = None"
    and "p = new_proposal source (TraceFromContext trace) rq raw (next_id ''txn'' w) (shd (w_clock w))"
  shows "\<exists>w'. exec (ProposeTransaction s trace rq []) w = (Inr p, w') \<and>
     transactions (w_store w') = (transactions (w_store w))(next_id ''txn'' w \<mapsto> p) \<and>
     wallets (w_store w') = wallets (w_store w) \<and>
     map vType (auditEvents (w_store w')) = map vType (auditEvents (w_store w)) @ [AuditEventTransactionProposed] \<and>
     w_signer w' = w_signer w \<and> w_adapters w' = ad \<and> calm w'"
proof -
  have "wf_proposal p" by (simp add: assms(8) new_proposal_def wf_proposal_def approvals_def)
  moreover have "pID p = next_id ''txn'' w" "pChain p = wChain source"
    by (simp_all add: assms(8) new_proposal_def)
  ultimately show ?thesis
    using assms(1-7)
    by (simp add: ProposeTransaction_def ids_New_calm on_adapters_calm on_store_calm calm_ctx now_def
        GetWallet_def CreateTransaction_def appendAudit_calm metrics_Inc_def Let_def flip: assms(8))
qed

lemma exec_Propose_replay:
  assumes "calm w" and "svStore s = memory_store" and "mem_ok (w_store w)"
    and "wallets (w_store w) (rWalletID rq) = Some source"
    and "validateAmountPolicy (svPolicy s) (wChain source) (rAmount rq) = None"
    and "registry_Get (svChains s) (wChain source) = Some adapter"
    and "aBuildTransaction adapter None source rq (w_adapters w) = (Inr raw, ad)"
    and "key \<noteq> []" and "idempotency (w_store w) (idempotencyKey (''transaction:'' @ rWalletID rq) key) = Some ex"
    and "transactions (w_store w) (iResourceID ex) = Some p"
  shows "\<exists>w'. exec (ProposeTransaction s trace rq key) w = (Inr p, w') \<and> w_store w' = w_store w \<and> w_adapters w' = ad"
proof -
  have "cloneProposal p = p" using assms(3,10) by (auto simp: mem_ok_def)
  with assms show ?thesis
    by (simp add: ProposeTransaction_def ids_New_calm on_adapters_calm on_store_calm calm_ctx now_def
        GetWallet_def CreateTransactionIdempotently_def Let_def)
qed

subsection \<open>Broadcasting\<close>

lemma exec_Broadcast_ok:
  assumes "calm w" and "svStore s = memory_store" and "mem_ok (w_store w)"
    and "transactions (w_store w) i = Some p" and "pStatus p = TransactionStatusSigned"
    and "pSignedTransaction p \<noteq> []" and "registry_Get (svChains s) (pChain p) = Some adapter"
    and "aBroadcast adapter None (pSignedTransaction p) (w_adapters w) = (Inr hash, ad)"
    and "q = p\<lparr>pStatus := TransactionStatusBroadcast, pBroadcastHash := hash, pUpdatedAt := shd (w_clock w)\<rparr>"
  shows "\<exists>w'. exec (Broadcast s i) w = (Inr q, w') \<and>
     transactions (w_store w') = (transactions (w_store w))(i \<mapsto> q) \<and>
     map vType (auditEvents (w_store w')) = map vType (auditEvents (w_store w)) @ [AuditEventTransactionBroadcast] \<and>
     w_adapters w' = ad \<and> calm w'"
proof -
  have i: "pID p = i" and wf: "wf_proposal p" using assms(3,4) by (auto simp: mem_ok_def)
  from wf have "wf_proposal q" by (simp add: assms(9) wf_proposal_def approvals_def)
  moreover have "pID q = i" "pChain q = pChain p" using i by (simp_all add: assms(9))
  ultimately show ?thesis
    using assms(1-8) i wf
    by (simp add: Broadcast_def on_adapters_calm on_store_calm calm_ctx now_def GetTransaction_def
        UpdateTransaction_def appendAudit_calm metrics_Inc_def Let_def flip: assms(9))
qed

subsection \<open>What a keyed request leaves behind\<close>

lemma exec_CreateWallet_key:
  assumes "calm w" and "svStore s = memory_store" and "key \<noteq> []"
    and "exec (Wallet_Service.CreateWallet s chain key) w = (Inr x, w')"
  shows "\<exists>ex. idempotency (w_store w') (idempotencyKey (''wallet:'' @ chain) key) = Some ex \<and>
     wallets (w_store w') (iResourceID ex) = Some x"
  using assms
  by (auto simp: Wallet_Service.CreateWallet_def ids_New_calm on_signer_calm on_store_calm now_def
      CreateWalletIdempotently_def appendAudit_calm metrics_Inc_def Let_def
      split: if_splits option.splits sum.splits prod.splits)

lemma exec_Propose_key:
  assumes "calm w" and "svStore s = memory_store" and "mem_ok (w_store w)" and "key \<noteq> []"
    and "exec (ProposeTransaction s trace rq key) w = (Inr p, w')"
  shows "\<exists>ex. idempotency (w_store w') (idempotencyKey (''transaction:'' @ rWalletID rq) key) = Some ex \<and>
     iResourceID ex = pID p \<and> transactions (w_store w') (pID p) = Some p \<and>
     (\<exists>source adapter raw ad. wallets (w_store w') (rWalletID rq) = Some source \<and>
        validateAmountPolicy (svPolicy s) (wChain source) (rAmount rq) = None \<and>
        registry_Get (svChains s) (wChain source) = Some adapter)"
proof -
  have new: "cloneProposal (new_proposal source tr rq raw i t) = new_proposal source tr rq raw i t"
    "pID (new_proposal source tr rq raw i t) = i" for source tr raw i t
    by (simp_all add: new_proposal_def cloneProposal_wf wf_proposal_def approvals_def)
  have old: "cloneProposal q = q \<and> pID q = i" if "transactions (w_store w) i = Some q" for i q
    using assms(3) that by (auto simp: mem_ok_def)
  show ?thesis
    using assms new old
    by (auto simp: ProposeTransaction_def ids_New_calm on_adapters_calm on_store_calm now_def GetWallet_def
        CreateTransactionIdempotently_def appendAudit_calm metrics_Inc_def Let_def
        split: if_splits option.splits sum.splits prod.splits)
qed

text \<open>The first request with a key.\<close>

lemma exec_CreateWallet_new_key:
  assumes "calm w" and "svStore s = memory_store" and "registry_Get (svChains s) chain \<noteq> None"
    and "bCreateWallet (svSigner s) None (next_id ''wlt'' w) chain (w_signer w) = (Inr m, sg)"
    and "wallets (w_store w) (next_id ''wlt'' w) = None" and "key \<noteq> []"
    and "idempotency (w_store w) (idempotencyKey (''wallet:'' @ chain) key) = None"
  shows "\<exists>w'. exec (Wallet_Service.CreateWallet s chain key) w = (Inr (new_wallet chain m w), w') \<and> calm w'"
  using assms
  by (simp add: Wallet_Service.CreateWallet_def ids_New_calm on_signer_calm on_store_calm now_def
      CreateWalletIdempotently_def appendAudit_calm metrics_Inc_def new_wallet_def Let_def)

lemma exec_Propose_new_key:
  assumes "calm w" and "svStore s = memory_store"
    and "wallets (w_store w) (rWalletID rq) = Some source"
    and "validateAmountPolicy (svPolicy s) (wChain source) (rAmount rq) = None"
    and "registry_Get (svChains s) (wChain source) = Some adapter"
    and "aBuildTransaction adapter None source rq (w_adapters w) = (Inr raw, ad)"
    and "transactions (w_store w) (next_id ''txn'' w) = None" and "key \<noteq> []"
    and "idempotency (w_store w) (idempotencyKey (''transaction:'' @ rWalletID rq) key) = None"
  shows "\<exists>p w'. exec (ProposeTransaction s trace rq key) w = (Inr p, w') \<and> calm w' \<and> w_adapters w' = ad"
proof -
  have new: "cloneProposal (new_proposal source tr rq raw i t) = new_proposal source tr rq raw i t"
    "pID (new_proposal source tr rq raw i t) = i" for tr i t
    by (simp_all add: new_proposal_def cloneProposal_wf wf_proposal_def approvals_def)
  show ?thesis
    using assms new
    by (simp add: ProposeTransaction_def ids_New_calm on_adapters_calm on_store_calm now_def GetWallet_def
        CreateTransactionIdempotently_def appendAudit_calm metrics_Inc_def Let_def)
qed

end
