(* ===== verification/Demo_Run.thy ===== *)
theory Demo_Run
  imports Custody_System Service_Behaviour
begin

section \<open>A run of the assembled program\<close>

text \<open>
  One concrete run through the HTTP API on the in-memory store: a wallet is created, a
  transaction proposed and approved by two of three configured signers, so it is signed.
  The theorems about reachable states are applied to it.
\<close>

subsection \<open>Requests step by step\<close>

lemma exec_Handler_calm:
  assumes "calm w"
  obtains trace h w1 where "calm w1" and "w_store w1 = w_store w" and "w_signer w1 = w_signer w"
    and "w_adapters w1 = w_adapters w"
    and "\<And>resp w2. exec (serve L fmt_g fmt_sec mux s trace r) w1 = (resp, w2) \<Longrightarrow> calm w2 \<Longrightarrow>
      \<exists>w3. exec (Handler L fmt_g fmt_sec other mux s r) w = ((h, resp), w3) \<and>
        w_store w3 = w_store w2 \<and> w_signer w3 = w_signer w2 \<and> w_adapters w3 = w_adapters w2 \<and> calm w3"
proof -
  let ?w = "w\<lparr>w_clock := stl (w_clock w)\<rparr>"
  obtain t w1 where tr: "exec (new_trace r) ?w = (t, w1)" by (cases "exec (new_trace r) ?w")
  have "calm w1 \<and> w_store w1 = w_store w \<and> w_signer w1 = w_signer w \<and> w_adapters w1 = w_adapters w"
    using tr assms by (auto simp: new_trace_def rand_Read_def Let_def split: if_splits sum.splits)
  moreover have "\<exists>w3. exec (Handler L fmt_g fmt_sec other mux s r) w = ((traceparent t, resp), w3) \<and>
        w_store w3 = w_store w2 \<and> w_signer w3 = w_signer w2 \<and> w_adapters w3 = w_adapters w2 \<and> calm w3"
    if "exec (serve L fmt_g fmt_sec mux s (WithTrace None t) r) w1 = (resp, w2)" "calm w2" for resp w2
    using that tr by (simp add: Handler_def Middleware_def now_def metrics_Inc_def metrics_Observe_def Let_def)
  ultimately show thesis using that by blast
qed

text \<open>Identifiers can stand in a path and in a JSON string.\<close>

lemma hex_chars: "c \<in> set (hex_EncodeToString bs) \<Longrightarrow> c \<noteq> CHR ''/'' \<and> ord c < 128 \<and> c \<noteq> CHR ''.''"
  using set_hex_Encode [of bs] by (auto simp: hextable_def)

lemma next_id_ok:
  "CHR ''/'' \<notin> set (next_id ''txn'' w)" "next_id ''txn'' w \<noteq> []"
  "next_id ''txn'' w \<noteq> ''.''" "next_id ''txn'' w \<noteq> ''..''"
  "utf8_ok (next_id ''wlt'' w)"
  using hex_chars by (auto simp: next_id_def list_all_iff intro!: utf8_ok_ascii)

lemma clean_cosign:
  assumes "CHR ''/'' \<notin> set i" and "i \<noteq> []" and "i \<noteq> ''.''" and "i \<noteq> ''..''"
  shows "clean_path (''/v1/transactions/'' @ i @ ''/cosign'')"
  using assms by (simp add: clean_path_def HasPrefix_def Split_append)

lemma serve_cosign:
  assumes "rqMethod r = ''POST''" and "rqPath r = ''/v1/transactions/'' @ i @ ''/cosign''"
    and "CHR ''/'' \<notin> set i" and "i \<noteq> []" and "i \<noteq> ''.''" and "i \<noteq> ''..''" and "apiKeys s = []"
  shows "serve L fmt_g fmt_sec mux s trace r = api_cosign L s i r"
proof -
  have "parseTransactionPath (rqPath r) = Some (i, ''cosign'')"
    using parse_path_action [of i "''cosign''"] assms by simp
  moreover have "clean_path (rqPath r)" using assms by (simp add: clean_cosign del: append.simps)
  ultimately show ?thesis
    using assms(1,2,7)
    by (simp add: serve_def requireAPIKey_def transactionAction_def HasPrefix_def Let_def)
qed

lemma answer_exec: "exec m w = (Inr x, w') \<Longrightarrow> exec (answer st f m) w = (writeJSON st (f x), w')"
  by (simp add: answer_def)

subsection \<open>The surroundings of the run\<close>

text \<open>
  Concrete functions for the code outside the repository: one fixed key, an address that
  does not depend on it, transactions that are their own binary form.
\<close>

definition demo_key :: PrivateKey where
  "demo_key = \<lparr>keyD = 1, keyX = 2, keyY = 3\<rparr>"

definition demo_lib :: "byte list External" where
  "demo_lib =
     \<lparr>HexToECDSA = \<lambda>_. Inr demo_key, eth_GenerateKey = \<lambda>_. Inr demo_key, FromECDSAPub = elliptic_Marshal,
      PubkeyToAddress_Hex = \<lambda>_ _. ''0x01'', HexToAddress = string_bytes,
      SignTx = \<lambda>tx _ _. Inr (be_bytes 32 (nat (txValue tx))), MarshalBinary = Inr, UnmarshalBinary = Inr,
      Hash_Hex = \<lambda>bs. ''0x'' @ hex_EncodeToString bs, ecdsa_GenerateKey = \<lambda>_. Inr demo_key,
      ecdsa_Sign = \<lambda>_ _ _. Inr (1, 1), json_error_text = \<lambda>_. ''invalid json''\<rparr>"

definition demo_client :: "unit EthClient" where
  "demo_client =
     \<lparr>DialContext = \<lambda>_ _ s. (Inr (), s), ChainID = \<lambda>_ s. (Inr 31337, s), PendingNonceAt = \<lambda>_ _ s. (Inr 0, s),
      EstimateGas = \<lambda>_ _ _ _ _ s. (Inr 21000, s), SuggestGasPrice = \<lambda>_ s. (Inr 7, s),
      SuggestGasTipCap = \<lambda>_ s. (Inr 1, s)\<rparr>"

definition demo_send :: "(byte list, unit) sender" where
  "demo_send = (\<lambda>_ _ s. (Inr (), s))"

definition demo_environment :: environment where
  "demo_environment key = (if key = ''SIGNER_IDS'' then ''alice, bob,carol'' else [])"

definition demo_cfg :: Config where
  "demo_cfg = Load demo_environment"

definition demo_surroundings :: "unit surroundings" where
  "demo_surroundings =
     \<lparr>env_rand = sconst (Inr (\<lambda>_. 0)), env_clock = sconst 0, env_ctx = sconst None,
      env_signer_rand = sconst (Inr (\<lambda>_. 0)), env_signer_clock = sconst 0, env_adapter_clock = sconst 0,
      env_rpc = ()\<rparr>"

definition demo_reach :: "(unit system, string \<times> http_response) config \<Rightarrow> bool" where
  "demo_reach =
     system_reach demo_lib demo_client demo_send (\<lambda>_. []) (\<lambda>_. []) (\<lambda>_. []) (\<lambda>_. writeJSON 404 None)
       demo_cfg demo_surroundings"

abbreviation demo_server :: "(MemoryStore, DemoQuorumBackend, unit adapters) Server" where
  "demo_server \<equiv> system_server memory_store demo_lib demo_client demo_send demo_cfg"

abbreviation demo_handler ::
  "http_request \<Rightarrow> (unit system, string \<times> http_response) prog" where
  "demo_handler \<equiv> Handler demo_lib (\<lambda>_. []) (\<lambda>_. []) (\<lambda>_. []) (\<lambda>_. writeJSON 404 None) demo_server"

abbreviation demo_serve ::
  "ctx_values \<Rightarrow> http_request \<Rightarrow> (unit system, http_response) prog" where
  "demo_serve \<equiv> serve demo_lib (\<lambda>_. []) (\<lambda>_. []) (\<lambda>_. writeJSON 404 None) demo_server"

lemma demo_cfg_fields [simp]:
  "SignerIDs demo_cfg = [''alice'', ''bob'', ''carol'']" "APIKeys demo_cfg = []" "EVMRPCURL demo_cfg = []"
  "EVMDevPrivateKey demo_cfg = []" "cfgMaxEVMAmountWei demo_cfg = None" "EVMChainID demo_cfg = 31337"
  by code_simp+

lemma demo_step:
  assumes "demo_reach (w, ts)" and "exec (demo_handler r) w = (x, w')"
  shows "demo_reach (w', ts @ [Return x])"
  using assms exec_handler_csteps [of demo_handler r w x w' ts]
  unfolding demo_reach_def system_reach_def by (meson csteps_trans)

text \<open>One request of the run: what \<open>serve\<close> does is what the store sees.\<close>

lemma demo_request:
  assumes "demo_reach (w, ts)" and "calm w"
    and "\<And>trace w1. calm w1 \<Longrightarrow> w_store w1 = w_store w \<Longrightarrow> w_signer w1 = w_signer w \<Longrightarrow>
      w_adapters w1 = w_adapters w \<Longrightarrow>
      \<exists>resp w2. exec (demo_serve trace r) w1 = (resp, w2) \<and> calm w2 \<and> P (w_store w2) (w_signer w2) (w_adapters w2)"
  obtains w' ts' where "demo_reach (w', ts')" and "calm w'" and "P (w_store w') (w_signer w') (w_adapters w')"
proof -
  obtain trace h w1 where w1: "calm w1" "w_store w1 = w_store w" "w_signer w1 = w_signer w" "w_adapters w1 = w_adapters w"
    and run: "\<And>resp w2. exec (demo_serve trace r) w1 = (resp, w2) \<Longrightarrow> calm w2 \<Longrightarrow>
      \<exists>w3. exec (demo_handler r) w = ((h, resp), w3) \<and>
        w_store w3 = w_store w2 \<and> w_signer w3 = w_signer w2 \<and> w_adapters w3 = w_adapters w2 \<and> calm w3"
    by (rule exec_Handler_calm [OF assms(2)]) blast
  obtain resp w2 where "exec (demo_serve trace r) w1 = (resp, w2)" and w2: "calm w2" "P (w_store w2) (w_signer w2) (w_adapters w2)"
    using assms(3) [OF w1] by blast
  with run obtain w3 where "exec (demo_handler r) w = ((h, resp), w3)"
    and "w_store w3 = w_store w2" "w_signer w3 = w_signer w2" "w_adapters w3 = w_adapters w2" "calm w3" by blast
  with demo_step [OF assms(1)] w2 that show thesis by metis
qed

subsection \<open>The run\<close>

definition post :: "string \<Rightarrow> (string \<times> json) list \<Rightarrow> http_request" where
  "post path ms =
     \<lparr>rqMethod = ''POST'', rqPath = path, rqQuery = [], rqHeader = [], rqBody = json_text (JObj ms)\<rparr>"

lemma post_fields [simp]:
  "rqMethod (post path ms) = ''POST''" "rqPath (post path ms) = path" "rqBody (post path ms) = json_text (JObj ms)"
  "idempotencyKeyOf (post path ms) = []"
  by (simp_all add: post_def idempotencyKeyOf_def header_Get_def get_first_def)

lemma demo_start:
  obtains w ts where "demo_reach (w, ts)" and "calm w" and "w_store w = NewMemoryStore"
    and "records (w_signer w) = []" and "evmPrivateKey (w_signer w) = None"
    and "nonces (w_adapters w) = []"
proof -
  obtain w where w: "boot demo_lib demo_cfg demo_surroundings = Inr w"
    by (simp add: boot_def boot_on_def NewDemoQuorumBackend_def WithEVMPrivateKey_def)
  then have "demo_reach (w, [])" by (auto simp: demo_reach_def system_reach_def intro: csteps_refl)
  moreover have "calm w \<and> w_store w = NewMemoryStore \<and> records (w_signer w) = [] \<and>
      evmPrivateKey (w_signer w) = None \<and> nonces (w_adapters w) = []"
    using w by (auto simp: boot_def boot_on_def NewDemoQuorumBackend_def WithEVMPrivateKey_def demo_surroundings_def
        calm_def lively_def)
  ultimately show thesis using that by blast
qed

lemma decode_single:
  assumes "utf8_ok s" and "utf8_ok k" and "rqBody r = json_text (JObj [(k, JStr s)])"
  shows "decodeJSON L [str_field k (\<lambda>c _. c)] [] r = Inr s"
  by (subst decodeJSON_text [OF _ assms(3)])
     (simp_all add: assms decode_members_def decode_member_def find_field_def str_field_def)

lemma demo_wallet:
  obtains w ts i x where "demo_reach (w, ts)" and "calm w" and "wallets (w_store w) = [i \<mapsto> x]"
    and "transactions (w_store w) = Map.empty" and "wID x = i" and "wChain x = ChainEVM" and "wAddress x = ''0x01''"
    and "utf8_ok i" and "map_of (records (w_signer w)) i \<noteq> None" and "nonces (w_adapters w) = []"
    and "idempotency (w_store w) = Map.empty"
proof -
  obtain w ts where w: "demo_reach (w, ts)" "calm w" "w_store w = NewMemoryStore" "records (w_signer w) = []"
    "evmPrivateKey (w_signer w) = None" "nonces (w_adapters w) = []" by (rule demo_start)
  let ?r = "post ''/v1/wallets'' [(''chain'', JStr ChainEVM)]"
  let ?P = "\<lambda>st sg ad. \<exists>i x. wallets st = [i \<mapsto> x] \<and> transactions st = Map.empty \<and> wID x = i \<and> wChain x = ChainEVM \<and>
     wAddress x = ''0x01'' \<and> utf8_ok i \<and> map_of (records sg) i \<noteq> None \<and> nonces ad = [] \<and>
     idempotency st = Map.empty"
  have dec: "decodeJSON demo_lib [str_field ''chain'' (\<lambda>c _. c)] [] ?r = Inr ChainEVM"
    by (rule decode_single) (auto simp: ChainEVM_def intro!: utf8_ok_ascii)
  have "\<exists>resp w2. exec (demo_serve trace ?r) w1 = (resp, w2) \<and> calm w2 \<and> ?P (w_store w2) (w_signer w2) (w_adapters w2)"
    if w1: "calm w1" "w_store w1 = w_store w" "w_signer w1 = w_signer w" "w_adapters w1 = w_adapters w" for trace w1
  proof -
    have serve: "demo_serve trace ?r = api_createWallet demo_lib demo_server ?r"
      by (simp add: serve_def requireAPIKey_def clean_path_def HasPrefix_def Let_def)
    have mat: "\<exists>m sg. bCreateWallet (demo_backend demo_lib) None j ChainEVM (w_signer w1) = (Inr m, sg) \<and>
        mAddress m = ''0x01'' \<and> map_of (records sg) j \<noteq> None" for j
      using w w1 by (simp add: demo_backend_def demo_CreateWallet_def createPrivateKey_def demo_lib_def
          addressFor_def Let_def)
    then obtain m sg where m: "bCreateWallet (demo_backend demo_lib) None (next_id ''wlt'' w1) ChainEVM (w_signer w1) = (Inr m, sg)"
        "mAddress m = ''0x01''" "map_of (records sg) (next_id ''wlt'' w1) \<noteq> None" by blast
    let ?svc = "system_service memory_store demo_lib demo_client demo_send demo_cfg"
    obtain w' where run: "exec (Wallet_Service.CreateWallet ?svc ChainEVM []) w1 = (Inr (new_wallet ChainEVM m w1), w')"
      and st: "wallets (w_store w') = (wallets (w_store w1))(next_id ''wlt'' w1 \<mapsto> new_wallet ChainEVM m w1)"
       "transactions (w_store w') = transactions (w_store w1)" "w_signer w' = sg" "w_adapters w' = w_adapters w1" "calm w'"
       "idempotency (w_store w') = idempotency (w_store w1)"
      using exec_CreateWallet_ok [of w1 ?svc ChainEVM m sg] w w1 m
      by (auto simp: system_registry_Get NewMemoryStore_def)
    have "exec (demo_serve trace ?r) w1 = (writeJSON 201 (wallet_json (new_wallet ChainEVM m w1)), w')"
      unfolding serve api_createWallet_def createWalletRequest_def dec sum.case post_fields system_server_fields
      by (rule answer_exec [OF run])
    moreover have "?P (w_store w') (w_signer w') (w_adapters w')"
      using st m w w1 next_id_ok(5) [of w1]
      by (intro exI [of _ "next_id ''wlt'' w1"] exI [of _ "new_wallet ChainEVM m w1"])
         (simp add: NewMemoryStore_def new_wallet_def)
    ultimately show ?thesis using st(5) by blast
  qed
  then obtain w' ts' where reach: "demo_reach (w', ts')" "calm w'" and P: "?P (w_store w') (w_signer w') (w_adapters w')"
    by (rule demo_request [OF w(1,2), where r = ?r and P = ?P])
  show thesis using P by (elim exE conjE) (rule that [OF reach]; assumption)
qed

text \<open>The proposed payment.\<close>

definition demo_request_of :: "string \<Rightarrow> TransactionRequest" where
  "demo_request_of i =
     zero_request\<lparr>rWalletID := i, rTo := ''0x02'', rAmount := ''5'', rGasLimit := 21000, rMaxFeePerGas := ''7''\<rparr>"

definition demo_members :: "string \<Rightarrow> (string \<times> json) list" where
  "demo_members i =
     [(''wallet_id'', JStr i), (''to'', JStr ''0x02''), (''amount'', JStr ''5''),
      (''gas_limit'', JNum ''21000''), (''max_fee_per_gas'', JStr ''7'')]"

lemma show_int_21000: "show_int 21000 = ''21000''"
  by (simp add: show_int_def show_nat_eval digit_char_eval)

lemma ParseUint64_21000: "ParseUint64 ''21000'' = Some 21000"
  by (simp add: ParseUint64_def dec_val_def digit_val_def is_digit_def)

lemma demo_members_wf: "utf8_ok i \<Longrightarrow> json_wf (JObj (demo_members i))"
  using json_wf_show_int [of 21000]
  by (simp add: demo_members_def utf8_ok_ascii show_int_21000 del: json_wf.simps(3))

lemma decode_demo_request:
  assumes "utf8_ok i"
  shows "decodeJSON L (request_fields True) zero_request (post path (demo_members i)) = Inr (demo_request_of i)"
  by (subst decodeJSON_text [OF demo_members_wf [OF assms]])
     (simp_all add: demo_members_def decode_members_def decode_member_def find_field_def request_fields_def
       str_field_def num_field_def ParseUint64_21000 utxos_field_def demo_request_of_def)

lemma big_5: "big_SetString ''5'' = Some 5" and big_7: "big_SetString ''7'' = Some 7"
  by (simp_all add: big_SetString_def split_sign_def is_digit_def dec_val_def digit_val_def)

definition demo_payload :: "string \<Rightarrow> bool" where
  "demo_payload raw \<longleftrightarrow> (\<exists>e. unmarshal_evm_payload raw = Inr e \<and> eValueWei e = ''5'' \<and>
     eMaxFeePerGas e = ''7'' \<and> eMaxPriorityFeePerGas e = ''7'' \<and> eData e = [])"

text \<open>What is known of the proposal and its wallet's key after \<open>n\<close> approvals.\<close>

definition demo_pending :: "nat \<Rightarrow> MemoryStore \<Rightarrow> DemoQuorumBackend \<Rightarrow> string \<Rightarrow> TransactionProposal \<Rightarrow> bool" where
  "demo_pending n st sg j p \<longleftrightarrow>
     transactions st = [j \<mapsto> p] \<and> pID p = j \<and> pStatus p = TransactionStatusProposed \<and> wf_proposal p \<and>
     gkeys (approvals p) = take n [''alice'', ''bob''] \<and> pChain p = ChainEVM \<and>
     map_of (records sg) (pWalletID p) \<noteq> None \<and> demo_payload (Payload (pRawTransaction p)) \<and>
     CHR ''/'' \<notin> set j \<and> j \<noteq> [] \<and> j \<noteq> ''.'' \<and> j \<noteq> ''..''"

abbreviation demo_evm :: evm_Adapter where
  "demo_evm \<equiv> evm_NewAdapter (EVMChainID demo_cfg) [EVMRPCURL demo_cfg]"

abbreviation demo_service :: "(MemoryStore, DemoQuorumBackend, unit adapters) Service" where
  "demo_service \<equiv> system_service memory_store demo_lib demo_client demo_send demo_cfg"

lemma demo_request_fields:
  "rWalletID (demo_request_of i) = i" "evm_request_ok (demo_request_of i)" "rAmount (demo_request_of i) = ''5''"
  "rMaxFeePerGas (demo_request_of i) = ''7''" "rData (demo_request_of i) = []" "rTo (demo_request_of i) = ''0x02''"
  by (auto simp: demo_request_of_def evm_request_ok_def zero_request_def big_5)

lemma demo_policy: "validateAmountPolicy (svPolicy demo_service) ChainEVM (rAmount (demo_request_of i)) = None"
  by (simp add: validateAmountPolicy_def demo_request_fields big_5 system_policy_def cloneBigInt_def)

lemma demo_build:
  assumes "wAddress x = ''0x01''"
  obtains raw ad' where "aBuildTransaction (evm_adapter demo_lib demo_client demo_send demo_evm) None x (demo_request_of i) ad = (Inr raw, ad')"
    and "demo_payload (Payload raw)"
proof -
  let ?e = "evm_local_payload demo_evm x (demo_request_of i) (shd (ad_clock ad)) (nonce_of ad (wAddress x))"
  have local: "rpcURL demo_evm = []" by (simp add: evm_NewAdapter_def)
  have "utf8_payload ?e"
    using demo_request_fields assms by (intro utf8_local_payload) (auto intro!: utf8_ok_ascii)
  then have "demo_payload (json_text (evm_payload_json ?e))"
    using evm_payload_roundtrip [of ?e] unfolding demo_payload_def
    by (intro exI [of _ ?e]) (simp add: evm_local_payload_def evm_base_payload_def demo_request_fields)
  then show thesis
    by (intro that) (simp add: evm_adapter_def evm_Build_local_ok [OF local demo_request_fields(2)] del: demo_cfg_fields, simp)
qed

lemma demo_proposed:
  obtains w ts j p where "demo_reach (w, ts)" and "calm w" and "demo_pending 0 (w_store w) (w_signer w) j p"
proof -
  obtain w ts i x where w: "demo_reach (w, ts)" "calm w" and st: "wallets (w_store w) = [i \<mapsto> x]"
    "transactions (w_store w) = Map.empty" and x: "wID x = i" "wChain x = ChainEVM" "wAddress x = ''0x01''"
    "utf8_ok i" and key: "map_of (records (w_signer w)) i \<noteq> None" and ad: "nonces (w_adapters w) = []"
    by (rule demo_wallet)
  let ?r = "post ''/v1/transactions'' (demo_members i)"
  let ?rq = "demo_request_of i"
  let ?P = "\<lambda>st sg ad. \<exists>j p. demo_pending 0 st sg j p"
  let ?svc = "system_service memory_store demo_lib demo_client demo_send demo_cfg"
  have "\<exists>resp w2. exec (demo_serve trace ?r) w1 = (resp, w2) \<and> calm w2 \<and> ?P (w_store w2) (w_signer w2) (w_adapters w2)"
    if w1: "calm w1" "w_store w1 = w_store w" "w_signer w1 = w_signer w" "w_adapters w1 = w_adapters w" for trace w1
  proof -
    have serve: "demo_serve trace ?r = api_proposeTransaction demo_lib demo_server trace ?r"
      by (simp add: serve_def requireAPIKey_def clean_path_def HasPrefix_def Let_def)
    obtain raw ad' where build: "aBuildTransaction (evm_adapter demo_lib demo_client demo_send demo_evm) None x ?rq (w_adapters w1) = (Inr raw, ad')"
      and pay: "demo_payload (Payload raw)" by (rule demo_build [OF x(3)])
    let ?j = "next_id ''txn'' w1" and ?p = "new_proposal x (TraceFromContext trace) ?rq raw (next_id ''txn'' w1) (shd (w_clock w1))"
    obtain w' where run: "exec (ProposeTransaction ?svc trace ?rq []) w1 = (Inr ?p, w')"
      and st': "transactions (w_store w') = (transactions (w_store w1))(?j \<mapsto> ?p)" "w_signer w' = w_signer w1" "calm w'"
      using exec_Propose_ok [OF w1(1) _ _ _ _ build, of ?svc ?p trace] demo_policy [of i] st x w1
      by (auto simp: system_registry_Get demo_request_fields)
    have "exec (demo_serve trace ?r) w1 = (writeJSON 201 (proposal_json ?p), w')"
      unfolding serve api_proposeTransaction_def decode_demo_request [OF x(4)] sum.case post_fields system_server_fields
      by (rule answer_exec [OF run])
    moreover have "demo_pending 0 (w_store w') (w_signer w') ?j ?p"
      using st' st w1 key x pay next_id_ok [of w1]
      by (simp add: demo_pending_def new_proposal_def wf_proposal_def approvals_def)
    ultimately show ?thesis using st'(3) by blast
  qed
  then obtain w' ts' where reach: "demo_reach (w', ts')" "calm w'" and P: "?P (w_store w') (w_signer w') (w_adapters w')"
    by (rule demo_request [OF w, where r = ?r and P = ?P])
  show thesis using P by (elim exE) (rule that [OF reach])
qed

text \<open>A co-signing request runs \<^verbatim>\<open>CoSign\<close>.\<close>

definition cosign_request :: "string \<Rightarrow> string \<Rightarrow> http_request" where
  "cosign_request j signer = post (''/v1/transactions/'' @ j @ ''/cosign'') [(''signer_id'', JStr signer)]"

lemma serve_cosign_request:
  assumes "demo_pending n st sg j p" and "utf8_ok signer" and "exec (CoSign demo_service j signer) w = (Inr q, w')"
  shows "exec (demo_serve trace (cosign_request j signer)) w = (writeJSON 200 (proposal_json q), w')"
proof -
  have "decodeJSON demo_lib [str_field ''signer_id'' (\<lambda>c _. c)] [] (cosign_request j signer) = Inr signer"
    by (rule decode_single) (auto simp: cosign_request_def assms(2) intro!: utf8_ok_ascii)
  moreover have "demo_serve trace (cosign_request j signer) = api_cosign demo_lib demo_server j (cosign_request j signer)"
    using assms(1) by (intro serve_cosign) (auto simp: cosign_request_def demo_pending_def)
  ultimately show ?thesis
    unfolding api_cosign_def by (simp add: answer_exec [OF assms(3)])
qed

lemma demo_may_approve:
  assumes "demo_pending n st sg j p" and "signer \<in> {''alice'', ''bob'', ''carol''}"
    and "signer \<notin> set (take n [''alice'', ''bob''])"
  shows "may_approve (svPolicy demo_service) signer p"
  using assms by (auto simp: may_approve_def demo_pending_def signerAllowed_system)

lemma demo_reach_mem_ok: "demo_reach (w, ts) \<Longrightarrow> mem_ok (w_store w)"
  unfolding demo_reach_def by (auto dest!: system_reach_inv simp: custody_inv_def)

lemma demo_approved:
  obtains w ts j p where "demo_reach (w, ts)" and "calm w" and "demo_pending 1 (w_store w) (w_signer w) j p"
proof -
  obtain w ts j p where w: "demo_reach (w, ts)" "calm w" and p: "demo_pending 0 (w_store w) (w_signer w) j p"
    by (rule demo_proposed)
  let ?P = "\<lambda>st sg (ad :: unit adapters). \<exists>j p. demo_pending 1 st sg j p"
  have "\<exists>resp w2. exec (demo_serve trace (cosign_request j ''alice'')) w1 = (resp, w2) \<and> calm w2 \<and>
      ?P (w_store w2) (w_signer w2) (w_adapters w2)"
    if w1: "calm w1" "w_store w1 = w_store w" "w_signer w1 = w_signer w" "w_adapters w1 = w_adapters w" for trace w1
  proof -
    let ?q = "approve (approval_now ''alice'' w1) p" and ?w2 = "after_approval ''alice'' p w1"
    have appr: "approvals p = []" using p by (simp add: demo_pending_def)
    have "exec (CoSign demo_service j ''alice'') w1 = (Inr ?q, ?w2)"
      using w1 p demo_reach_mem_ok [OF w(1)] demo_may_approve [OF p, of "''alice''"] appr
      by (subst exec_CoSign) (auto simp: demo_pending_def ApprovalsCount_def approval_now_def)
    then have "exec (demo_serve trace (cosign_request j ''alice'')) w1 = (writeJSON 200 (proposal_json ?q), ?w2)"
      by (rule serve_cosign_request [OF p, rotated]) (simp add: utf8_ok_ascii)
    moreover have "demo_pending 1 (w_store ?w2) (w_signer ?w2) j ?q"
      using p w1 appr by (auto simp: demo_pending_def approval_now_def wf_approve fun_eq_iff)
    ultimately show ?thesis using w1(1) by (meson after_approval_simps(6))
  qed
  then obtain w' ts' where reach: "demo_reach (w', ts')" "calm w'" and P: "?P (w_store w') (w_signer w') (w_adapters w')"
    by (rule demo_request [OF w, where r = "cosign_request j ''alice''" and P = ?P])
  show thesis using P by (elim exE) (rule that [OF reach])
qed

lemma demo_signs:
  assumes "demo_payload (Payload (pRawTransaction q))" and "2 \<le> ApprovalsCount q" and "pChain q = ChainEVM"
    and "map_of (records sg) (pWalletID q) \<noteq> None"
  shows "\<exists>sig. bSignTransaction (demo_backend demo_lib) None q sg = (Inr sig, sg) \<and> SignedTransaction sig \<noteq> []"
proof -
  obtain r where "map_of (records sg) (pWalletID q) = Some r" using assms(4) by (metis not_None_eq)
  moreover obtain e where "unmarshal_evm_payload (Payload (pRawTransaction q)) = Inr e" "eValueWei e = ''5''"
    "eMaxFeePerGas e = ''7''" "eMaxPriorityFeePerGas e = ''7''" "eData e = []"
    using assms(1) by (auto simp: demo_payload_def)
  ultimately show ?thesis using assms(2,3)
    by (simp add: demo_backend_def demo_SignTransaction_def quorumThreshold_def signEVMTransaction_def
        big_5 big_7 TrimPrefix_def HasPrefix_def demo_lib_def Let_def)
qed

theorem demo_signed:
  obtains w ts j p where "demo_reach (w, ts)" and "calm w" and "transactions (w_store w) j = Some p"
    and "pStatus p = TransactionStatusSigned" and "gkeys (approvals p) = [''alice'', ''bob'']"
    and "pSignedTransaction p \<noteq> []" and "pChain p = ChainEVM"
proof -
  obtain w ts j p where w: "demo_reach (w, ts)" "calm w" and p: "demo_pending 1 (w_store w) (w_signer w) j p"
    by (rule demo_approved)
  let ?P = "\<lambda>st (sg :: DemoQuorumBackend) (ad :: unit adapters). \<exists>j p. transactions st j = Some p \<and> pStatus p = TransactionStatusSigned \<and>
     gkeys (approvals p) = [''alice'', ''bob''] \<and> pSignedTransaction p \<noteq> [] \<and> pChain p = ChainEVM"
  have "\<exists>resp w2. exec (demo_serve trace (cosign_request j ''bob'')) w1 = (resp, w2) \<and> calm w2 \<and>
      ?P (w_store w2) (w_signer w2) (w_adapters w2)"
    if w1: "calm w1" "w_store w1 = w_store w" "w_signer w1 = w_signer w" "w_adapters w1 = w_adapters w" for trace w1
  proof -
    let ?q = "approve (approval_now ''bob'' w1) p" and ?w2 = "after_approval ''bob'' p w1"
    have ok: "mem_ok (w_store w1)" using demo_reach_mem_ok [OF w(1)] w1 by simp
    have keys: "gkeys (approvals ?q) = [''alice'', ''bob'']"
      using p by (auto simp: demo_pending_def approval_now_def)
    then have two: "2 \<le> ApprovalsCount ?q" unfolding ApprovalsCount_def by (metis length_map length_Cons list.size(3) numeral_2_eq_2 order_refl)
    obtain sig where sig: "bSignTransaction (demo_backend demo_lib) None ?q (w_signer ?w2) = (Inr sig, w_signer ?w2)"
        "SignedTransaction sig \<noteq> []"
      using p w1 two demo_signs [of ?q "w_signer ?w2"] by (auto simp: demo_pending_def simp del: map_of_eq_None_iff)
    have q: "transactions (w_store ?w2) (pID ?q) = Some ?q" "pStatus ?q = TransactionStatusProposed" "pID ?q = j"
      "mem_ok (w_store ?w2)"
      using p ok by (auto simp: demo_pending_def intro: mem_ok_after_approval)
    obtain w' where run: "exec (sign_phase demo_service ?q) ?w2 = (Inr (signed_as sig ?q), w')"
      and st: "transactions (w_store w') = (transactions (w_store ?w2))(pID ?q \<mapsto> signed_as sig ?q)" "calm w'"
      using exec_sign_phase_ok [of ?w2 demo_service ?q sig "w_signer ?w2"] w1 q sig by auto
    have "exec (CoSign demo_service j ''bob'') w1 = (Inr (signed_as sig ?q), w')"
      using exec_CoSign [OF w1(1) _ ok, of demo_service j p "''bob''"] run two p demo_may_approve [OF p, of "''bob''"]
      by (auto simp: demo_pending_def w1)
    then have served: "exec (demo_serve trace (cosign_request j ''bob'')) w1 = (writeJSON 200 (proposal_json (signed_as sig ?q)), w')"
      by (rule serve_cosign_request [OF p, rotated]) (simp add: utf8_ok_ascii)
    have "?P (w_store w') (w_signer w') (w_adapters w')"
      using st keys sig p by (intro exI [of _ "pID ?q"] exI [of _ "signed_as sig ?q"])
        (auto simp: signed_as_def demo_pending_def)
    with st(2) have "calm w' \<and> ?P (w_store w') (w_signer w') (w_adapters w')" by (rule conjI)
    then show ?thesis
      unfolding served prod.inject by - (rule exI, rule exI, rule conjI, rule conjI, rule refl, rule refl)
  qed
  then obtain w' ts' where reach: "demo_reach (w', ts')" "calm w'" and P: "?P (w_store w') (w_signer w') (w_adapters w')"
    by (rule demo_request [OF w, where r = "cosign_request j ''bob''" and P = ?P])
  show thesis using P by (elim exE conjE) (rule that [OF reach]; assumption)
qed

text \<open>Continuing the run with one more request.\<close>

definition demo_broadcast_request :: "string \<Rightarrow> http_request" where
  "demo_broadcast_request j = post (''/v1/transactions/'' @ j @ ''/broadcast'') []"

lemma demo_then:
  "csteps demo_handler (w, ts) (snd (exec (demo_handler r) w), ts @ [Return (fst (exec (demo_handler r) w))])"
  by (rule exec_handler_csteps) simp

end
