(* ===== verification/Service_Properties.thy ===== *)
theory Service_Properties
  imports Demo_Run
begin

section \<open>Properties of the service's handlers\<close>

text \<open>
  What each handler returns and does to the store, on every branch, for any service on the
  in-memory store; the witnesses are steps of the concrete run.
\<close>

subsection \<open>Approvals and signing\<close>

text \<open>
  C11. The approval that completes the quorum gets the transaction signed: with a live
  context, a working random source and a backend that signs, \<^verbatim>\<open>CoSign\<close> by an allowed signer
  who has not approved yet returns the transaction in state signed, with the backend's
  payload and all approvals, stores exactly that, and records the approval and the signing.
\<close>

theorem completing_approval_signs:
  assumes "calm w" and "svStore s = memory_store" and "mem_ok (w_store w)"
    and "transactions (w_store w) i = Some p" and "may_approve (svPolicy s) signer p" and "1 \<le> ApprovalsCount p"
    and "bSignTransaction (svSigner s) None (approve (approval_now signer w) p) (w_signer w) = (Inr sig, sg)"
  shows "\<exists>q w'. exec (CoSign s i signer) w = (Inr q, w') \<and> transactions (w_store w') i = Some q \<and>
     pStatus q = TransactionStatusSigned \<and> pSignedTransaction q = SignedTransaction sig \<and>
     map_of (approvals q) = (map_of (approvals p))(signer \<mapsto> approval_now signer w) \<and>
     map vType (auditEvents (w_store w')) = map vType (auditEvents (w_store w)) @
       [AuditEventTransactionApproved, AuditEventTransactionSigned]"
proof -
  let ?q = "approve (approval_now signer w) p" and ?w = "after_approval signer p w"
  have i: "pID p = i" and wf: "wf_proposal p" using assms(3,4) by (auto simp: mem_ok_def)
  have two: "2 \<le> ApprovalsCount ?q"
    using assms(5,6) by (simp add: ApprovalsCount_def may_approve_def approval_now_def length_gput)
  obtain w' where "exec (sign_phase s ?q) ?w = (Inr (signed_as sig ?q), w')"
    "transactions (w_store w') = (transactions (w_store ?w))(pID ?q \<mapsto> signed_as sig ?q)"
    "map vType (auditEvents (w_store w')) = map vType (auditEvents (w_store ?w)) @ [AuditEventTransactionSigned]"
    using exec_sign_phase_ok [of ?w s ?q sig sg] assms i wf
    by (auto simp: may_approve_def mem_ok_after_approval)
  with exec_CoSign [OF assms(1-5)] two i show ?thesis
    by (simp add: signed_as_def approval_now_def)
qed

theorem completing_approval_signs_witness:
  "\<exists>w j q w'. demo_pending 1 (w_store w) (w_signer w) j (the (transactions (w_store w) j)) \<and>
     exec (CoSign demo_service j ''bob'') w = (Inr q, w') \<and> pStatus q = TransactionStatusSigned \<and>
     transactions (w_store w') j = Some q"
proof -
  obtain w ts j p where w: "demo_reach (w, ts)" "calm w" and p: "demo_pending 1 (w_store w) (w_signer w) j p"
    by (rule demo_approved)
  let ?q = "approve (approval_now ''bob'' w) p"
  have tx: "transactions (w_store w) j = Some p" using p by (simp add: demo_pending_def)
  have one: "ApprovalsCount p = 1"
    using p by (auto simp: demo_pending_def ApprovalsCount_def)
  then have two: "2 \<le> ApprovalsCount ?q"
    using p by (auto simp: ApprovalsCount_def approval_now_def demo_pending_def)
  obtain sig where sig: "bSignTransaction (demo_backend demo_lib) None ?q (w_signer w) = (Inr sig, w_signer w)"
    using demo_signs [of ?q "w_signer w"] p two by (auto simp: demo_pending_def simp del: map_of_eq_None_iff)
  obtain q w' where "exec (CoSign demo_service j ''bob'') w = (Inr q, w')" "pStatus q = TransactionStatusSigned"
    "transactions (w_store w') j = Some q"
    using completing_approval_signs [OF w(2) _ demo_reach_mem_ok [OF w(1)] tx, of demo_service "''bob''" sig "w_signer w"]
      demo_may_approve [OF p, of "''bob''"] one sig by auto
  with p tx show ?thesis by (metis option.sel)
qed

text \<open>
  C13. The first approval of a transaction is recorded and audited, and nothing is signed:
  the transaction stays a proposal and the signing backend is left as it was.
\<close>

theorem first_approval_waits:
  assumes "calm w" and "svStore s = memory_store" and "mem_ok (w_store w)"
    and "transactions (w_store w) i = Some p" and "may_approve (svPolicy s) signer p" and "ApprovalsCount p = 0"
  shows "\<exists>q w'. exec (CoSign s i signer) w = (Inr q, w') \<and> transactions (w_store w') i = Some q \<and>
     pStatus q = TransactionStatusProposed \<and> gkeys (approvals q) = [signer] \<and> w_signer w' = w_signer w \<and>
     map vType (auditEvents (w_store w')) = map vType (auditEvents (w_store w)) @ [AuditEventTransactionApproved]"
proof -
  have i: "pID p = i" using assms(3,4) by (auto simp: mem_ok_def)
  have "\<not> 2 \<le> ApprovalsCount (approve (approval_now signer w) p)" and "approvals p = []"
    using assms(5,6) by (simp_all add: ApprovalsCount_def)
  with exec_CoSign [OF assms(1-5)] assms(5) i show ?thesis
    by (simp add: may_approve_def approval_now_def)
qed

theorem first_approval_waits_witness:
  "\<exists>w j q w'. exec (CoSign demo_service j ''alice'') w = (Inr q, w') \<and> pStatus q = TransactionStatusProposed \<and>
     gkeys (approvals q) = [''alice'']"
proof -
  obtain w ts j p where w: "demo_reach (w, ts)" "calm w" and p: "demo_pending 0 (w_store w) (w_signer w) j p"
    by (rule demo_proposed)
  have "transactions (w_store w) j = Some p" "ApprovalsCount p = 0"
    using p by (simp_all add: demo_pending_def ApprovalsCount_def)
  with first_approval_waits [OF w(2) _ demo_reach_mem_ok [OF w(1)], of demo_service j p "''alice''"]
    demo_may_approve [OF p, of "''alice''"]
  obtain q w' where "exec (CoSign demo_service j ''alice'') w = (Inr q, w')" "pStatus q = TransactionStatusProposed"
    "gkeys (approvals q) = [''alice'']" by auto
  then show ?thesis by (intro exI conjI)
qed

text \<open>
  C14. \<^verbatim>\<open>CoSign\<close> refuses, and changes neither the store nor the signing backend: an empty
  signer, a signer the policy does not allow (403 at the API), an unknown transaction, one
  that is no longer a proposal, and a signer who approved already; each with its own error.
\<close>

theorem cosign_refusals:
  assumes "svStore s = memory_store" and "shd (w_ctx w) = None" and "exec (CoSign s i signer) w = (r, w')"
    and "\<not> (\<exists>p. transactions (w_store w) i = Some p \<and> may_approve (svPolicy s) signer p)"
  shows "w_store w' = w_store w \<and> w_signer w' = w_signer w \<and> isl r \<and>
     (if signer = [] then r = Inl (Fresh ''signer_id is required'')
      else if \<not> signerAllowed (svPolicy s) signer then errors_Is (projl r) ErrUnauthorizedSigner
      else (case transactions (w_store w) i of
              None \<Rightarrow> r = Inl ErrTransactionNotFound
            | Some p \<Rightarrow> if pStatus p \<noteq> TransactionStatusProposed then r = Inl ErrTransactionNotProposed
                        else r = Inl ErrDuplicateApproval))"
  using exec_CoSign_refused [OF assms(1,2,4)] assms(3)
  by (auto simp: cosign_refusal_def ErrUnauthorizedSigner_def split: option.splits)

theorem cosign_refusals_witness:
  "\<exists>w j. transactions (w_store w) j \<noteq> None \<and>
     errors_Is (projl (fst (exec (CoSign demo_service j ''mallory'') w))) ErrUnauthorizedSigner \<and>
     w_store (snd (exec (CoSign demo_service j ''mallory'') w)) = w_store w"
proof -
  obtain w ts j p where w: "demo_reach (w, ts)" "calm w" and p: "demo_pending 0 (w_store w) (w_signer w) j p"
    by (rule demo_proposed)
  have no: "\<not> signerAllowed (svPolicy demo_service) ''mallory''" by (simp add: signerAllowed_system)
  have "transactions (w_store w) j \<noteq> None" using p by (simp add: demo_pending_def)
  with cosign_refusals [of demo_service w j "''mallory''" "fst (exec (CoSign demo_service j ''mallory'') w)"
      "snd (exec (CoSign demo_service j ''mallory'') w)"] w no show ?thesis
    by (auto simp: may_approve_def)
qed

text \<open>
  C15. When the backend refuses to sign at the completing approval, \<^verbatim>\<open>CoSign\<close> returns the
  backend's error and the transaction ends in state failed with the error's text, its signed
  payload untouched; the approval and the failure are audited.
\<close>

theorem refused_signature_fails_transaction:
  assumes "calm w" and "svStore s = memory_store" and "mem_ok (w_store w)"
    and "transactions (w_store w) i = Some p" and "may_approve (svPolicy s) signer p" and "1 \<le> ApprovalsCount p"
    and "bSignTransaction (svSigner s) None (approve (approval_now signer w) p) (w_signer w) = (Inl err, sg)"
  shows "\<exists>q w'. exec (CoSign s i signer) w = (Inl err, w') \<and> transactions (w_store w') i = Some q \<and>
     pStatus q = TransactionStatusFailed \<and> pError q = Error err \<and> pSignedTransaction q = pSignedTransaction p \<and>
     map vType (auditEvents (w_store w')) = map vType (auditEvents (w_store w)) @
       [AuditEventTransactionApproved, AuditEventTransactionFailed]"
proof -
  let ?q = "approve (approval_now signer w) p" and ?w = "after_approval signer p w"
  have i: "pID p = i" and wf: "wf_proposal p" using assms(3,4) by (auto simp: mem_ok_def)
  have two: "2 \<le> ApprovalsCount ?q"
    using assms(5,6) by (simp add: ApprovalsCount_def may_approve_def approval_now_def length_gput)
  obtain w' t where "exec (sign_phase s ?q) ?w = (Inl err, w')"
    "transactions (w_store w') = (transactions (w_store ?w))(pID ?q \<mapsto>
       ?q\<lparr>pStatus := TransactionStatusFailed, pError := Error err, pUpdatedAt := t\<rparr>)"
    "map vType (auditEvents (w_store w')) = map vType (auditEvents (w_store ?w)) @ [AuditEventTransactionFailed]"
    using exec_sign_phase_fail [of ?w s ?q err sg] assms i wf
    by (auto simp: mem_ok_after_approval)
  with exec_CoSign [OF assms(1-5)] two i show ?thesis by simp
qed

text \<open>The backend of the run has no key for a wallet it never saw.\<close>

definition keyless :: "unit system \<Rightarrow> unit system" where
  "keyless w = w\<lparr>w_signer := (w_signer w)\<lparr>records := []\<rparr>\<rparr>"

theorem refused_signature_fails_transaction_witness:
  "\<exists>w j q w' err. exec (CoSign demo_service j ''bob'') (keyless w) = (Inl err, w') \<and>
     transactions (w_store w') j = Some q \<and> pStatus q = TransactionStatusFailed \<and>
     pError q = ''signing wallet material not found''"
proof -
  obtain w ts j p where w: "demo_reach (w, ts)" "calm w" and p: "demo_pending 1 (w_store w) (w_signer w) j p"
    by (rule demo_approved)
  let ?q = "approve (approval_now ''bob'' (keyless w)) p"
  have one: "ApprovalsCount p = 1" using p by (auto simp: demo_pending_def ApprovalsCount_def)
  then have two: "2 \<le> ApprovalsCount ?q"
    using p by (auto simp: ApprovalsCount_def approval_now_def demo_pending_def)
  have refuse: "bSignTransaction (svSigner demo_service) None ?q (w_signer (keyless w)) =
      (Inl (Fresh ''signing wallet material not found''), w_signer (keyless w))"
    using two by (simp add: demo_backend_def demo_SignTransaction_def quorumThreshold_def keyless_def)
  have k: "calm (keyless w)" "mem_ok (w_store (keyless w))" "transactions (w_store (keyless w)) j = Some p"
    using w demo_reach_mem_ok [OF w(1)] p by (simp_all add: keyless_def demo_pending_def)
  obtain q w' where "exec (CoSign demo_service j ''bob'') (keyless w) = (Inl (Fresh ''signing wallet material not found''), w')"
    "transactions (w_store w') j = Some q" "pStatus q = TransactionStatusFailed"
    "pError q = ''signing wallet material not found''"
    using refused_signature_fails_transaction [OF k(1) _ k(2,3) _ _ refuse] demo_may_approve [OF p, of "''bob''"] one
    by auto
  then show ?thesis by (intro exI conjI)
qed

subsection \<open>Broadcasting\<close>

text \<open>
  C16. Broadcasting a signed transaction hands exactly the stored signed payload to the
  adapter of its chain and stores the hash it returns, in state broadcast, with one audit
  event.
\<close>

theorem broadcast_records_hash:
  assumes "calm w" and "svStore s = memory_store" and "mem_ok (w_store w)"
    and "transactions (w_store w) i = Some p" and "pStatus p = TransactionStatusSigned"
    and "pSignedTransaction p \<noteq> []" and "registry_Get (svChains s) (pChain p) = Some adapter"
    and "aBroadcast adapter None (pSignedTransaction p) (w_adapters w) = (Inr hash, ad)"
  shows "\<exists>q w'. exec (Broadcast s i) w = (Inr q, w') \<and> transactions (w_store w') i = Some q \<and>
     pStatus q = TransactionStatusBroadcast \<and> pBroadcastHash q = hash \<and>
     pSignedTransaction q = pSignedTransaction p \<and> approvals q = approvals p \<and>
     map vType (auditEvents (w_store w')) = map vType (auditEvents (w_store w)) @ [AuditEventTransactionBroadcast]"
  using exec_Broadcast_ok [OF assms refl] by (auto simp: approvals_def)

theorem broadcast_records_hash_witness:
  "\<exists>w j q w'. demo_reach w \<and> exec (Broadcast demo_service j) (fst w) = (Inr q, w') \<and>
     pStatus q = TransactionStatusBroadcast \<and> pBroadcastHash q \<noteq> []"
proof -
  obtain w ts j p where w: "demo_reach (w, ts)" "calm w" "transactions (w_store w) j = Some p"
    "pStatus p = TransactionStatusSigned" "pSignedTransaction p \<noteq> []" "pChain p = ChainEVM" by (rule demo_signed)
  let ?a = "evm_adapter demo_lib demo_client demo_send (evm_NewAdapter (EVMChainID demo_cfg) [EVMRPCURL demo_cfg])"
  have reg: "registry_Get (svChains demo_service) (pChain p) = Some ?a" by (simp add: system_registry_Get w(6))
  have hash: "aBroadcast ?a None (pSignedTransaction p) (w_adapters w) =
      (Inr (''0x'' @ hex_EncodeToString (sha256_Sum256 (''evm:'' @ pSignedTransaction p))), w_adapters w)"
    by (simp add: evm_adapter_def evm_Broadcast_def evm_NewAdapter_def w(5))
  obtain q w' where "exec (Broadcast demo_service j) w = (Inr q, w')" "pStatus q = TransactionStatusBroadcast"
    "pBroadcastHash q \<noteq> []"
    using broadcast_records_hash [OF w(2) _ demo_reach_mem_ok [OF w(1)] w(3,4,5) reg hash] by auto
  with w(1) show ?thesis by (metis fst_conv)
qed

text \<open>
  C18. Only signed transactions are broadcast: for any other state \<^verbatim>\<open>Broadcast\<close> fails and
  neither the store nor the chain adapter is touched.
\<close>

theorem broadcast_needs_signature:
  assumes "svStore s = memory_store" and "mem_ok (w_store w)" and "transactions (w_store w) i = Some p"
    and "pStatus p \<noteq> TransactionStatusSigned" and "exec (Broadcast s i) w = (r, w')"
  shows "isl r \<and> (shd (w_ctx w) = None \<longrightarrow> r = Inl ErrTransactionNotSigned) \<and>
     w_store w' = w_store w \<and> w_adapters w' = w_adapters w"
proof -
  have "cloneProposal p = p" using assms(2,3) by (auto simp: mem_ok_def)
  with assms show ?thesis
    by (auto simp: Broadcast_def on_store_def GetTransaction_def split: option.splits)
qed

theorem broadcast_needs_signature_witness:
  "\<exists>w j. transactions (w_store w) j \<noteq> None \<and>
     fst (exec (Broadcast demo_service j) w) = Inl ErrTransactionNotSigned"
proof -
  obtain w ts j p where w: "demo_reach (w, ts)" "calm w" and p: "demo_pending 1 (w_store w) (w_signer w) j p"
    by (rule demo_approved)
  then have tx: "transactions (w_store w) j = Some p" "pStatus p \<noteq> TransactionStatusSigned"
    by (auto simp: demo_pending_def)
  from broadcast_needs_signature [OF _ demo_reach_mem_ok [OF w(1)] tx, of demo_service
      "fst (exec (Broadcast demo_service j) w)" "snd (exec (Broadcast demo_service j) w)"] w(2) tx(1)
  show ?thesis by (metis calm_ctx option.distinct(1) prod.collapse siterate.sel(1) system_service_fields(1))
qed

subsection \<open>Idempotency\<close>

text \<open>
  C19. Creating a wallet is idempotent per chain and key: once a request with a key has
  returned a wallet, repeating it returns the same wallet and leaves the store alone, at any
  later time, after any other requests.
\<close>

theorem create_wallet_is_idempotent:
  assumes "calm w" and "svStore s = memory_store" and "key \<noteq> []"
    and "exec (Wallet_Service.CreateWallet s chain key) w = (Inr x, w1)"
    and "wallets (w_store w1) \<subseteq>\<^sub>m wallets (w_store w2)" and "idempotency (w_store w1) \<subseteq>\<^sub>m idempotency (w_store w2)"
    and "calm w2" and "bCreateWallet (svSigner s) None (next_id ''wlt'' w2) chain (w_signer w2) = (Inr m, sg)"
  shows "\<exists>w3. exec (Wallet_Service.CreateWallet s chain key) w2 = (Inr x, w3) \<and> w_store w3 = w_store w2"
proof -
  obtain ex where "idempotency (w_store w1) (idempotencyKey (''wallet:'' @ chain) key) = Some ex"
    "wallets (w_store w1) (iResourceID ex) = Some x"
    using exec_CreateWallet_key [OF assms(1-4)] by blast
  then have ex: "idempotency (w_store w2) (idempotencyKey (''wallet:'' @ chain) key) = Some ex"
    "wallets (w_store w2) (iResourceID ex) = Some x"
    using assms(5,6) by (auto simp: map_le_def dom_def)
  have "registry_Get (svChains s) chain \<noteq> None"
    using assms(4) by (auto simp: Wallet_Service.CreateWallet_def split: if_splits)
  from exec_CreateWallet_replay [OF assms(7,2) this assms(8,3) ex] show ?thesis by blast
qed

lemma demo_material: "\<exists>m sg'. bCreateWallet (demo_backend demo_lib) None j ChainEVM sg = (Inr m, sg')"
  by (auto simp: demo_backend_def demo_CreateWallet_def createPrivateKey_def demo_lib_def Let_def split: option.splits)

theorem create_wallet_is_idempotent_witness:
  "\<exists>w x w1 w3. exec (Wallet_Service.CreateWallet demo_service ChainEVM ''k1'') w = (Inr x, w1) \<and>
     exec (Wallet_Service.CreateWallet demo_service ChainEVM ''k1'') w1 = (Inr x, w3) \<and> w_store w3 = w_store w1 \<and>
     wallets (w_store w1) \<noteq> wallets (w_store w)"
proof -
  obtain w ts where "demo_reach (w, ts)" and w: "calm w" "w_store w = NewMemoryStore" by (rule demo_start)
  obtain m sg where m: "bCreateWallet (svSigner demo_service) None (next_id ''wlt'' w) ChainEVM (w_signer w) = (Inr m, sg)"
    using demo_material by fastforce
  obtain w1 where w1: "exec (Wallet_Service.CreateWallet demo_service ChainEVM ''k1'') w = (Inr (new_wallet ChainEVM m w), w1)" "calm w1"
    using exec_CreateWallet_new_key [OF w(1) _ _ m, of "''k1''"] w(2) by (auto simp: system_registry_Get NewMemoryStore_def)
  obtain m' sg' where m': "bCreateWallet (svSigner demo_service) None (next_id ''wlt'' w1) ChainEVM (w_signer w1) = (Inr m', sg')"
    using demo_material by fastforce
  obtain w3 where w3: "exec (Wallet_Service.CreateWallet demo_service ChainEVM ''k1'') w1 = (Inr (new_wallet ChainEVM m w), w3)"
      "w_store w3 = w_store w1"
    using create_wallet_is_idempotent [OF w(1) _ _ w1(1) _ _ w1(2) m'] by auto
  have "wallets (w_store w1) \<noteq> wallets (w_store w)"
    using exec_CreateWallet_key [OF w(1) _ _ w1(1)] w(2) by (auto simp: NewMemoryStore_def)
  with w1 w3 show ?thesis by (intro exI conjI)
qed

text \<open>
  C20. Proposing is idempotent per wallet and key: repeating a keyed proposal returns what
  the store now holds of the same transaction and leaves the store alone. The chain adapter
  builds a payload for the repeated request all the same: in local mode the EVM adapter has
  spent one more nonce.
\<close>

theorem propose_is_idempotent_but_spends_a_nonce:
  assumes "calm w" and "key \<noteq> []" and "mem_ok (w_store w)" and "EVMRPCURL cfg = []"
    and "exec (ProposeTransaction (system_service memory_store L C send cfg) trace rq key) w = (Inr p, w1)"
    and "calm w1" and "mem_ok (w_store w1)"
    and "wallets (w_store w1) (rWalletID rq) = Some source" and "wChain source = ChainEVM" and "evm_request_ok rq"
  shows "\<exists>w2. exec (ProposeTransaction (system_service memory_store L C send cfg) trace rq key) w1 = (Inr p, w2) \<and>
     w_store w2 = w_store w1 \<and>
     nonce_of (w_adapters w2) (wAddress source) = nonce_of (w_adapters w1) (wAddress source) + 1"
proof -
  let ?s = "system_service memory_store L C send cfg"
  let ?a = "evm_NewAdapter (EVMChainID cfg) [EVMRPCURL cfg]"
  obtain ex where ex: "idempotency (w_store w1) (idempotencyKey (''transaction:'' @ rWalletID rq) key) = Some ex"
    "iResourceID ex = pID p" "transactions (w_store w1) (pID p) = Some p"
    and pol: "validateAmountPolicy (svPolicy ?s) (wChain source) (rAmount rq) = None"
    using exec_Propose_key [OF assms(1) _ assms(3,2,5)] assms(8) by auto
  have reg: "registry_Get (svChains ?s) (wChain source) = Some (evm_adapter L C send ?a)"
    by (simp add: system_registry_Get assms(9))
  have "rpcURL ?a = []" by (simp add: evm_NewAdapter_def assms(4))
  from evm_Build_local_ok [OF this assms(10), of L C source "w_adapters w1"] obtain raw ad
    where build: "aBuildTransaction (evm_adapter L C send ?a) None source rq (w_adapters w1) = (Inr raw, ad)"
      and n: "nonce_of ad (wAddress source) = nonce_of (w_adapters w1) (wAddress source) + 1"
    by (auto simp: evm_adapter_def nonce_of_def)
  obtain w2 where "exec (ProposeTransaction ?s trace rq key) w1 = (Inr p, w2)" "w_store w2 = w_store w1" "w_adapters w2 = ad"
    using exec_Propose_replay [OF assms(6) _ assms(7,8) pol reg build assms(2) ex(1), of p trace] ex by auto
  with n show ?thesis by auto
qed

theorem propose_is_idempotent_but_spends_a_nonce_witness:
  "\<exists>w1 w2 rq p trace. exec (ProposeTransaction demo_service trace rq ''k1'') w1 = (Inr p, w2) \<and>
     w_store w2 = w_store w1 \<and> transactions (w_store w1) (pID p) = Some p \<and>
     nonce_of (w_adapters w2) ''0x01'' = nonce_of (w_adapters w1) ''0x01'' + 1"
proof -
  obtain w ts i x where w: "demo_reach (w, ts)" "calm w" and st: "wallets (w_store w) = [i \<mapsto> x]"
    "transactions (w_store w) = Map.empty" "idempotency (w_store w) = Map.empty"
    and x: "wID x = i" "wChain x = ChainEVM" "wAddress x = ''0x01''" by (rule demo_wallet)
  let ?rq = "demo_request_of i" and ?t = "None :: ctx_values"
  obtain raw ad where build: "aBuildTransaction (evm_adapter demo_lib demo_client demo_send demo_evm) None x ?rq (w_adapters w) = (Inr raw, ad)"
    by (rule demo_build [OF x(3)])
  obtain p w1 where run: "exec (ProposeTransaction demo_service ?t ?rq ''k1'') w = (Inr p, w1)" "calm w1"
    using exec_Propose_new_key [OF w(2) _ _ _ _ build, of demo_service "''k1''" ?t] demo_policy [of i] st x
    by (auto simp: system_registry_Get demo_request_fields)
  have inv: "custody_inv (system_policy demo_cfg) mem_view mem_ok w"
    using w(1) by (auto simp: demo_reach_def dest: system_reach_inv)
  have step: "custody_inv (system_policy demo_cfg) mem_view mem_ok w1 \<and> custody_step mem_view Pair w w1"
    using world_rg.safe_exec [OF sys.safe_ProposeTransaction _ run(1)] inv by simp
  then have ok: "mem_ok (w_store w1)" and x1: "wallets (w_store w1) (rWalletID ?rq) = Some x"
    using st by (auto simp: custody_inv_def custody_step_def view_step_def map_le_def demo_request_fields)
  have tx: "transactions (w_store w1) (pID p) = Some p"
    using exec_Propose_key [OF w(2) _ demo_reach_mem_ok [OF w(1)] _ run(1)] by auto
  obtain w2 where "exec (ProposeTransaction demo_service ?t ?rq ''k1'') w1 = (Inr p, w2)" "w_store w2 = w_store w1"
    "nonce_of (w_adapters w2) ''0x01'' = nonce_of (w_adapters w1) ''0x01'' + 1"
    using propose_is_idempotent_but_spends_a_nonce [OF w(2) _ demo_reach_mem_ok [OF w(1)] _ run ok x1 x(2) demo_request_fields(2)]
    by (auto simp: x(3))
  with tx show ?thesis by (intro exI conjI)
qed

end
