(* ===== verification/Service_Races.thy ===== *)
theory Service_Races
  imports Demo_Run
begin

section \<open>What concurrent and cancelled requests can do\<close>

text \<open>
  Two behaviours of the service that its safety properties leave open. A handler keeps the
  copy of a transaction it has read and writes the whole copy back, so a slower handler can
  overwrite what a faster one stored. And a request whose context ends between the store's
  operations leaves the first of them done without its audit event.
\<close>

subsection \<open>Overwriting with a stale copy\<close>

lemma respond_bind:
  "respond f (tryP (actP g) k) = bindP (actP g)
     (\<lambda>r. respond f (case r of Inl e \<Rightarrow> Return (Inl e) | Inr x \<Rightarrow> k x))"
  by (simp add: respond_def tryP_def bindP_assoc)

lemma exec_respond:
  "exec (respond f m) w = (case exec m w of (r, w') \<Rightarrow> (map_sum id f r, w'))"
  by (auto simp: respond_def split: prod.splits sum.splits)

text \<open>What \<^verbatim>\<open>Broadcast\<close> does with the copy it has read when the adapter reports an error.\<close>

definition broadcast_rest ::
  "('st, 'sg, 'ad) Service \<Rightarrow> TransactionProposal \<Rightarrow> (('st, 'sg, 'ad) world, error + TransactionProposal) prog" where
  "broadcast_rest s proposal =
     (if pStatus proposal \<noteq> TransactionStatusSigned \<or> pSignedTransaction proposal = []
      then Return (Inl ErrTransactionNotSigned)
      else
       (case registry_Get (svChains s) (pChain proposal) of
          None \<Rightarrow> Return (Inl (wrapf ErrUnsupportedChain (pChain proposal)))
        | Some adapter \<Rightarrow>
            bindP (actP (on_adapters (\<lambda>ctx. aBroadcast adapter ctx (pSignedTransaction proposal)))) (\<lambda>r.
            case r of
              Inl err \<Rightarrow>
                seqP (failTransaction s proposal err ''broadcast'')
                (seqP (appendAudit s (audit_event AuditEventTransactionFailed [] ''transaction''
                         (pID proposal) (pChain proposal)
                         (mustJSON [(''error'', Error err), (''phase'', ''broadcast'')])))
                (Return (Inl err)))
            | Inr hash \<Rightarrow>
                bindP (actP now) (\<lambda>t.
                let proposal = proposal\<lparr>pStatus := TransactionStatusBroadcast, pBroadcastHash := hash,
                                         pUpdatedAt := t\<rparr> in
                tryP (actP (on_store (\<lambda>ctx. sUpdateTransaction (svStore s) ctx proposal))) (\<lambda>_.
                tryP (appendAudit s (audit_event AuditEventTransactionBroadcast [] ''transaction''
                        (pID proposal) (pChain proposal) (mustJSON [(''broadcast_hash'', hash)]))) (\<lambda>_.
                seqP (actP (metrics_Inc ''custody_transactions_broadcast_total'' [(''chain'', pChain proposal)]))
                (Return (Inr proposal))))))))"

lemma Broadcast_rest:
  "Broadcast s i = tryP (actP (on_store (\<lambda>ctx. sGetTransaction (svStore s) ctx i))) (broadcast_rest s)"
  unfolding Broadcast_def broadcast_rest_def ..

lemma exec_broadcast_rest_fail:
  assumes "calm w" and "svStore s = memory_store" and "transactions (w_store w) (pID p) \<noteq> None" and "wf_proposal p"
    and "pStatus p = TransactionStatusSigned" and "pSignedTransaction p \<noteq> []"
    and "registry_Get (svChains s) (pChain p) = Some adapter"
    and "aBroadcast adapter None (pSignedTransaction p) (w_adapters w) = (Inl err, ad)"
  shows "\<exists>w' t. exec (broadcast_rest s p) w = (Inl err, w') \<and>
     transactions (w_store w') = (transactions (w_store w))(pID p \<mapsto>
       p\<lparr>pStatus := TransactionStatusFailed, pError := Error err, pUpdatedAt := t\<rparr>)"
proof -
  have "wf_proposal (p\<lparr>pStatus := st, pError := e, pUpdatedAt := t\<rparr>)" for st e t
    using assms(4) by (simp add: wf_proposal_def approvals_def)
  with assms show ?thesis
    by (auto simp: broadcast_rest_def on_adapters_calm on_store_calm failTransaction_def now_def
        UpdateTransaction_def appendAudit_calm Let_def)
qed

text \<open>
  C21. Two broadcast requests for the same signed transaction can interleave so that the
  chain accepts the transaction, the store says broadcast with the hash, and then the
  request that lost the race writes its stale copy: the stored transaction ends as failed
  and the hash is gone.
\<close>

theorem concurrent_broadcasts_lose_the_hash:
  assumes "calm w" and "svStore s = memory_store" and "mem_ok (w_store w)"
    and "transactions (w_store w) i = Some p" and "pStatus p = TransactionStatusSigned"
    and "pSignedTransaction p \<noteq> []" and "pBroadcastHash p = []"
    and "registry_Get (svChains s) (pChain p) = Some adapter"
    and "aBroadcast adapter None (pSignedTransaction p) (w_adapters w) = (Inr hash, ad)"
    and "aBroadcast adapter None (pSignedTransaction p) ad = (Inl err, ad')"
  shows "\<exists>w1 ts1 w2 ts2 q1 q2.
     csteps (handle s) (w, []) (w1, ts1) \<and> transactions (w_store w1) i = Some q1 \<and>
     pStatus q1 = TransactionStatusBroadcast \<and> pBroadcastHash q1 = hash \<and>
     csteps (handle s) (w1, ts1) (w2, ts2) \<and> transactions (w_store w2) i = Some q2 \<and>
     pStatus q2 = TransactionStatusFailed \<and> pBroadcastHash q2 = []"
proof -
  have i: "pID p = i" and wf: "wf_proposal p" using assms(3,4) by (auto simp: mem_ok_def)
  let ?A = "handle s (ReqBroadcast i)" and ?A1 = "respond RespProposal (broadcast_rest s p)"
  have s1: "csteps (handle s) (w, []) (w, [?A])"
    by (metis append_Nil cstep.spawn csteps_refl csteps_step)
  have s2: "csteps (handle s) (w, [?A]) (w, [?A1])"
  proof -
    let ?g = "on_store (\<lambda>ctx. sGetTransaction (svStore s) ctx i)"
    let ?k = "\<lambda>r. respond RespProposal (case r of Inl e \<Rightarrow> Return (Inl e) | Inr x \<Rightarrow> broadcast_rest s x)"
    have "?g w = (Inr p, w)" using assms(1,2,4) wf by (simp add: on_store_calm GetTransaction_def)
    moreover have "[?A] ! 0 = bindP (actP ?g) ?k" by (simp add: Broadcast_rest respond_bind)
    ultimately show ?thesis
      using cstep_call [where ts = "[?A]" and i = 0 and f = ?g and k = ?k and s = w and H = "handle s"] by simp
  qed
  obtain w1 q1 where B: "exec (Broadcast s i) w = (Inr q1, w1)"
    "transactions (w_store w1) = (transactions (w_store w))(i \<mapsto> q1)" "w_adapters w1 = ad" "calm w1"
    and q1: "pStatus q1 = TransactionStatusBroadcast" "pBroadcastHash q1 = hash"
    using exec_Broadcast_ok [OF assms(1-6,8,9) refl] by auto
  then have "exec ?A w = (Inr (RespProposal q1), w1)" by (simp add: exec_respond)
  then have s3: "csteps (handle s) (w, [?A1]) (w1, [?A1, Return (Inr (RespProposal q1))])"
    using exec_handler_csteps [of "handle s" "ReqBroadcast i" w _ w1 "[?A1]"] by simp
  note first = csteps_trans [OF csteps_trans [OF s1 s2] s3]
  obtain w2 t where "exec (broadcast_rest s p) w1 = (Inl err, w2)"
    and w2: "transactions (w_store w2) = (transactions (w_store w1))(pID p \<mapsto>
       p\<lparr>pStatus := TransactionStatusFailed, pError := Error err, pUpdatedAt := t\<rparr>)"
    using exec_broadcast_rest_fail [of w1 s p adapter err ad'] B assms(2,5,6,8,10) i wf by auto
  then have "exec ?A1 w1 = (Inl err, w2)" by (simp add: exec_respond)
  from exec_csteps_at [OF this, of 0 "[?A1, Return (Inr (RespProposal q1))]" "handle s"]
  have "csteps (handle s) (w1, [?A1, Return (Inr (RespProposal q1))]) (w2, [Return (Inl err), Return (Inr (RespProposal q1))])"
    by simp
  with first B q1 w2 i assms(7) show ?thesis by fastforce
qed

text \<open>A node that accepts a transaction once, and a signed transaction to broadcast.\<close>

definition once_client :: "bool EthClient" where
  "once_client =
     \<lparr>DialContext = \<lambda>_ _ s. (Inr (), s), ChainID = \<lambda>_ s. (Inr 31337, s), PendingNonceAt = \<lambda>_ _ s. (Inr 0, s),
      EstimateGas = \<lambda>_ _ _ _ _ s. (Inr 21000, s), SuggestGasPrice = \<lambda>_ s. (Inr 7, s),
      SuggestGasTipCap = \<lambda>_ s. (Inr 1, s)\<rparr>"

definition once_send :: "(byte list, bool) sender" where
  "once_send = (\<lambda>_ _ seen. if seen then (Inl (Fresh ''already known''), seen) else (Inr (), True))"

definition once_service :: "(MemoryStore, DemoQuorumBackend, bool adapters) Service" where
  "once_service = system_service memory_store demo_lib once_client once_send (demo_cfg\<lparr>EVMRPCURL := ''http://node''\<rparr>)"

definition race_proposal :: TransactionProposal where
  "race_proposal = sign_as ''0x01'' 0 (new_proposal
     \<lparr>wID = ''w'', wChain = ChainEVM, wAddress = ''0x01'', wPublicKey = [], wCreatedAt = 0\<rparr>
     \<lparr>TraceID = [], SpanID = []\<rparr> zero_request \<lparr>rawChain = ChainEVM, Payload = []\<rparr> ''t'' 0)"

definition race_world :: "bool system" where
  "race_world =
     \<lparr>w_store = NewMemoryStore\<lparr>transactions := [''t'' \<mapsto> race_proposal]\<rparr>,
      w_signer = \<lparr>records = [], evmPrivateKey = None, b_rand = sconst (Inr (\<lambda>_. 0)), b_clock = sconst 0\<rparr>,
      w_adapters = \<lparr>nonces = [], ad_clock = sconst 0, ad_rpc = False\<rparr>, w_metrics = NewMetrics,
      w_rand = sconst (Inr (\<lambda>_. 0)), w_clock = sconst 0, w_ctx = sconst None\<rparr>"

theorem concurrent_broadcasts_lose_the_hash_witness:
  "\<exists>w1 ts1 w2 ts2 q1 q2.
     csteps (handle once_service) (race_world, []) (w1, ts1) \<and> transactions (w_store w1) ''t'' = Some q1 \<and>
     pStatus q1 = TransactionStatusBroadcast \<and> pBroadcastHash q1 = ''0x01'' \<and>
     csteps (handle once_service) (w1, ts1) (w2, ts2) \<and> transactions (w_store w2) ''t'' = Some q2 \<and>
     pStatus q2 = TransactionStatusFailed \<and> pBroadcastHash q2 = []"
proof (rule concurrent_broadcasts_lose_the_hash)
  let ?a = "evm_adapter demo_lib once_client once_send (evm_NewAdapter 31337 [''http://node''])"
  have one: "hex_EncodeToString [1] = ''01''" by (simp add: hex_EncodeToString_def hex_byte_def hextable_def)
  have dec: "hex_DecodeString (trimHexPrefix ''0x01'') = Inr [1]"
    by (simp add: trimHexPrefix_def fromHexChar_def)
  have p: "pSignedTransaction race_proposal = ''0x01''" "pChain race_proposal = ChainEVM"
    by (simp_all add: race_proposal_def new_proposal_def)
  show "calm race_world" by (simp add: race_world_def calm_def lively_def)
  show "svStore once_service = memory_store" by (simp add: once_service_def)
  show "mem_ok (w_store race_world)"
    by (auto simp: race_world_def mem_ok_def NewMemoryStore_def race_proposal_def new_proposal_def wf_proposal_def
        approvals_def sign_as_def split: if_splits)
  show "transactions (w_store race_world) ''t'' = Some race_proposal" by (simp add: race_world_def)
  show "pStatus race_proposal = TransactionStatusSigned" "pSignedTransaction race_proposal \<noteq> []"
    "pBroadcastHash race_proposal = []"
    by (simp_all add: race_proposal_def new_proposal_def)
  show "registry_Get (svChains once_service) (pChain race_proposal) = Some ?a"
    by (simp add: once_service_def system_registry_Get p)
  show "aBroadcast ?a None (pSignedTransaction race_proposal) (w_adapters race_world) =
      (Inr ''0x01'', \<lparr>nonces = [], ad_clock = sconst 0, ad_rpc = True\<rparr>)"
    unfolding p by (simp add: evm_adapter_def evm_Broadcast_def evm_NewAdapter_def bindR_def on_rpc_def retR_def dec
        once_client_def once_send_def demo_lib_def race_world_def one)
  show "aBroadcast ?a None (pSignedTransaction race_proposal) \<lparr>nonces = [], ad_clock = sconst 0, ad_rpc = True\<rparr> =
      (Inl (Fresh ''already known''), \<lparr>nonces = [], ad_clock = sconst 0, ad_rpc = True\<rparr>)"
    unfolding p by (simp add: evm_adapter_def evm_Broadcast_def evm_NewAdapter_def bindR_def on_rpc_def retR_def dec
        once_client_def once_send_def demo_lib_def)
qed

subsection \<open>Cancelled requests\<close>

text \<open>
  C22. When the caller's context ends right after the approval has been stored, \<^verbatim>\<open>CoSign\<close>
  returns the context's error: the approval stays in the store, no audit event records it and
  nothing is signed even where the quorum is complete. Repeating the request as the same
  signer is then refused as a duplicate approval.
\<close>

theorem cancelled_approval_leaves_no_audit_event:
  assumes "svStore s = memory_store" and "mem_ok (w_store w)" and "transactions (w_store w) i = Some p"
    and "may_approve (svPolicy s) signer p" and "lively (w_rand w)" and "w_ctx w = None ## sconst (Some err)"
  shows "\<exists>w'. exec (CoSign s i signer) w = (Inl err, w') \<and>
     transactions (w_store w') i = Some (approve (approval_now signer w) p) \<and>
     auditEvents (w_store w') = auditEvents (w_store w) \<and> w_signer w' = w_signer w \<and>
     (\<forall>w2. w_store w2 = w_store w' \<longrightarrow> calm w2 \<longrightarrow> fst (exec (CoSign s i signer) w2) = Inl ErrDuplicateApproval)"
proof -
  let ?a = "approval_now signer w"
  have add: "AddApproval None i ?a (w_store w) =
      (Inr (approve ?a p), (w_store w)\<lparr>transactions := (transactions (w_store w))(i \<mapsto> approve ?a p)\<rparr>)"
    using assms by (intro mem_AddApproval_live) (auto simp: may_approve_def approval_now_def)
  obtain f where "shd (w_rand w) = Inr f" using lively_shd [OF assms(5)] by (cases "shd (w_rand w)") auto
  then have "\<exists>w'. exec (CoSign s i signer) w = (Inl err, w') \<and>
     transactions (w_store w') i = Some (approve ?a p) \<and>
     auditEvents (w_store w') = auditEvents (w_store w) \<and> w_signer w' = w_signer w"
    using assms(1,4,6) add
    by (simp add: CoSign_def may_approve_def now_def on_store_def metrics_Inc_def appendAudit_def ids_New_def
        rand_Read_def AppendAuditEvent_def Let_def flip: approval_now_def)
  moreover have "fst (exec (CoSign s i signer) w2) = Inl ErrDuplicateApproval"
    if "transactions (w_store w2) i = Some (approve ?a p)" "calm w2" for w2
    using that assms(1,4)
    by (simp add: CoSign_def may_approve_def now_def on_store_calm AddApproval_def approve_def approval_now_def Let_def dom_update)
  ultimately show ?thesis by auto
qed

text \<open>The second approval of the run, cancelled.\<close>

definition cut_off :: "unit system \<Rightarrow> unit system" where
  "cut_off w = w\<lparr>w_ctx := None ## sconst (Some (Fresh ''context canceled''))\<rparr>"

theorem cancelled_approval_leaves_no_audit_event_witness:
  "\<exists>w j p q w'. demo_pending 1 (w_store w) (w_signer w) j p \<and>
     exec (CoSign demo_service j ''bob'') (cut_off w) = (Inl (Fresh ''context canceled''), w') \<and>
     transactions (w_store w') j = Some q \<and> gkeys (approvals q) = [''alice'', ''bob''] \<and>
     pStatus q = TransactionStatusProposed \<and> auditEvents (w_store w') = auditEvents (w_store w)"
proof -
  obtain w ts j p where w: "demo_reach (w, ts)" "calm w" and p: "demo_pending 1 (w_store w) (w_signer w) j p"
    by (rule demo_approved)
  have c: "mem_ok (w_store (cut_off w))" "transactions (w_store (cut_off w)) j = Some p" "lively (w_rand (cut_off w))"
    "w_ctx (cut_off w) = None ## sconst (Some (Fresh ''context canceled''))" "auditEvents (w_store (cut_off w)) = auditEvents (w_store w)"
    using demo_reach_mem_ok [OF w(1)] p w(2) by (simp_all add: cut_off_def demo_pending_def)
  let ?q = "approve (approval_now ''bob'' (cut_off w)) p"
  obtain w' where "exec (CoSign demo_service j ''bob'') (cut_off w) = (Inl (Fresh ''context canceled''), w')"
    "transactions (w_store w') j = Some ?q" "auditEvents (w_store w') = auditEvents (w_store w)"
    using cancelled_approval_leaves_no_audit_event [OF _ c(1,2) _ c(3,4), of demo_service "''bob''"]
      demo_may_approve [OF p, of "''bob''"] c(5) by auto
  moreover have "gkeys (approvals ?q) = [''alice'', ''bob'']" "pStatus ?q = TransactionStatusProposed"
    using p by (auto simp: demo_pending_def approval_now_def)
  ultimately show ?thesis using p by (intro exI conjI)
qed

end
