(* ===== verification/Go_Time.thy ===== *)
theory Go_Time
  imports Go_Encoding
begin

section \<open>Package time: dates and RFC 3339\<close>

text \<open>
  Reading the timestamps that the program writes: \<^verbatim>\<open>parseRFC3339\<close>, the fast path of
  \<^verbatim>\<open>time.Time.UnmarshalJSON\<close>, with its range checks (leap years, fractions of any length,
  zone offsets), and the day number of a date. The results are that the calendar is
  computed correctly and that every written timestamp reads back as the same instant.
\<close>

definition is_leap :: "int \<Rightarrow> bool" where
  "is_leap y \<longleftrightarrow> y mod 4 = 0 \<and> (y mod 100 \<noteq> 0 \<or> y mod 400 = 0)"

definition daysIn :: "int \<Rightarrow> int \<Rightarrow> int" where
  "daysIn m y =
     (if m = 2 then (if is_leap y then 29 else 28)
      else if m = 4 \<or> m = 6 \<or> m = 9 \<or> m = 11 then 30 else 31)"

text \<open>Day number of a date, counted from March so that leap days come last.\<close>

definition days_of_civil :: "int \<Rightarrow> int \<Rightarrow> int \<Rightarrow> int" where
  "days_of_civil y m d =
     (let y' = (if m \<le> 2 then y - 1 else y); era = y' div 400; yoe = y' mod 400;
          mp = (if m > 2 then m - 3 else m + 9); doy = (153 * mp + 2) div 5 + d - 1
      in era * 146097 + (yoe * 365 + yoe div 4 - yoe div 100 + doy) - 719468)"

subsection \<open>The calendar\<close>

text \<open>First day of a year within its era of 400 years, and its approximate inverse.\<close>

definition year_start :: "int \<Rightarrow> int" where
  "year_start y = 365 * y + y div 4 - y div 100"

definition year_days :: "int \<Rightarrow> int" where
  "year_days doe = doe - doe div 1460 + doe div 36524 - doe div 146096"

lemma div_step: "0 < k \<Longrightarrow> (d + 1) div k \<le> d div k + (1 :: int)"
  using zdiv_mono1 [of "d + 1" "d + k" k] by (simp add: div_add_self2)

lemma year_days_mono1: "year_days d \<le> year_days (d + 1)"
proof -
  have q: "n div 146096 = n div 36524 div 4" for n :: int
    using zdiv_zmult2_eq [of 4 n 36524] by simp
  have "c - c div 4 \<le> c' - c' div 4" if "c' = c \<or> c' = c + 1" for c c' :: int
    using that div_step [of 4 c] by auto
  moreover have "(d + 1) div 36524 = d div 36524 \<or> (d + 1) div 36524 = d div 36524 + 1"
    using div_step [of 36524 d] zdiv_mono1 [of d "d + 1" 36524] by linarith
  ultimately have "d div 36524 - d div 146096 \<le> (d + 1) div 36524 - (d + 1) div 146096"
    unfolding q by blast
  with div_step [of 1460 d] show ?thesis unfolding year_days_def by linarith
qed

lemma year_days_mono: "a \<le> b \<Longrightarrow> year_days a \<le> year_days b"
proof (induction b rule: int_ge_induct)
  case base
  then show ?case by simp
next
  case (step i)
  with year_days_mono1 [of i] show ?case by simp
qed

lemma year_bounds_all:
  "list_all (\<lambda>y. 365 * y \<le> year_days (year_start y) \<and>
     (y < 399 \<longrightarrow> year_days (year_start (y + 1) - 1) < 365 * (y + 1))) [0..399]"
  by code_simp

lemma year_bounds:
  assumes "0 \<le> y" and "y \<le> 399"
  shows "365 * y \<le> year_days (year_start y)"
    and "y < 399 \<Longrightarrow> year_days (year_start (y + 1) - 1) < 365 * (y + 1)"
  using year_bounds_all assms by (auto simp: list_all_iff)

text \<open>The year of a day: the day lies between the year's first day and the next year's.\<close>

lemma year_of_day:
  assumes "0 \<le> doe" and "doe \<le> 146096" and y: "y = year_days doe div 365"
  shows "0 \<le> y" and "y \<le> 399" and "year_start y \<le> doe" and "doe < year_start (y + 1) \<or> y = 399"
proof -
  have lo: "365 * y \<le> year_days doe" and hi: "year_days doe < 365 * (y + 1)"
    using y by auto
  have "year_days 0 \<le> year_days doe" "year_days doe \<le> year_days 146096"
    using assms(1,2) by (auto intro: year_days_mono)
  then have "0 \<le> year_days doe" "year_days doe \<le> 145999" by (simp_all add: year_days_def)
  then have y0: "0 \<le> y" and y1: "y \<le> 399"
    unfolding y using zdiv_mono1 [of "year_days doe" 145999 365] by (simp_all add: pos_imp_zdiv_nonneg_iff)
  show "0 \<le> y" and "y \<le> 399" using y0 y1 by simp_all
  show "year_start y \<le> doe"
  proof (rule ccontr)
    assume less: "\<not> year_start y \<le> doe"
    then have "y \<noteq> 0" using assms(1) by (auto simp: year_start_def)
    then have "year_days (year_start y - 1) < 365 * y"
      using year_bounds(2) [of "y - 1"] y0 y1 by simp
    moreover have "year_days doe \<le> year_days (year_start y - 1)" using less by (intro year_days_mono) simp
    ultimately show False using lo by simp
  qed
  show "doe < year_start (y + 1) \<or> y = 399"
  proof (rule ccontr)
    assume "\<not> ?thesis"
    then have ge: "year_start (y + 1) \<le> doe" and "y < 399" using y1 by auto
    then have "365 * (y + 1) \<le> year_days (year_start (y + 1))" using year_bounds(1) [of "y + 1"] y0 by simp
    with year_days_mono [OF ge] hi show False by simp
  qed
qed

lemma div_Suc_int:
  fixes y k :: int
  assumes "1 < k"
  shows "(y + 1) div k = y div k + (if (y + 1) mod k = 0 then 1 else 0)"
proof (cases "y mod k + 1 = k")
  case True
  then have "(y + 1) mod k = 0" using mod_add_left_eq [of y k 1] by simp
  with True assms show ?thesis by (simp add: div_add1_eq)
next
  case False
  have r: "0 \<le> y mod k" "y mod k < k" using assms by simp_all
  with False have less: "y mod k + 1 < k" by linarith
  have "(y + 1) mod k = (y mod k + 1) mod k" by (simp only: mod_add_left_eq)
  also have "\<dots> = y mod k + 1" using r(1) less by simp
  finally have m: "(y + 1) mod k = y mod k + 1" .
  have "(y mod k + 1) div k = 0" using r(1) less by simp
  moreover have "(y + 1) mod k \<noteq> 0" using m r(1) by linarith
  ultimately show ?thesis using assms by (simp add: div_add1_eq [of y 1 k])
qed

lemma year_length:
  "year_start (y + 1) - year_start y =
     365 + (if (y + 1) mod 4 = 0 then 1 else 0) - (if (y + 1) mod 100 = 0 then 1 else 0)"
  by (simp add: year_start_def div_Suc_int)

text \<open>The month and the day of a day of the year.\<close>

definition month_start :: "int \<Rightarrow> int" where
  "month_start mp = (153 * mp + 2) div 5"

lemma month_of_day_all:
  "list_all (\<lambda>doy. let mp = (5 * doy + 2) div 153 in
     0 \<le> mp \<and> mp \<le> 11 \<and> month_start mp \<le> doy \<and> (mp < 11 \<longrightarrow> doy < month_start (mp + 1))) [0..365]"
  by code_simp

lemma month_of_day:
  assumes "0 \<le> doy" and "doy \<le> 365" and "mp = (5 * doy + 2) div 153"
  shows "0 \<le> mp" and "mp \<le> 11" and "month_start mp \<le> doy" and "mp < 11 \<Longrightarrow> doy < month_start (mp + 1)"
  using month_of_day_all assms by (auto simp: list_all_iff Let_def)

text \<open>Every day number has a valid date, and the date determines the day number.\<close>

lemma civil_parts:
  fixes days :: int
  obtains era yoe doy mp where "0 \<le> yoe" "yoe \<le> 399" "0 \<le> doy" "doy \<le> 365" "mp = (5 * doy + 2) div 153"
    and "days + 719468 = era * 146097 + (year_start yoe + doy)"
    and "doy = 365 \<longrightarrow> is_leap (yoe + 1)"
    and "civil days = (yoe + era * 400 + (if 10 \<le> mp then 1 else 0), if mp < 10 then mp + 3 else mp - 9,
           doy - month_start mp + 1)"
proof -
  define z where "z = days + 719468"
  define doe where "doe = z mod 146097"
  define yoe where "yoe = year_days doe div 365"
  define doy where "doy = doe - year_start yoe"
  have doe: "0 \<le> doe" "doe \<le> 146096" unfolding doe_def using pos_mod_bound [of 146097 z] by simp_all
  note Y = year_of_day [OF doe yoe_def]
  have len: "doy \<le> 365 \<and> (doy = 365 \<longrightarrow> is_leap (yoe + 1))"
  proof (cases "yoe = 399")
    case True
    then show ?thesis using doe by (simp add: doy_def year_start_def is_leap_def)
  next
    case False
    then have "(yoe + 1) mod 400 = yoe + 1" using Y(1,2) by simp
    then have "doy < 365 + (if (yoe + 1) mod 4 = 0 then 1 else 0) - (if (yoe + 1) mod 100 = 0 then 1 else 0)"
      using Y(4) False year_length [of yoe] by (simp add: doy_def)
    then show ?thesis by (auto simp: is_leap_def split: if_splits)
  qed
  have "doy = 365 \<longrightarrow> is_leap (yoe + 1)" using len by simp
  moreover have "0 \<le> doy" using Y(3) by (simp add: doy_def)
  moreover have "days + 719468 = z div 146097 * 146097 + (year_start yoe + doy)"
    by (simp add: doy_def doe_def z_def)
  moreover have "civil days = (yoe + z div 146097 * 400 + (if 10 \<le> (5 * doy + 2) div 153 then 1 else 0),
      if (5 * doy + 2) div 153 < 10 then (5 * doy + 2) div 153 + 3 else (5 * doy + 2) div 153 - 9,
      doy - month_start ((5 * doy + 2) div 153) + 1)"
  proof -
    define mp where "mp = (5 * doy + 2) div 153"
    have yoe2: "(doe - doe div 1460 + doe div 36524 - doe div 146096) div 365 = yoe"
      by (simp add: yoe_def year_days_def)
    have doy2: "doe - (365 * yoe + yoe div 4 - yoe div 100) = doy" by (simp add: doy_def year_start_def)
    have "0 \<le> mp" "mp \<le> 11" using month_of_day [OF \<open>0 \<le> doy\<close> _ refl] len by (simp_all add: mp_def)
    then show ?thesis
      unfolding civil_def Let_def z_def [symmetric] doe_def [symmetric] yoe2 doy2 mp_def [symmetric]
      by (simp add: month_start_def)
  qed
  ultimately show thesis using that [of yoe doy] Y(1,2) len by blast
qed

lemma is_leap_era: "is_leap (y + era * 400 + 1) = is_leap (y + 1)"
proof -
  have "(y + era * 400 + 1) mod k = (y + 1) mod k" if "k dvd 400" for k
    using that mod_mult_self2 [of "y + 1" k "era * (400 div k)"] by (auto simp: algebra_simps dvd_div_mult_self)
  from this [of 4] this [of 100] this [of 400] show ?thesis by (simp add: is_leap_def)
qed

lemma month_lengths:
  "list_all (\<lambda>mp. month_start (mp + 1) - month_start mp = daysIn (if mp < 10 then mp + 3 else mp - 9) 1) [0..10]"
  by code_simp

lemma civil_valid:
  assumes "civil days = (y, m, d)"
  shows "1 \<le> m" and "m \<le> 12" and "1 \<le> d" and "d \<le> daysIn m y" and "days_of_civil y m d = days"
proof -
  obtain era yoe doy mp where b: "0 \<le> yoe" "yoe \<le> 399" "0 \<le> doy" "doy \<le> 365" and mp: "mp = (5 * doy + 2) div 153"
    and days: "days + 719468 = era * 146097 + (year_start yoe + doy)" and leap: "doy = 365 \<longrightarrow> is_leap (yoe + 1)"
    and c: "civil days = (yoe + era * 400 + (if 10 \<le> mp then 1 else 0), if mp < 10 then mp + 3 else mp - 9,
           doy - month_start mp + 1)" by (rule civil_parts [of days])
  note M = month_of_day [OF b(3,4) mp]
  have y: "y = yoe + era * 400 + (if 10 \<le> mp then 1 else 0)" and m: "m = (if mp < 10 then mp + 3 else mp - 9)"
    and d: "d = doy - month_start mp + 1" using assms c by simp_all
  show "1 \<le> m" "m \<le> 12" "1 \<le> d" using M(1-3) by (simp_all add: m d)
  show "d \<le> daysIn m y"
  proof (cases "mp = 11")
    case True
    then have "d \<le> 29 \<and> (d = 29 \<longrightarrow> doy = 365)" using b(4) by (simp add: d month_start_def)
    moreover have "is_leap y = is_leap (yoe + 1)" using is_leap_era True by (simp add: y)
    ultimately show ?thesis using leap by (auto simp: m True daysIn_def)
  next
    case False
    then have "mp < 11" "m \<noteq> 2" using M(1,2) by (auto simp: m)
    then have "d \<le> month_start (mp + 1) - month_start mp" using M(4) by (simp add: d)
    also have "\<dots> = daysIn m 1" using month_lengths \<open>mp < 11\<close> M(1) by (auto simp: list_all_iff m)
    finally show ?thesis using \<open>m \<noteq> 2\<close> by (simp add: daysIn_def)
  qed
  have m2: "m \<le> 2 \<longleftrightarrow> 10 \<le> mp" using M(1,2) by (auto simp: m)
  have "(if m \<le> 2 then y - 1 else y) = yoe + era * 400" unfolding m2 by (simp add: y)
  moreover have "(yoe + era * 400) div 400 = era" "(yoe + era * 400) mod 400 = yoe" using b(1,2) by simp_all
  moreover have "(if m > 2 then m - 3 else m + 9) = mp" using M(1,2) by (auto simp: m)
  ultimately show "days_of_civil y m d = days"
    using days by (simp add: days_of_civil_def Let_def year_start_def d month_start_def)
qed

subsection \<open>Reading\<close>

text \<open>\<^verbatim>\<open>parseUint(s, min, max)\<close> inside \<^verbatim>\<open>parseRFC3339\<close>.\<close>

definition parse_range :: "string \<Rightarrow> int \<Rightarrow> int \<Rightarrow> int option" where
  "parse_range s lo hi =
     (if list_all is_digit s \<and> lo \<le> int (dec_val s) \<and> int (dec_val s) \<le> hi then Some (int (dec_val s)) else None)"

text \<open>The digits after the point, at most nine of them counting.\<close>

definition parse_nanos :: "string \<Rightarrow> int" where
  "parse_nanos ds = (let ds = take 9 ds in int (dec_val ds) * 10 ^ (9 - length ds))"

definition split_frac :: "string \<Rightarrow> int \<times> string" where
  "split_frac s =
     (if length s \<ge> 2 \<and> s ! 0 = CHR ''.'' \<and> is_digit (s ! 1)
      then (let ds = takeWhile is_digit (drop 1 s) in (parse_nanos ds, drop (1 + length ds) s))
      else (0, s))"

text \<open>The offset of the zone in seconds.\<close>

definition parse_zone :: "string \<Rightarrow> int option" where
  "parse_zone s =
     (if s = ''Z'' then Some 0
      else if length s \<noteq> 6 then None
      else (case (parse_range (take 2 (drop 1 s)) 0 23, parse_range (drop 4 s) 0 59) of
              (Some hr, Some mm) \<Rightarrow>
                if (s ! 0 = CHR ''-'' \<or> s ! 0 = CHR ''+'') \<and> s ! 3 = CHR '':''
                then Some ((if s ! 0 = CHR ''-'' then - 1 else 1) * ((hr * 60 + mm) * 60)) else None
            | _ \<Rightarrow> None))"

definition parseRFC3339 :: "string \<Rightarrow> time option" where
  "parseRFC3339 s =
     (if length s < 19 then None
      else (case (parse_range (take 4 s) 0 9999, parse_range (take 2 (drop 5 s)) 1 12) of
        (Some y, Some m) \<Rightarrow>
          (case (parse_range (take 2 (drop 8 s)) 1 (daysIn m y), parse_range (take 2 (drop 11 s)) 0 23,
                 parse_range (take 2 (drop 14 s)) 0 59, parse_range (take 2 (drop 17 s)) 0 59) of
             (Some d, Some h, Some mi, Some sec) \<Rightarrow>
               if s ! 4 = CHR ''-'' \<and> s ! 7 = CHR ''-'' \<and> s ! 10 = CHR ''T'' \<and> s ! 13 = CHR '':'' \<and> s ! 16 = CHR '':''
               then (case split_frac (drop 19 s) of (ns, z) \<Rightarrow>
                 (case parse_zone z of None \<Rightarrow> None
                  | Some off \<Rightarrow>
                      Some ((days_of_civil y m d * 86400 + h * 3600 + mi * 60 + sec - off) * 1000000000 + ns)))
               else None
           | _ \<Rightarrow> None)
      | _ \<Rightarrow> None))"

lemma parse_examples:
  "parseRFC3339 ''1970-01-01T00:00:00Z'' = Some 0"
  "parseRFC3339 ''2000-02-29T12:34:56.12Z'' = Some (951827696 * 10 ^ 9 + 120000000)"
  "parseRFC3339 ''2001-02-29T12:34:56Z'' = None"
  "parseRFC3339 ''1970-01-01T01:00:00+01:00'' = Some 0"
  by code_simp+

subsection \<open>Round trip\<close>

lemma dec_val_append: "dec_val (xs @ ys) = dec_val xs * 10 ^ length ys + dec_val ys"
proof (induction ys rule: rev_induct)
  case Nil
  then show ?case by (simp add: dec_val_def)
next
  case (snoc y ys)
  have "dec_val (xs @ ys @ [y]) = 10 * dec_val (xs @ ys) + digit_val y"
    using dec_val_snoc [of "xs @ ys" y] by simp
  with snoc show ?case by (simp add: dec_val_snoc)
qed

lemma dec_val_zeros: "dec_val (replicate k (CHR ''0'')) = 0"
  by (induction k) (simp_all add: dec_val_def digit_val_def)

lemma length_show_nat: "n < 10 ^ w \<Longrightarrow> 0 < w \<Longrightarrow> length (show_nat n) \<le> w"
proof (induction n arbitrary: w rule: show_nat.induct)
  case (1 n)
  show ?case
  proof (cases "n < 10")
    case True
    with 1 show ?thesis by (simp add: show_nat.simps [of n])
  next
    case False
    obtain v where v: "w = Suc v" using 1(3) by (cases w) auto
    have "0 < v" using v 1(2) False by (cases v) auto
    with v have w: "w = Suc v" "0 < v" by simp_all
    then have "n div 10 < 10 ^ v" using 1(2) by (simp add: div_less_iff_less_mult mult.commute)
    with 1(1) [OF False, of v] w False show ?thesis by (simp add: show_nat.simps [of n])
  qed
qed

lemma pad_int_digits:
  assumes "0 \<le> i" and "i < 10 ^ w" and "0 < w"
  shows "length (pad_int w i) = w" and "list_all is_digit (pad_int w i)" and "dec_val (pad_int w i) = nat i"
proof -
  have "length (show_nat (nat i)) \<le> w"
    using assms by (intro length_show_nat) (auto simp: nat_less_iff)
  with assms(1) show "length (pad_int w i) = w" by (simp add: pad_int_def Let_def)
  show "list_all is_digit (pad_int w i)"
    using assms(1) show_nat_digits [of "nat i"] by (auto simp: pad_int_def Let_def list_all_iff is_digit_def)
  show "dec_val (pad_int w i) = nat i"
    using assms(1) show_nat_digits [of "nat i"] by (simp add: pad_int_def Let_def dec_val_append dec_val_zeros)
qed

lemma parse_range_pad:
  "lo \<le> i \<Longrightarrow> i \<le> hi \<Longrightarrow> 0 \<le> i \<Longrightarrow> i < 10 ^ w \<Longrightarrow> 0 < w \<Longrightarrow> parse_range (pad_int w i) lo hi = Some i"
  by (simp add: parse_range_def pad_int_digits)

lemma split_frac_text:
  assumes "0 \<le> ns" and "ns < 10 ^ 9"
  shows "split_frac (frac_text ns @ ''Z'') = (ns, ''Z'')"
proof (cases "ns = 0")
  case True
  then show ?thesis by (simp add: frac_text_def split_frac_def)
next
  case False
  let ?p = "pad_int 9 ns"
  define ds where "ds = rev (dropWhile ((=) (CHR ''0'')) (rev ?p))"
  define zs where "zs = rev (takeWhile ((=) (CHR ''0'')) (rev ?p))"
  have p: "?p = ds @ zs" unfolding ds_def zs_def by (metis rev_append rev_rev_ident takeWhile_dropWhile_id)
  have "zs = replicate (length zs) (CHR ''0'')"
    unfolding zs_def by (intro replicate_eqI) (auto dest: set_takeWhileD)
  then have zero: "dec_val zs = 0" by (metis dec_val_zeros)
  note P = pad_int_digits [of ns 9, OF assms]
  have val: "int (dec_val ds) * 10 ^ length zs = ns"
  proof -
    have "dec_val ds * 10 ^ length zs = nat ns" using P(3) by (simp add: p dec_val_append zero)
    then have "int (dec_val ds * 10 ^ length zs) = ns" using assms(1) by simp
    then show ?thesis by simp
  qed
  have dig: "list_all is_digit ds" and len: "length ds + length zs = 9" using P(1,2) by (simp_all add: p)
  have "ds \<noteq> []" using val False by (auto simp: dec_val_def)
  then obtain c cs where ds: "ds = c # cs" by (cases ds) auto
  have frac: "frac_text ns = CHR ''.'' # ds" using False by (simp add: frac_text_def ds_def)
  have tw: "takeWhile is_digit (ds @ ''Z'') = ds"
    using dig by (simp add: takeWhile_append list_all_iff) (simp add: is_digit_def)
  have "9 - length ds = length zs" using len by simp
  then have "parse_nanos ds = ns" using val len by (simp add: parse_nanos_def Let_def)
  then show ?thesis using frac tw ds dig by (simp add: split_frac_def)
qed

theorem parse_Format:
  assumes "civil (t div 1000000000 div 86400) = (y, m, d)" and "0 \<le> y" and "y \<le> 9999"
  shows "parseRFC3339 (Format_RFC3339Nano t) = Some t"
proof -
  define secs where "secs = t div 1000000000"
  define ns where "ns = t mod 1000000000"
  define sod where "sod = secs mod 86400"
  define h where "h = sod div 3600"
  define mi where "mi = sod div 60 mod 60"
  define sc where "sc = sod mod 60"
  have c: "civil (secs div 86400) = (y, m, d)" using assms(1) by (simp add: secs_def)
  note V = civil_valid [OF c]
  have d: "d \<le> 31" using V(4) by (auto simp: daysIn_def split: if_splits)
  have sod: "0 \<le> sod" "sod < 86400" by (simp_all add: sod_def)
  have r: "0 \<le> h" "h \<le> 23" "0 \<le> mi" "mi \<le> 59" "0 \<le> sc" "sc \<le> 59"
    using sod by (simp_all add: h_def mi_def sc_def)
  have n: "0 \<le> ns" "ns < 10 ^ 9" by (simp_all add: ns_def)
  define Y where "Y = pad_int 4 y"
  define M where "M = pad_int 2 m"
  define D where "D = pad_int 2 d"
  define H where "H = pad_int 2 h"
  define I where "I = pad_int 2 mi"
  define S where "S = pad_int 2 sc"
  note parts = Y_def M_def D_def H_def I_def S_def
  have len: "length Y = 4" "length M = 2" "length D = 2" "length H = 2" "length I = 2" "length S = 2"
    unfolding parts using assms V d r by (auto intro!: pad_int_digits(1))
  have val: "parse_range Y 0 9999 = Some y" "parse_range M 1 12 = Some m" "parse_range D 1 (daysIn m y) = Some d"
    "parse_range H 0 23 = Some h" "parse_range I 0 59 = Some mi" "parse_range S 0 59 = Some sc"
    unfolding parts using assms V d r by (auto intro!: parse_range_pad)
  have fmt: "Format_RFC3339Nano t =
      Y @ ''-'' @ M @ ''-'' @ D @ ''T'' @ H @ '':'' @ I @ '':'' @ S @ frac_text ns @ ''Z''"
    using c by (simp add: Format_RFC3339Nano_def Let_def parts h_def mi_def sc_def sod_def secs_def ns_def)
  have "(days_of_civil y m d * 86400 + h * 3600 + mi * 60 + sc) * 1000000000 + ns = t"
  proof -
    have "h = sod div 60 div 60" using zdiv_zmult2_eq [of 60 sod 60] by (simp add: h_def)
    then have "h * 60 + mi = sod div 60" by (simp add: mi_def)
    then have "h * 3600 + mi * 60 + sc = sod" unfolding sc_def using div_mult_mod_eq [of sod 60] by linarith
    then have "days_of_civil y m d * 86400 + h * 3600 + mi * 60 + sc = secs"
      using div_mult_mod_eq [of secs 86400] unfolding V(5) sod_def by linarith
    then show ?thesis by (simp add: secs_def ns_def)
  qed
  moreover have "parse_zone ''Z'' = Some 0" by (simp add: parse_zone_def)
  ultimately show ?thesis
    unfolding fmt parseRFC3339_def
    using len val split_frac_text [OF n] by (simp add: nth_append eval_nat_numeral)
qed

end
