(* ===== verification/Proposal_Json.thy ===== *)
theory Proposal_Json
  imports Custody_Json Go_Time
begin

section \<open>Reading a transaction proposal back from JSON\<close>

text \<open>
  \<^verbatim>\<open>json.Marshal\<close> and \<^verbatim>\<open>json.Unmarshal\<close> of a \<^verbatim>\<open>TransactionProposal\<close>, the form in which the
  PostgreSQL store keeps one. Writing is \<^term>\<open>proposal_json\<close>; reading goes through the members
  of the document in any order, ignores unknown ones, and decodes the nested structs, the two
  maps, the times and the raw messages. A time is first read by the fast RFC 3339 reader;
  on other texts \<^verbatim>\<open>time.Parse\<close> is tried, which is the argument \<open>slow\<close>.
\<close>

definition marshal_proposal :: "TransactionProposal \<Rightarrow> error + string" where
  "marshal_proposal p =
     (case proposal_json p of None \<Rightarrow> Inl (Fresh ''json: error calling MarshalJSON'') | Some j \<Rightarrow> Inr (json_text j))"

definition zero_raw_transaction :: RawTransaction where
  "zero_raw_transaction = \<lparr>rawChain = [], Payload = []\<rparr>"

definition zero_approval :: Approval where
  "zero_approval = \<lparr>SignerID = [], aCreatedAt = zero_time\<rparr>"

definition zero_proposal :: TransactionProposal where
  "zero_proposal =
     \<lparr>pID = [], pWalletID = [], pChain = [], pStatus = [], pRequest = zero_request,
      pRawTransaction = zero_raw_transaction, pApprovals = None, pSignedTransaction = [],
      pBroadcastHash = [], pError = [], pTrace = None, pCreatedAt = zero_time, pUpdatedAt = zero_time\<rparr>"

text \<open>
  \<^verbatim>\<open>time.Time.UnmarshalJSON\<close> gets the text of the value: \<^verbatim>\<open>null\<close> changes nothing, anything but a
  string is an error, and the characters between the quotes are read as they stand.
\<close>

definition decode_time :: "(string \<Rightarrow> time option) \<Rightarrow> json \<Rightarrow> string \<Rightarrow> json_error + time option" where
  "decode_time slow j raw =
     (case j of
        JNull \<Rightarrow> Inr None
      | JStr _ \<Rightarrow>
          (let s = butlast (drop 1 raw) in
           case parseRFC3339 s of Some t \<Rightarrow> Inr (Some t)
           | None \<Rightarrow> (case slow s of Some t \<Rightarrow> Inr (Some t) | None \<Rightarrow> Inl (JType ''time'')))
      | _ \<Rightarrow> Inl (JType ''time''))"

definition time_field ::
  "(string \<Rightarrow> time option) \<Rightarrow> string \<Rightarrow> (time \<Rightarrow> 'a \<Rightarrow> 'a) \<Rightarrow> 'a field" where
  "time_field slow name put =
     (name, \<lambda>j raw x. map_sum id (\<lambda>t. case t of None \<Rightarrow> x | Some t \<Rightarrow> put t x) (decode_time slow j raw))"

text \<open>A nested struct is decoded over the value the field already has.\<close>

definition struct_field ::
  "'b field list \<Rightarrow> string \<Rightarrow> ('a \<Rightarrow> 'b) \<Rightarrow> ('b \<Rightarrow> 'a \<Rightarrow> 'a) \<Rightarrow> 'a field" where
  "struct_field fs name get put =
     (name, \<lambda>j raw x. map_sum id (\<lambda>y. put y x) (decode_struct False fs j (object_raws raw) (get x)))"

text \<open>
  A map: \<^verbatim>\<open>null\<close> makes it nil; the members of an object are put into the map there is, or
  into a new one, each decoded from the zero value of the element type.
\<close>

fun decode_entries ::
  "(json \<Rightarrow> string \<Rightarrow> json_error + 'v) \<Rightarrow> (string \<times> json) list \<Rightarrow> string list \<Rightarrow>
   (string, 'v) gomap \<Rightarrow> json_error + (string, 'v) gomap" where
  "decode_entries f ((k, j) # ms) (raw # raws) m =
     (case f j raw of Inl e \<Rightarrow> Inl e | Inr v \<Rightarrow> decode_entries f ms raws (gput k v m))"
| "decode_entries f _ _ m = Inr m"

definition map_field ::
  "(json \<Rightarrow> string \<Rightarrow> json_error + 'v) \<Rightarrow> string \<Rightarrow> ('a \<Rightarrow> (string, 'v) gomap option) \<Rightarrow>
   ((string, 'v) gomap option \<Rightarrow> 'a \<Rightarrow> 'a) \<Rightarrow> 'a field" where
  "map_field f name get put =
     (name, \<lambda>j raw x. case j of
        JNull \<Rightarrow> Inr (put None x)
      | JObj ms \<Rightarrow>
          map_sum id (\<lambda>m. put (Some m) x)
            (decode_entries f ms (object_raws raw) (case get x of None \<Rightarrow> [] | Some m \<Rightarrow> m))
      | _ \<Rightarrow> Inl (JType name))"

definition approval_fields :: "(string \<Rightarrow> time option) \<Rightarrow> Approval field list" where
  "approval_fields slow =
     [str_field ''signer_id'' (\<lambda>s x. x\<lparr>SignerID := s\<rparr>), time_field slow ''created_at'' (\<lambda>t x. x\<lparr>aCreatedAt := t\<rparr>)]"

definition raw_transaction_fields :: "RawTransaction field list" where
  "raw_transaction_fields =
     [str_field ''chain'' (\<lambda>s x. x\<lparr>rawChain := s\<rparr>), (''payload'', \<lambda>j raw x. Inr (x\<lparr>Payload := raw\<rparr>))]"

definition decode_string :: "json \<Rightarrow> string \<Rightarrow> json_error + string" where
  "decode_string j raw = (case j of JNull \<Rightarrow> Inr [] | JStr s \<Rightarrow> Inr s | _ \<Rightarrow> Inl (JType ''string''))"

definition decode_approval :: "(string \<Rightarrow> time option) \<Rightarrow> json \<Rightarrow> string \<Rightarrow> json_error + Approval" where
  "decode_approval slow j raw = decode_struct False (approval_fields slow) j (object_raws raw) zero_approval"

definition proposal_fields :: "(string \<Rightarrow> time option) \<Rightarrow> TransactionProposal field list" where
  "proposal_fields slow =
     [str_field ''id'' (\<lambda>s x. x\<lparr>pID := s\<rparr>), str_field ''wallet_id'' (\<lambda>s x. x\<lparr>pWalletID := s\<rparr>),
      str_field ''chain'' (\<lambda>s x. x\<lparr>pChain := s\<rparr>), str_field ''status'' (\<lambda>s x. x\<lparr>pStatus := s\<rparr>),
      struct_field (request_fields False) ''request'' pRequest (\<lambda>r x. x\<lparr>pRequest := r\<rparr>),
      struct_field raw_transaction_fields ''raw_transaction'' pRawTransaction (\<lambda>r x. x\<lparr>pRawTransaction := r\<rparr>),
      map_field (decode_approval slow) ''approvals'' pApprovals (\<lambda>m x. x\<lparr>pApprovals := m\<rparr>),
      str_field ''signed_transaction'' (\<lambda>s x. x\<lparr>pSignedTransaction := s\<rparr>),
      str_field ''broadcast_hash'' (\<lambda>s x. x\<lparr>pBroadcastHash := s\<rparr>), str_field ''error'' (\<lambda>s x. x\<lparr>pError := s\<rparr>),
      map_field decode_string ''trace'' pTrace (\<lambda>m x. x\<lparr>pTrace := m\<rparr>),
      time_field slow ''created_at'' (\<lambda>t x. x\<lparr>pCreatedAt := t\<rparr>),
      time_field slow ''updated_at'' (\<lambda>t x. x\<lparr>pUpdatedAt := t\<rparr>)]"

definition unmarshal_proposal :: "(string \<Rightarrow> time option) \<Rightarrow> string \<Rightarrow> error + TransactionProposal" where
  "unmarshal_proposal slow s =
     (case json_parse s of None \<Rightarrow> Inl (Fresh ''json: syntax error'')
      | Some j \<Rightarrow>
          (case decode_struct False (proposal_fields slow) j (object_raws s) zero_proposal of
             Inl e \<Rightarrow> Inl (Fresh ''json: cannot unmarshal'') | Inr p \<Rightarrow> Inr p))"

end
