(* ===== verification/Postgres_Client.thy ===== *)
theory Postgres_Client
  imports Store_Interface Proposal_Json "HOL-Library.Multiset"
begin

section \<open>The database behind the PostgreSQL store\<close>

text \<open>
  What \<^verbatim>\<open>internal/store/postgres.go\<close> sends to PostgreSQL and what comes back. Each SQL text of
  the file is one constructor, with the statement's parameters as arguments; the two embedded
  migration files are scripts of data definitions. The tables and \<open>run\<close>, the effect of a
  statement on them, are read off the SQL texts and the schema of the migrations: primary
  keys, the foreign key to \<^verbatim>\<open>wallets\<close>, \<^verbatim>\<open>TEXT\<close>, \<^verbatim>\<open>JSONB\<close> and \<^verbatim>\<open>TIMESTAMPTZ\<close> columns. The server
  and the driver themselves are the record \<open>Pgx\<close>, an argument of every operation of the
  store; \<open>pg_serves\<close> states what the store relies on of them.
\<close>

subsection \<open>Statements\<close>

datatype ddl =
    CreateTable string \<comment> \<open>\<^verbatim>\<open>CREATE TABLE IF NOT EXISTS\<close>\<close>
  | CreateIndex string string \<comment> \<open>\<^verbatim>\<open>CREATE INDEX IF NOT EXISTS\<close> name \<^verbatim>\<open>ON\<close> table\<close>

datatype stmt =
    Script "ddl list" \<comment> \<open>a migration file\<close>
  | InsertWallet string string string string time
  | InsertProposal string string string string string time time
  | UpdateProposal string string string time \<comment> \<open>\<^verbatim>\<open>SET status, proposal, updated_at WHERE id\<close>\<close>
  | UpdateApprovals string string time \<comment> \<open>\<^verbatim>\<open>SET proposal, updated_at WHERE id\<close>\<close>
  | InsertAudit string string string string string string "string option" time
  | InsertIdempotency string string string string time

text \<open>The embedded files; a directory would have no script.\<close>

definition migrationFiles :: "(string \<times> ddl list option) list" where
  "migrationFiles =
     [(''001_init.sql'', Some
         [CreateTable ''wallets'', CreateTable ''transaction_proposals'',
          CreateIndex ''transaction_proposals_wallet_id_idx'' ''transaction_proposals'',
          CreateIndex ''transaction_proposals_status_idx'' ''transaction_proposals'']),
      (''002_audit_policy.sql'', Some
         [CreateTable ''audit_events'',
          CreateIndex ''audit_events_resource_id_created_at_idx'' ''audit_events'',
          CreateIndex ''audit_events_created_at_idx'' ''audit_events'', CreateTable ''idempotency_keys''])]"

subsection \<open>Tables\<close>

text \<open>
  A row of \<^verbatim>\<open>wallets\<close>, \<^verbatim>\<open>audit_events\<close> and \<^verbatim>\<open>idempotency_keys\<close> has the columns of the Go struct it
  is written from (a NULL in the column \<^verbatim>\<open>metadata\<close> is the empty text, which no JSONB value
  has). A row of \<^verbatim>\<open>transaction_proposals\<close> has the document and the columns copied from it.
  The events are listed in the order they were inserted.
\<close>

record proposal_row =
  rowID :: string
  rowWalletID :: string
  rowChain :: string
  rowStatus :: string
  rowProposal :: string
  rowCreatedAt :: time
  rowUpdatedAt :: time

record tables =
  schema :: "string list"
  t_wallets :: "string \<rightharpoonup> Wallet"
  t_proposals :: "string \<rightharpoonup> proposal_row"
  t_audit :: "AuditEvent list"
  t_idem :: "string \<times> string \<rightharpoonup> IdempotencyRecord"

definition no_tables :: tables where
  "no_tables = \<lparr>schema = [], t_wallets = Map.empty, t_proposals = Map.empty, t_audit = [], t_idem = Map.empty\<rparr>"

text \<open>A \<^verbatim>\<open>TEXT\<close> value is valid UTF-8 without a zero byte; a \<^verbatim>\<open>TIMESTAMPTZ\<close> counts microseconds.\<close>

definition text_ok :: "string \<Rightarrow> bool" where
  "text_ok s \<longleftrightarrow> utf8_ok s \<and> CHR 0x00 \<notin> set s"

definition micros :: "time \<Rightarrow> time" where
  "micros t = t div 1000 * 1000"

fun run_ddl :: "ddl \<Rightarrow> string list \<Rightarrow> string + string list" where
  "run_ddl (CreateTable t) names = Inr (if t \<in> set names then names else names @ [t])"
| "run_ddl (CreateIndex i t) names =
     (if t \<notin> set names then Inl ''42P01'' else Inr (if i \<in> set names then names else names @ [i]))"

fun run_script :: "ddl list \<Rightarrow> string list \<Rightarrow> string + string list" where
  "run_script [] names = Inr names"
| "run_script (d # ds) names = (case run_ddl d names of Inl e \<Rightarrow> Inl e | Inr names' \<Rightarrow> run_script ds names')"

subsection \<open>The effect of a statement\<close>

text \<open>
  \<open>run jsonb st T\<close>: the number of affected rows and the tables after the statement, or the
  \<^verbatim>\<open>SQLSTATE\<close> it fails with. \<open>jsonb\<close> is what PostgreSQL makes of a JSON text given for a JSONB
  column: the text it will give back, or nothing when it refuses the text. SQLSTATE 42P01: no
  such table; 22021: not a text; 22P02: not JSON; 23505: the key is there already; 23503: no
  wallet with that identifier.
\<close>

definition has_table :: "string \<Rightarrow> tables \<Rightarrow> bool" where
  "has_table t T \<longleftrightarrow> t \<in> set (schema T)"

fun run :: "(string \<Rightarrow> string option) \<Rightarrow> stmt \<Rightarrow> tables \<Rightarrow> string + nat \<times> tables" where
  "run jsonb (Script ds) T =
     (case run_script ds (schema T) of Inl e \<Rightarrow> Inl e | Inr names \<Rightarrow> Inr (0, T\<lparr>schema := names\<rparr>))"
| "run jsonb (InsertWallet i ch addr pk at) T =
     (if \<not> has_table ''wallets'' T then Inl ''42P01''
      else if \<not> list_all text_ok [i, ch, addr, pk] then Inl ''22021''
      else if t_wallets T i \<noteq> None then Inl ''23505''
      else Inr (1, T\<lparr>t_wallets := (t_wallets T)
             (i \<mapsto> \<lparr>wID = i, wChain = ch, wAddress = addr, wPublicKey = pk, wCreatedAt = micros at\<rparr>)\<rparr>))"
| "run jsonb (InsertProposal i wid ch st doc at upd) T =
     (if \<not> has_table ''transaction_proposals'' T then Inl ''42P01''
      else if \<not> list_all text_ok [i, wid, ch, st] then Inl ''22021''
      else (case jsonb doc of None \<Rightarrow> Inl ''22P02''
        | Some d \<Rightarrow>
            if t_proposals T i \<noteq> None then Inl ''23505''
            else if t_wallets T wid = None then Inl ''23503''
            else Inr (1, T\<lparr>t_proposals := (t_proposals T)
                   (i \<mapsto> \<lparr>rowID = i, rowWalletID = wid, rowChain = ch, rowStatus = st, rowProposal = d,
                          rowCreatedAt = micros at, rowUpdatedAt = micros upd\<rparr>)\<rparr>)))"
| "run jsonb (UpdateProposal i st doc upd) T =
     (if \<not> has_table ''transaction_proposals'' T then Inl ''42P01''
      else if \<not> list_all text_ok [i, st] then Inl ''22021''
      else (case jsonb doc of None \<Rightarrow> Inl ''22P02''
        | Some d \<Rightarrow>
            (case t_proposals T i of None \<Rightarrow> Inr (0, T)
             | Some row \<Rightarrow> Inr (1, T\<lparr>t_proposals := (t_proposals T)
                   (i \<mapsto> row\<lparr>rowStatus := st, rowProposal := d, rowUpdatedAt := micros upd\<rparr>)\<rparr>))))"
| "run jsonb (UpdateApprovals i doc upd) T =
     (if \<not> has_table ''transaction_proposals'' T then Inl ''42P01''
      else if \<not> text_ok i then Inl ''22021''
      else (case jsonb doc of None \<Rightarrow> Inl ''22P02''
        | Some d \<Rightarrow>
            (case t_proposals T i of None \<Rightarrow> Inr (0, T)
             | Some row \<Rightarrow> Inr (1, T\<lparr>t_proposals := (t_proposals T)
                   (i \<mapsto> row\<lparr>rowProposal := d, rowUpdatedAt := micros upd\<rparr>)\<rparr>))))"
| "run jsonb (InsertAudit i ty actor rtype rid ch meta at) T =
     (if \<not> has_table ''audit_events'' T then Inl ''42P01''
      else if \<not> list_all text_ok [i, ty, actor, rtype, rid, ch] then Inl ''22021''
      else (case (case meta of None \<Rightarrow> Some [] | Some m \<Rightarrow> jsonb m) of None \<Rightarrow> Inl ''22P02''
        | Some d \<Rightarrow>
            if i \<in> vID ` set (t_audit T) then Inl ''23505''
            else Inr (1, T\<lparr>t_audit := t_audit T @
                   [\<lparr>vID = i, vType = ty, vActor = actor, vResourceType = rtype, vResourceID = rid,
                     vChain = ch, vMetadata = d, vCreatedAt = micros at\<rparr>]\<rparr>)))"
| "run jsonb (InsertIdempotency sc k rtype rid at) T =
     (if \<not> has_table ''idempotency_keys'' T then Inl ''42P01''
      else if \<not> list_all text_ok [sc, k, rtype, rid] then Inl ''22021''
      else if t_idem T (sc, k) \<noteq> None then Inl ''23505''
      else Inr (1, T\<lparr>t_idem := (t_idem T)
             ((sc, k) \<mapsto> \<lparr>iScope = sc, iKey = k, iResourceType = rtype, iResourceID = rid, iCreatedAt = micros at\<rparr>)\<rparr>))"

text \<open>The statements of a transaction, one after the other; the first failure ends it.\<close>

fun runs :: "(string \<Rightarrow> string option) \<Rightarrow> stmt list \<Rightarrow> tables \<Rightarrow> tables option" where
  "runs jsonb [] T = Some T"
| "runs jsonb (st # sts) T = (case run jsonb st T of Inl _ \<Rightarrow> None | Inr (_, T') \<Rightarrow> runs jsonb sts T')"

lemma runs_snoc: "runs jsonb (sts @ [st]) T =
    (case runs jsonb sts T of None \<Rightarrow> None | Some T' \<Rightarrow> (case run jsonb st T' of Inl _ \<Rightarrow> None | Inr (_, U) \<Rightarrow> Some U))"
  by (induction sts arbitrary: T) (auto split: sum.splits prod.splits)

text \<open>The answer to the listing query, as an order of the matching events: newest first, ties in any order.\<close>

definition listing :: "string \<Rightarrow> int \<Rightarrow> AuditEvent list \<Rightarrow> AuditEvent list \<Rightarrow> bool" where
  "listing rid limit log es \<longleftrightarrow>
     (\<exists>all. mset all = mset (filter (\<lambda>e. rid = [] \<or> vResourceID e = rid) log) \<and>
        sorted_wrt (\<lambda>a b. vCreatedAt b \<le> vCreatedAt a) all \<and> es = take (nat limit) all)"

subsection \<open>The driver\<close>

text \<open>
  The calls of \<^verbatim>\<open>pgx\<close> the store makes, each one atomic step on the state \<open>'db\<close> of everything
  outside the process: on the pool (\<open>None\<close>) or inside an open transaction (\<open>Some tx\<close>). A
  query with \<^verbatim>\<open>Scan\<close> gives the columns of the row. \<open>pgListAudit\<close> gives what the successive
  \<^verbatim>\<open>rows.Next\<close> and \<^verbatim>\<open>rows.Scan\<close> give, and \<^verbatim>\<open>rows.Err\<close>. \<open>pgCode\<close> is the SQLSTATE of an error in
  whose chain there is a \<^verbatim>\<open>pgconn.PgError\<close>. \<open>goNow\<close> is the clock of the machine, \<open>goParse\<close>
  \<^verbatim>\<open>time.Parse\<close> with the RFC 3339 layout.
\<close>

record ('db, 'tx) Pgx =
  pgNew :: "ctx \<Rightarrow> string \<Rightarrow> 'db \<Rightarrow> (error + unit) \<times> 'db"
  pgClose :: "'db \<Rightarrow> unit \<times> 'db"
  pgBegin :: "ctx \<Rightarrow> 'db \<Rightarrow> (error + 'tx) \<times> 'db"
  pgCommit :: "ctx \<Rightarrow> 'tx \<Rightarrow> 'db \<Rightarrow> (error + unit) \<times> 'db"
  pgRollback :: "ctx \<Rightarrow> 'tx \<Rightarrow> 'db \<Rightarrow> (error + unit) \<times> 'db"
  pgExec :: "ctx \<Rightarrow> 'tx option \<Rightarrow> stmt \<Rightarrow> 'db \<Rightarrow> (error + nat) \<times> 'db"
  pgWallet :: "ctx \<Rightarrow> 'tx option \<Rightarrow> string \<Rightarrow> 'db \<Rightarrow> (error + Wallet) \<times> 'db"
  pgProposal :: "ctx \<Rightarrow> 'tx option \<Rightarrow> string \<times> bool \<Rightarrow> 'db \<Rightarrow> (error + string) \<times> 'db"
  pgIdempotency :: "ctx \<Rightarrow> 'tx option \<Rightarrow> string \<times> string \<Rightarrow> 'db \<Rightarrow> (error + IdempotencyRecord) \<times> 'db"
  pgListAudit :: "ctx \<Rightarrow> string \<Rightarrow> int \<Rightarrow> 'db \<Rightarrow> (error + (error + AuditEvent) list \<times> error option) \<times> 'db"
  pgNoRows :: error
  pgCode :: "error \<Rightarrow> string option"
  goNow :: "'db \<Rightarrow> time"
  goParse :: "string \<Rightarrow> time option"

subsection \<open>What the store relies on\<close>

text \<open>
  \<open>tabs\<close> are the committed tables, \<open>pend\<close> the statements an open transaction has executed.
  A connection sees the committed tables and, inside a transaction, its own statements'
  effects on them.
\<close>

type_synonym 'db pg_tabs = "'db \<Rightarrow> tables"
type_synonym ('db, 'tx) pg_pend = "'db \<Rightarrow> 'tx \<Rightarrow> stmt list option"

definition seen ::
  "(string \<Rightarrow> string option) \<Rightarrow> 'db pg_tabs \<Rightarrow> ('db, 'tx) pg_pend \<Rightarrow> 'tx option \<Rightarrow> 'db \<Rightarrow> tables option" where
  "seen jsonb tabs pend k db =
     (case k of None \<Rightarrow> Some (tabs db)
      | Some tx \<Rightarrow> (case pend db tx of None \<Rightarrow> None | Some sts \<Rightarrow> runs jsonb sts (tabs db)))"

text \<open>
  A query changes nothing; a row it gives is the row of the tables it sees, and it reports
  \<^verbatim>\<open>pgx.ErrNoRows\<close> only when they have none.
\<close>

definition query_law ::
  "error \<Rightarrow> ('tx option \<Rightarrow> 'db \<Rightarrow> tables option) \<Rightarrow> 'db pg_tabs \<Rightarrow> ('db, 'tx) pg_pend \<Rightarrow>
   (ctx \<Rightarrow> 'tx option \<Rightarrow> 'q \<Rightarrow> 'db \<Rightarrow> (error + 'row) \<times> 'db) \<Rightarrow> (tables \<Rightarrow> 'q \<Rightarrow> 'row option) \<Rightarrow> bool" where
  "query_law noRows sees tabs pend query select \<longleftrightarrow>
     (\<forall>c k q db r db'. query c k q db = (r, db') \<longrightarrow>
        tabs db' = tabs db \<and> pend db' = pend db \<and>
        (\<forall>T. sees k db = Some T \<longrightarrow>
           (case r of Inl e \<Rightarrow> errors_Is e noRows \<longrightarrow> select T q = None | Inr row \<Rightarrow> select T q = Some row)))"

text \<open>
  A statement that is reported done has had the effect \<open>run\<close> says, on the committed tables
  when sent to the pool, for the transaction alone when sent inside one; one that is reported
  failed has had no effect, and a unique violation is reported for nothing else.
\<close>

definition exec_law ::
  "(string \<Rightarrow> string option) \<Rightarrow> 'db pg_tabs \<Rightarrow> ('db, 'tx) pg_pend \<Rightarrow> ('db, 'tx) Pgx \<Rightarrow> bool" where
  "exec_law jsonb tabs pend P \<longleftrightarrow>
     (\<forall>c k st db r db' T. pgExec P c k st db = (r, db') \<longrightarrow> seen jsonb tabs pend k db = Some T \<longrightarrow>
        (case r of
           Inl e \<Rightarrow> tabs db' = tabs db \<and> (pgCode P e = Some ''23505'' \<longrightarrow> run jsonb st T = Inl ''23505'')
         | Inr n \<Rightarrow> \<exists>T'. run jsonb st T = Inr (n, T') \<and>
             (case k of None \<Rightarrow> tabs db' = T'
              | Some tx \<Rightarrow> tabs db' = tabs db \<and>
                  pend db' tx = map_option (\<lambda>sts. sts @ [st]) (pend db tx))))"

text \<open>
  A transaction begins with no statements. A commit that is reported done makes its effects
  permanent, a failed one and a rollback leave the committed tables alone.
\<close>

definition transaction_law ::
  "(string \<Rightarrow> string option) \<Rightarrow> 'db pg_tabs \<Rightarrow> ('db, 'tx) pg_pend \<Rightarrow> ('db, 'tx) Pgx \<Rightarrow> bool" where
  "transaction_law jsonb tabs pend P \<longleftrightarrow>
     (\<forall>c db r db'. pgBegin P c db = (r, db') \<longrightarrow>
        tabs db' = tabs db \<and> (\<forall>tx. r = Inr tx \<longrightarrow> pend db' tx = Some [])) \<and>
     (\<forall>c tx db r db' T. pgCommit P c tx db = (r, db') \<longrightarrow> seen jsonb tabs pend (Some tx) db = Some T \<longrightarrow>
        tabs db' = (case r of Inl _ \<Rightarrow> tabs db | Inr _ \<Rightarrow> T)) \<and>
     (\<forall>c tx db r db'. pgRollback P c tx db = (r, db') \<longrightarrow> tabs db' = tabs db)"

text \<open>Connecting and disconnecting leave the tables alone.\<close>

definition connect_law :: "'db pg_tabs \<Rightarrow> ('db, 'tx) Pgx \<Rightarrow> bool" where
  "connect_law tabs P \<longleftrightarrow>
     (\<forall>c url db r db'. pgNew P c url db = (r, db') \<longrightarrow> tabs db' = tabs db) \<and>
     (\<forall>db r db'. pgClose P db = (r, db') \<longrightarrow> tabs db' = tabs db)"

definition list_law :: "'db pg_tabs \<Rightarrow> ('db, 'tx) Pgx \<Rightarrow> bool" where
  "list_law tabs P \<longleftrightarrow>
     (\<forall>c rid limit db r db'. pgListAudit P c rid limit db = (r, db') \<longrightarrow>
        tabs db' = tabs db \<and>
        (\<forall>rows. r = Inr (map Inr rows, None) \<longrightarrow> listing rid limit (t_audit (tabs db)) rows))"

definition pg_serves ::
  "(string \<Rightarrow> string option) \<Rightarrow> 'db pg_tabs \<Rightarrow> ('db, 'tx) pg_pend \<Rightarrow> ('db, 'tx) Pgx \<Rightarrow> bool" where
  "pg_serves jsonb tabs pend P \<longleftrightarrow>
     query_law (pgNoRows P) (seen jsonb tabs pend) tabs pend (pgWallet P) t_wallets \<and>
     query_law (pgNoRows P) (seen jsonb tabs pend) tabs pend (pgProposal P)
       (\<lambda>T (i, lock). map_option rowProposal (t_proposals T i)) \<and>
     query_law (pgNoRows P) (seen jsonb tabs pend) tabs pend (pgIdempotency P) t_idem \<and>
     exec_law jsonb tabs pend P \<and> transaction_law jsonb tabs pend P \<and> connect_law tabs P \<and> list_law tabs P"

end
