(* ===== verification/Postgres_Store.thy ===== *)
theory Postgres_Store
  imports Postgres_Client
begin

section \<open>The PostgreSQL store\<close>

text \<open>
  \<^verbatim>\<open>internal/store/postgres.go\<close>, operation by operation, over a driver \<open>P\<close>. An operation is a
  program whose atomic steps are its calls of the driver, in their order: run alone it is an
  operation of the store interface, and between its steps other sessions may act. The
  deferred \<^verbatim>\<open>tx.Rollback\<close> runs on every return after \<^verbatim>\<open>Begin\<close>, its result ignored.
\<close>

type_synonym ('db, 'a) pg = "('db, error + 'a) prog"

definition deferRollback :: "('db, 'tx) Pgx \<Rightarrow> ctx \<Rightarrow> 'tx \<Rightarrow> ('db, 'a) prog \<Rightarrow> ('db, 'a) prog" where
  "deferRollback P ctx tx m = bindP m (\<lambda>r. seqP (actP (pgRollback P ctx tx)) (Return r))"

definition isUniqueViolation :: "('db, 'tx) Pgx \<Rightarrow> error \<Rightarrow> bool" where
  "isUniqueViolation P err \<longleftrightarrow> pgCode P err = Some ''23505''"

subsection \<open>Migrations\<close>

fun run_scripts :: "('db, 'tx) Pgx \<Rightarrow> ctx \<Rightarrow> string list \<Rightarrow> ('db, unit) pg" where
  "run_scripts P ctx [] = Return (Inr ())"
| "run_scripts P ctx (name # names) =
     bindP (actP (pgExec P ctx None (Script (the (the (map_of migrationFiles name))))))
       (\<lambda>r. case r of
          Inl err \<Rightarrow> Return (Inl (Wrap (''run migration '' @ name @ '': '' @ Error err) err))
        | Inr _ \<Rightarrow> run_scripts P ctx names)"

definition RunMigrations :: "('db, 'tx) Pgx \<Rightarrow> ctx \<Rightarrow> ('db, unit) pg" where
  "RunMigrations P ctx =
     (let names = map fst (filter (\<lambda>(name, script). script \<noteq> None) migrationFiles)
      in run_scripts P ctx (sort names))"

definition pg_Close :: "('db, 'tx) Pgx \<Rightarrow> ('db, unit) prog" where
  "pg_Close P = actP (pgClose P)"

definition OpenPostgres :: "('db, 'tx) Pgx \<Rightarrow> ctx \<Rightarrow> string \<Rightarrow> ('db, unit) pg" where
  "OpenPostgres P ctx databaseURL =
     tryP (actP (pgNew P ctx databaseURL)) (\<lambda>_.
     bindP (RunMigrations P ctx) (\<lambda>r.
       case r of Inl err \<Rightarrow> seqP (pg_Close P) (Return (Inl err))
       | Inr _ \<Rightarrow> Return (Inr ())))"

subsection \<open>Wallets\<close>

definition insert_wallet :: "Wallet \<Rightarrow> stmt" where
  "insert_wallet w = InsertWallet (wID w) (wChain w) (wAddress w) (wPublicKey w) (wCreatedAt w)"

definition insert_idempotency :: "IdempotencyRecord \<Rightarrow> stmt" where
  "insert_idempotency r =
     InsertIdempotency (iScope r) (iKey r) (iResourceType r) (iResourceID r) (iCreatedAt r)"

definition pg_CreateWallet :: "('db, 'tx) Pgx \<Rightarrow> ctx \<Rightarrow> Wallet \<Rightarrow> ('db, unit) pg" where
  "pg_CreateWallet P ctx w =
     bindP (actP (pgExec P ctx None (insert_wallet w))) (\<lambda>r. Return
       (case r of Inl err \<Rightarrow> Inl (if isUniqueViolation P err then ErrDuplicateWallet else err)
        | Inr _ \<Rightarrow> Inr ()))"

text \<open>A query that finds no row is the given error.\<close>

definition orNotFound :: "('db, 'tx) Pgx \<Rightarrow> error \<Rightarrow> error + 'a \<Rightarrow> error + 'a" where
  "orNotFound P notFound r =
     (case r of Inl err \<Rightarrow> Inl (if errors_Is err (pgNoRows P) then notFound else err) | Inr x \<Rightarrow> Inr x)"

definition pg_GetWallet :: "('db, 'tx) Pgx \<Rightarrow> ctx \<Rightarrow> string \<Rightarrow> ('db, Wallet) pg" where
  "pg_GetWallet P ctx i =
     bindP (actP (pgWallet P ctx None i)) (\<lambda>r. Return (orNotFound P ErrWalletNotFound r))"

definition getWalletTx :: "('db, 'tx) Pgx \<Rightarrow> ctx \<Rightarrow> 'tx \<Rightarrow> string \<Rightarrow> ('db, Wallet) pg" where
  "getWalletTx P ctx tx i =
     bindP (actP (pgWallet P ctx (Some tx) i)) (\<lambda>r. Return (orNotFound P ErrWalletNotFound r))"

text \<open>The record, or that there is none.\<close>

definition found_record :: "('db, 'tx) Pgx \<Rightarrow> error + IdempotencyRecord \<Rightarrow> error + IdempotencyRecord option" where
  "found_record P r =
     (case r of Inl err \<Rightarrow> (if errors_Is err (pgNoRows P) then Inr None else Inl err)
      | Inr record \<Rightarrow> Inr (Some record))"

definition getIdempotencyTx ::
  "('db, 'tx) Pgx \<Rightarrow> ctx \<Rightarrow> 'tx \<Rightarrow> string \<Rightarrow> string \<Rightarrow> ('db, IdempotencyRecord option) pg" where
  "getIdempotencyTx P ctx tx scope key =
     bindP (actP (pgIdempotency P ctx (Some tx) (scope, key))) (\<lambda>r. Return (found_record P r))"

definition getIdempotencyPool ::
  "('db, 'tx) Pgx \<Rightarrow> ctx \<Rightarrow> string \<Rightarrow> string \<Rightarrow> ('db, IdempotencyRecord option) pg" where
  "getIdempotencyPool P ctx scope key =
     bindP (actP (pgIdempotency P ctx None (scope, key))) (\<lambda>r. Return (found_record P r))"

definition zero_wallet :: Wallet where
  "zero_wallet = \<lparr>wID = [], wChain = [], wAddress = [], wPublicKey = [], wCreatedAt = zero_time\<rparr>"

text \<open>No record and no error: the zero wallet, and no error.\<close>

definition walletForIdempotency ::
  "('db, 'tx) Pgx \<Rightarrow> ctx \<Rightarrow> string \<Rightarrow> string \<Rightarrow> ('db, Wallet \<times> bool) pg" where
  "walletForIdempotency P ctx scope key =
     tryP (getIdempotencyPool P ctx scope key) (\<lambda>found.
       case found of None \<Rightarrow> Return (Inr (zero_wallet, False))
       | Some record \<Rightarrow>
           tryP (pg_GetWallet P ctx (iResourceID record)) (\<lambda>w. Return (Inr (w, False))))"

definition pg_CreateWalletIdempotently ::
  "('db, 'tx) Pgx \<Rightarrow> ctx \<Rightarrow> Wallet \<Rightarrow> IdempotencyRecord \<Rightarrow> ('db, Wallet \<times> bool) pg" where
  "pg_CreateWalletIdempotently P ctx w record =
     tryP (actP (pgBegin P ctx)) (\<lambda>tx. deferRollback P ctx tx (
     tryP (getIdempotencyTx P ctx tx (iScope record) (iKey record)) (\<lambda>found.
       case found of
         Some existing \<Rightarrow>
           tryP (getWalletTx P ctx tx (iResourceID existing)) (\<lambda>stored. Return (Inr (stored, False)))
       | None \<Rightarrow>
           bindP (actP (pgExec P ctx (Some tx) (insert_wallet w))) (\<lambda>r1.
             case r1 of
               Inl err \<Rightarrow> Return (Inl (if isUniqueViolation P err then ErrDuplicateWallet else err))
             | Inr _ \<Rightarrow>
                 bindP (actP (pgExec P ctx (Some tx) (insert_idempotency record))) (\<lambda>r2.
                   case r2 of
                     Inl err \<Rightarrow>
                       if isUniqueViolation P err
                       then tryP (actP (pgRollback P ctx tx)) (\<lambda>_.
                              walletForIdempotency P ctx (iScope record) (iKey record))
                       else Return (Inl err)
                   | Inr _ \<Rightarrow> tryP (actP (pgCommit P ctx tx)) (\<lambda>_. Return (Inr (w, True))))))))"

subsection \<open>Transactions\<close>

definition insert_proposal :: "TransactionProposal \<Rightarrow> string \<Rightarrow> stmt" where
  "insert_proposal p payload =
     InsertProposal (pID p) (pWalletID p) (pChain p) (pStatus p) payload (pCreatedAt p) (pUpdatedAt p)"

definition pg_CreateTransaction :: "('db, 'tx) Pgx \<Rightarrow> ctx \<Rightarrow> TransactionProposal \<Rightarrow> ('db, unit) pg" where
  "pg_CreateTransaction P ctx proposal =
     (case marshal_proposal proposal of Inl err \<Rightarrow> Return (Inl err)
      | Inr payload \<Rightarrow>
          bindP (actP (pgExec P ctx None (insert_proposal proposal payload))) (\<lambda>r. Return
            (case r of Inl err \<Rightarrow> Inl (if isUniqueViolation P err then ErrDuplicateTransaction else err)
             | Inr _ \<Rightarrow> Inr ())))"

definition read_payload :: "('db, 'tx) Pgx \<Rightarrow> error + string \<Rightarrow> error + TransactionProposal" where
  "read_payload P r =
     (case orNotFound P ErrTransactionNotFound r of Inl err \<Rightarrow> Inl err
      | Inr payload \<Rightarrow> unmarshal_proposal (goParse P) payload)"

definition pg_GetTransaction :: "('db, 'tx) Pgx \<Rightarrow> ctx \<Rightarrow> string \<Rightarrow> ('db, TransactionProposal) pg" where
  "pg_GetTransaction P ctx i = bindP (actP (pgProposal P ctx None (i, False))) (\<lambda>r. Return (read_payload P r))"

definition getTransactionTx ::
  "('db, 'tx) Pgx \<Rightarrow> ctx \<Rightarrow> 'tx \<Rightarrow> string \<Rightarrow> bool \<Rightarrow> ('db, TransactionProposal) pg" where
  "getTransactionTx P ctx tx i lock =
     bindP (actP (pgProposal P ctx (Some tx) (i, lock))) (\<lambda>r. Return (read_payload P r))"

definition transactionForIdempotency ::
  "('db, 'tx) Pgx \<Rightarrow> ctx \<Rightarrow> string \<Rightarrow> string \<Rightarrow> ('db, TransactionProposal \<times> bool) pg" where
  "transactionForIdempotency P ctx scope key =
     tryP (getIdempotencyPool P ctx scope key) (\<lambda>found.
       case found of None \<Rightarrow> Return (Inr (zero_proposal, False))
       | Some record \<Rightarrow>
           tryP (pg_GetTransaction P ctx (iResourceID record)) (\<lambda>p. Return (Inr (p, False))))"

definition pg_CreateTransactionIdempotently ::
  "('db, 'tx) Pgx \<Rightarrow> ctx \<Rightarrow> TransactionProposal \<Rightarrow> IdempotencyRecord \<Rightarrow> ('db, TransactionProposal \<times> bool) pg" where
  "pg_CreateTransactionIdempotently P ctx proposal record =
     tryP (actP (pgBegin P ctx)) (\<lambda>tx. deferRollback P ctx tx (
     tryP (getIdempotencyTx P ctx tx (iScope record) (iKey record)) (\<lambda>found.
       case found of
         Some existing \<Rightarrow>
           tryP (getTransactionTx P ctx tx (iResourceID existing) False) (\<lambda>stored. Return (Inr (stored, False)))
       | None \<Rightarrow>
           (case marshal_proposal proposal of Inl err \<Rightarrow> Return (Inl err)
            | Inr payload \<Rightarrow>
                bindP (actP (pgExec P ctx (Some tx) (insert_proposal proposal payload))) (\<lambda>r1.
                  case r1 of
                    Inl err \<Rightarrow> Return (Inl (if isUniqueViolation P err then ErrDuplicateTransaction else err))
                  | Inr _ \<Rightarrow>
                      bindP (actP (pgExec P ctx (Some tx) (insert_idempotency record))) (\<lambda>r2.
                        case r2 of
                          Inl err \<Rightarrow>
                            if isUniqueViolation P err
                            then tryP (actP (pgRollback P ctx tx)) (\<lambda>_.
                                   transactionForIdempotency P ctx (iScope record) (iKey record))
                            else Return (Inl err)
                        | Inr _ \<Rightarrow> tryP (actP (pgCommit P ctx tx)) (\<lambda>_. Return (Inr (proposal, True)))))))))"

definition pg_UpdateTransaction :: "('db, 'tx) Pgx \<Rightarrow> ctx \<Rightarrow> TransactionProposal \<Rightarrow> ('db, unit) pg" where
  "pg_UpdateTransaction P ctx proposal =
     (case marshal_proposal proposal of Inl err \<Rightarrow> Return (Inl err)
      | Inr payload \<Rightarrow>
          tryP (actP (pgExec P ctx None
                  (UpdateProposal (pID proposal) (pStatus proposal) payload (pUpdatedAt proposal))))
            (\<lambda>n. Return (if n = 0 then Inl ErrTransactionNotFound else Inr ())))"

definition pg_AddApproval ::
  "('db, 'tx) Pgx \<Rightarrow> ctx \<Rightarrow> string \<Rightarrow> Approval \<Rightarrow> ('db, TransactionProposal) pg" where
  "pg_AddApproval P ctx transactionID approval =
     tryP (actP (pgBegin P ctx)) (\<lambda>tx. deferRollback P ctx tx (
     tryP (getTransactionTx P ctx tx transactionID True) (\<lambda>proposal.
       if pStatus proposal \<noteq> TransactionStatusProposed then Return (Inl ErrTransactionNotProposed)
       else
         let m = (case pApprovals proposal of None \<Rightarrow> [] | Some m \<Rightarrow> m) in
         if map_of m (SignerID approval) \<noteq> None then Return (Inl ErrDuplicateApproval)
         else
           let proposal = proposal\<lparr>pApprovals := Some (gput (SignerID approval) approval m),
                                    pUpdatedAt := aCreatedAt approval\<rparr>
           in (case marshal_proposal proposal of Inl err \<Rightarrow> Return (Inl err)
               | Inr payload \<Rightarrow>
                   tryP (actP (pgExec P ctx (Some tx)
                           (UpdateApprovals (pID proposal) payload (pUpdatedAt proposal)))) (\<lambda>_.
                   tryP (actP (pgCommit P ctx tx)) (\<lambda>_. Return (Inr proposal)))))))"

definition pg_MarkTransactionSigned ::
  "('db, 'tx) Pgx \<Rightarrow> ctx \<Rightarrow> string \<Rightarrow> string \<Rightarrow> ('db, TransactionProposal \<times> bool) pg" where
  "pg_MarkTransactionSigned P ctx transactionID signedTransaction =
     tryP (actP (pgBegin P ctx)) (\<lambda>tx. deferRollback P ctx tx (
     tryP (getTransactionTx P ctx tx transactionID True) (\<lambda>proposal.
       if pStatus proposal \<noteq> TransactionStatusProposed
       then tryP (actP (pgCommit P ctx tx)) (\<lambda>_. Return (Inr (proposal, False)))
       else
         bindP (actP (\<lambda>db. (goNow P db, db))) (\<lambda>now.
         let proposal = proposal\<lparr>pStatus := TransactionStatusSigned,
                                  pSignedTransaction := signedTransaction, pUpdatedAt := now\<rparr>
         in (case marshal_proposal proposal of Inl err \<Rightarrow> Return (Inl err)
             | Inr payload \<Rightarrow>
                 tryP (actP (pgExec P ctx (Some tx)
                         (UpdateProposal (pID proposal) (pStatus proposal) payload (pUpdatedAt proposal)))) (\<lambda>_.
                 tryP (actP (pgCommit P ctx tx)) (\<lambda>_. Return (Inr (proposal, True)))))))))"

subsection \<open>Audit events and idempotency keys\<close>

definition pg_AppendAuditEvent :: "('db, 'tx) Pgx \<Rightarrow> ctx \<Rightarrow> AuditEvent \<Rightarrow> ('db, unit) pg" where
  "pg_AppendAuditEvent P ctx event =
     (let metadata = (if length (vMetadata event) > 0 then Some (vMetadata event) else None)
      in tryP (actP (pgExec P ctx None
                 (InsertAudit (vID event) (vType event) (vActor event) (vResourceType event)
                    (vResourceID event) (vChain event) metadata (vCreatedAt event))))
           (\<lambda>_. Return (Inr ())))"

text \<open>\<^verbatim>\<open>for rows.Next()\<close>: a row that cannot be scanned ends the operation.\<close>

fun scan_rows :: "(error + AuditEvent) list \<Rightarrow> AuditEvent list \<Rightarrow> error + AuditEvent list" where
  "scan_rows [] events = Inr events"
| "scan_rows (Inl err # rows) events = Inl err"
| "scan_rows (Inr row # rows) events =
     (let event = row\<lparr>vMetadata := []\<rparr>;
          event = (if length (vMetadata row) > 0 then event\<lparr>vMetadata := vMetadata row\<rparr> else event)
      in scan_rows rows (events @ [event]))"

definition pg_ListAuditEvents :: "('db, 'tx) Pgx \<Rightarrow> ctx \<Rightarrow> AuditFilter \<Rightarrow> ('db, AuditEvent list) pg" where
  "pg_ListAuditEvents P ctx f =
     (let limit = fLimit f;
          limit = (if limit \<le> 0 \<or> limit > 200 then 100 else limit)
      in tryP (actP (pgListAudit P ctx (fResourceID f) limit)) (\<lambda>(rows, rowsErr). Return
           (case scan_rows rows [] of Inl err \<Rightarrow> Inl err
            | Inr events \<Rightarrow> (case rowsErr of Some err \<Rightarrow> Inl err | None \<Rightarrow> Inr events))))"

definition pg_SaveIdempotency :: "('db, 'tx) Pgx \<Rightarrow> ctx \<Rightarrow> IdempotencyRecord \<Rightarrow> ('db, unit) pg" where
  "pg_SaveIdempotency P ctx record =
     bindP (actP (pgExec P ctx None (insert_idempotency record))) (\<lambda>r. Return
       (case r of Inl err \<Rightarrow> Inl (if isUniqueViolation P err then ErrDuplicateIdempotency else err)
        | Inr _ \<Rightarrow> Inr ()))"

definition pg_GetIdempotency ::
  "('db, 'tx) Pgx \<Rightarrow> ctx \<Rightarrow> string \<Rightarrow> string \<Rightarrow> ('db, IdempotencyRecord) pg" where
  "pg_GetIdempotency P ctx scope key =
     bindP (actP (pgIdempotency P ctx None (scope, key))) (\<lambda>r. Return
       (case found_record P r of Inl err \<Rightarrow> Inl err
        | Inr None \<Rightarrow>
            Inr \<lparr>iScope = [], iKey = [], iResourceType = [], iResourceID = [], iCreatedAt = zero_time\<rparr>
        | Inr (Some record) \<Rightarrow> Inr record))"

subsection \<open>The store interface\<close>

definition postgres_store :: "('db, 'tx) Pgx \<Rightarrow> 'db Store" where
  "postgres_store P =
     \<lparr>sCreateWallet = (\<lambda>c w. exec (pg_CreateWallet P c w)),
      sCreateWalletIdempotently = (\<lambda>c w r. exec (pg_CreateWalletIdempotently P c w r)),
      sGetWallet = (\<lambda>c i. exec (pg_GetWallet P c i)),
      sCreateTransaction = (\<lambda>c p. exec (pg_CreateTransaction P c p)),
      sCreateTransactionIdempotently = (\<lambda>c p r. exec (pg_CreateTransactionIdempotently P c p r)),
      sGetTransaction = (\<lambda>c i. exec (pg_GetTransaction P c i)),
      sAddApproval = (\<lambda>c i a. exec (pg_AddApproval P c i a)),
      sMarkTransactionSigned = (\<lambda>c i stx. exec (pg_MarkTransactionSigned P c i stx)),
      sUpdateTransaction = (\<lambda>c p. exec (pg_UpdateTransaction P c p)),
      sAppendAuditEvent = (\<lambda>c e. exec (pg_AppendAuditEvent P c e)),
      sListAuditEvents = (\<lambda>c f. exec (pg_ListAuditEvents P c f))\<rparr>"

end
