(* ===== verification/Json_Canon.thy ===== *)
theory Json_Canon
  imports Go_Json_Reread
begin

section \<open>JSON values up to what a JSONB column keeps\<close>

text \<open>
  A JSONB column does not keep white space, the order of the keys of an object, all but the
  last value of a repeated key, nor the way a number is written, except that an integer in
  decimal stays as it is. \<open>canon\<close> forgets just that: two texts are the same document for the
  column when they read as values with the same canonical form.
\<close>

definition sort_members :: "(string \<times> 'a) list \<Rightarrow> (string \<times> 'a) list" where
  "sort_members ms = map (\<lambda>k. (k, the (map_of (rev ms) k))) (sort (remdups (map fst ms)))"

fun canon :: "json \<Rightarrow> json" where
  "canon (JNum l) = JNum (case big_SetString l of Some i \<Rightarrow> if l = show_int i then l else [] | None \<Rightarrow> [])"
| "canon (JArr xs) = JArr (map canon xs)"
| "canon (JObj ms) = JObj (sort_members (map (\<lambda>kv. (fst kv, canon (snd kv))) ms))"
| "canon j = j"

fun distinct_keys :: "json \<Rightarrow> bool" where
  "distinct_keys (JArr xs) = list_all distinct_keys xs"
| "distinct_keys (JObj ms) = (distinct (map fst ms) \<and> list_all (\<lambda>kv. distinct_keys (snd kv)) ms)"
| "distinct_keys j = True"

text \<open>
  Strings of plain characters are written as they are: wherever such a string can be read
  behind a quote, its characters stand there.
\<close>

definition plain_char :: "char \<Rightarrow> bool" where
  "plain_char c \<longleftrightarrow> 32 \<le> ord c \<and> ord c < 127 \<and> c \<noteq> CHR 0x22 \<and> c \<noteq> CHR 0x5C"

definition unescaped :: "string \<Rightarrow> bool" where
  "unescaped s \<longleftrightarrow>
     (\<forall>a u x w. s = a @ CHR 0x22 # u \<longrightarrow> parse_chars u = Some (x, w) \<longrightarrow> list_all plain_char x \<longrightarrow> u = x @ CHR 0x22 # w)"

text \<open>What PostgreSQL documents of a JSONB column: the text it gives back for a document.\<close>

definition jsonb_law :: "(string \<Rightarrow> string option) \<Rightarrow> bool" where
  "jsonb_law jsonb \<longleftrightarrow>
     (\<forall>s s' v. jsonb s = Some s' \<longrightarrow> json_parse s = Some v \<longrightarrow>
        (\<exists>v'. reads s' v' \<and> canon v' = canon v \<and> distinct_keys v') \<and> unescaped s')"

subsection \<open>Values with the same canonical form\<close>

lemma map_of_sort_members: "map_of (sort_members ms) = map_of (rev ms)"
proof
  fix k
  have "map_of (sort_members ms) k = (if k \<in> fst ` set ms then Some (the (map_of (rev ms) k)) else None)"
    by (simp add: sort_members_def map_of_map_restrict restrict_map_def)
  also have "\<dots> = map_of (rev ms) k"
  proof (cases "k \<in> fst ` set ms")
    case True
    then have "map_of (rev ms) k \<noteq> None" by (simp add: map_of_eq_None_iff)
    with True show ?thesis by auto
  next
    case False
    then have "map_of (rev ms) k = None" by (simp add: map_of_eq_None_iff)
    with False show ?thesis by presburger
  qed
  finally show "map_of (sort_members ms) k = map_of (rev ms) k" .
qed

lemma map_of_map_snd: "map_of (map (\<lambda>kv. (fst kv, f (snd kv))) ms) k = map_option f (map_of ms k)"
  by (induction ms) auto

lemma map_of_rev_distinct: "distinct (map fst ms) \<Longrightarrow> map_of (rev ms) = map_of ms"
  by (subst map_of_inject_set) (simp_all add: rev_map [symmetric])

lemma canon_JObjD:
  assumes "canon v = canon (JObj ms)"
  obtains ms' where "v = JObj ms'"
    and "\<And>k. map_option canon (map_of (rev ms') k) = map_option canon (map_of (rev ms) k)"
proof (cases v)
  case (JObj ms')
  from assms have s: "sort_members (map (\<lambda>kv. (fst kv, canon (snd kv))) ms') = sort_members (map (\<lambda>kv. (fst kv, canon (snd kv))) ms)"
    by (simp add: JObj)
  have r: "map_of (sort_members (map (\<lambda>kv. (fst kv, canon (snd kv))) ns)) k = map_option canon (map_of (rev ns) k)" for ns k
    by (simp add: map_of_sort_members rev_map map_of_map_snd)
  have "map_option canon (map_of (rev ms') k) = map_option canon (map_of (rev ms) k)" for k
    using r [of ms' k] r [of ms k] s by simp
  with JObj that show ?thesis by blast
qed (use assms in auto)

lemma canon_JStrD: "canon v = JStr s \<Longrightarrow> v = JStr s"
  by (cases v) auto

lemma canon_JNullD: "canon v = JNull \<Longrightarrow> v = JNull"
  by (cases v) auto

lemma canon_JArrD: "canon v = canon (JArr xs) \<Longrightarrow> \<exists>ys. v = JArr ys \<and> map canon ys = map canon xs"
  by (cases v) auto

lemma show_int_ne [simp]: "show_int i \<noteq> []" "[] \<noteq> show_int i"
  by (metis list.discI show_int_hd)+

lemma canon_int [simp]: "canon (JNum (show_int i)) = JNum (show_int i)"
  by (simp add: big_SetString_show_int)

lemma canon_intD: "canon v = JNum (show_int i) \<Longrightarrow> v = JNum (show_int i)"
  by (cases v) (auto split: option.splits if_splits)

lemma unescaped_sublist:
  assumes "unescaped s" and "sublist r s"
  shows "unescaped r"
  unfolding unescaped_def
proof (intro allI impI)
  fix a u x w
  assume r: "r = a @ CHR 0x22 # u" and p: "parse_chars u = Some (x, w)" and pl: "list_all plain_char x"
  obtain b e where s: "s = b @ r @ e" using assms(2) by (auto simp: sublist_def)
  then have "s = (b @ a) @ CHR 0x22 # (u @ e)" by (simp add: r)
  moreover have "parse_chars (u @ e) = Some (x, w @ e)" using parse_chars_more [OF p] by blast
  ultimately have "u @ e = x @ CHR 0x22 # (w @ e)" using assms(1) pl unfolding unescaped_def by blast
  then show "u = x @ CHR 0x22 # w" by simp
qed

text \<open>A text without escapes is unescaped.\<close>

lemma no_escapes:
  assumes "CHR 0x5C \<notin> set s"
  shows "unescaped s"
proof -
  have "parse_chars u = Some (x, w) \<Longrightarrow> list_all plain_char x \<Longrightarrow> CHR 0x5C \<notin> set u \<Longrightarrow> u = x @ CHR 0x22 # w" for u x w
  proof (induction u arbitrary: x rule: measure_induct_rule [of length])
    case (less u)
    obtain c u' where u: "u = c # u'" using less.prems(1) by (cases u) auto
    show ?case
    proof (cases "c = CHR 0x22")
      case True
      with less.prems u show ?thesis by (simp add: parse_chars_step)
    next
      case False
      with less.prems u obtain p t y where st: "chars_step u = Some (p, t)" and y: "parse_chars t = Some (y, w)" "x = p @ y"
        by (auto simp: parse_chars_step elim: prepend_SomeE split: option.splits)
      have c: "c \<noteq> CHR 0x5C" using less.prems u by auto
      have "p \<noteq> []" and "ord c < 128 \<and> p = [c] \<and> t = u' \<or> \<not> ord c < 128 \<and> \<not> plain_char (hd p)"
        using st False c u by (auto simp: chars_step_def Let_def encode_error plain_char_def take_Cons' split: if_splits)
      then have "p = [c]" "t = u'" using less.prems(2) y(2) by (cases p; auto)+
      with less.IH [OF chars_step_shorter [OF st] y(1)] less.prems y u show ?thesis by simp
    qed
  qed
  then show ?thesis using assms by (auto simp: unescaped_def)
qed

end
