(* ===== verification/Json_Stored.thy ===== *)
theory Json_Stored
  imports Proposal_Json Json_Canon
begin

section \<open>Decoding a document that was stored\<close>

text \<open>
  \<open>stands_for j raw v\<close>: the text \<open>raw\<close>, which reads as \<open>v\<close>, is what a JSONB column gives back
  for the written value \<open>j\<close>, or a part of it. An object gives back its members in any order,
  each standing for the member that was written; the decoder of a struct picks the fields out
  of them one by one.
\<close>

definition alike :: "json \<Rightarrow> json \<Rightarrow> bool" where
  "alike j v \<longleftrightarrow> canon v = canon (reread j) \<and> distinct_keys v"

definition stands_for :: "json \<Rightarrow> string \<Rightarrow> json \<Rightarrow> bool" where
  "stands_for j raw v \<longleftrightarrow> reads raw v \<and> alike j v \<and> unescaped raw"

lemma jsonb_stands_for:
  assumes "jsonb_law jsonb" and "jsonb (json_text j) = Some s" and "printable j"
  shows "\<exists>v. stands_for j s v"
  using assms(1) [unfolded jsonb_law_def, rule_format, OF assms(2) json_parse_reread [OF assms(3)]]
  by (auto simp: stands_for_def alike_def)

subsection \<open>Leaves\<close>

lemma alike_str: "alike (JStr s) v \<Longrightarrow> v = JStr (utf8_fix s)"
  by (auto simp: alike_def intro: canon_JStrD)

lemma alike_int: "alike (JNum (show_int i)) v \<Longrightarrow> v = JNum (show_int i)"
  by (auto simp: alike_def intro: canon_intD simp del: canon.simps(1))

lemma alike_null: "alike JNull v \<Longrightarrow> v = JNull"
  by (auto simp: alike_def intro: canon_JNullD)

lemma alike_arr: "alike (JArr js) v \<Longrightarrow> \<exists>vs. v = JArr vs \<and> list_all2 alike js vs"
proof -
  assume "alike (JArr js) v"
  then have c: "canon v = canon (JArr (map reread js))" and d: "distinct_keys v" by (simp_all add: alike_def)
  obtain vs where v: "v = JArr vs" and m: "map canon vs = map canon (map reread js)"
    using canon_JArrD [OF c] by blast
  have "list_all2 (\<lambda>x y. x = y) (map canon vs) (map canon (map reread js))" using m by (simp add: list_all2_eq)
  then have "list_all2 alike js vs"
    using d v by (auto simp: list.rel_map alike_def list_all2_conv_all_nth list_all_length)
  with v show ?thesis by blast
qed

lemma alike_raw: "alike (JRaw c) v \<Longrightarrow> reads c w \<Longrightarrow> canon v = canon w"
  by (simp add: alike_def reads_parse)

lemma stands_alike: "stands_for j raw v \<Longrightarrow> alike j v"
  by (simp add: stands_for_def)

lemma reads_JStr:
  assumes "reads raw (JStr s)"
  obtains u where "raw = CHR 0x22 # u" and "parse_chars u = Some (s, [])"
proof -
  from assms have p: "parse_value (Suc (length raw)) raw = Some (JStr s, [])" and sk: "skip_ws raw = raw"
    by (auto simp: reads_def)
  from p show ?thesis
  proof (cases rule: parse_valueE)
    case (lit m c u)
    with p show ?thesis by (auto simp: parse_value_literal [OF lit(3,4,5,2)] split: if_splits)
  qed (use sk that in auto)
qed

lemma plain_ascii: "plain_char c \<Longrightarrow> ord c < 128"
  unfolding plain_char_def by linarith

lemma plain_ok: "list_all plain_char s \<Longrightarrow> utf8_ok s"
  using plain_ascii by (blast intro: utf8_ok_ascii list.pred_mono_strong)

lemma stands_plain:
  assumes "stands_for (JStr s) raw v" and "list_all plain_char s"
  shows "v = JStr s" and "raw = CHR 0x22 # s @ [CHR 0x22]"
proof -
  show v: "v = JStr s" using alike_str [OF stands_alike [OF assms(1)]] utf8_fix_ok [OF plain_ok [OF assms(2)]] by simp
  obtain u where u: "raw = CHR 0x22 # u" "parse_chars u = Some (s, [])"
    using assms(1) v by (auto simp: stands_for_def elim: reads_JStr)
  have "unescaped ([] @ CHR 0x22 # u)" using assms(1) u by (simp add: stands_for_def)
  then have "u = s @ CHR 0x22 # []" using u(2) assms(2) unfolding unescaped_def by blast
  with u show "raw = CHR 0x22 # s @ [CHR 0x22]" by simp
qed

subsection \<open>Times\<close>

lemma plain_digit: "is_digit c \<Longrightarrow> plain_char c"
  by (auto simp: is_digit_def plain_char_def Let_def)

lemma plain_pad: "list_all plain_char (pad_int w i)"
  using set_show_nat [of "nat \<bar>i\<bar>"]
  by (auto simp: pad_int_def Let_def list_all_iff plain_digit) (simp_all add: plain_char_def)

lemma plain_frac: "list_all plain_char (frac_text ns)"
  using plain_pad [of 9 ns]
  by (auto simp: frac_text_def list_all_iff dest!: set_dropWhileD) (simp add: plain_char_def)

lemma plain_Format: "list_all plain_char (Format_RFC3339Nano t)"
proof -
  have "list_all plain_char ''-''" "list_all plain_char ''T''" "list_all plain_char '':''" "list_all plain_char ''Z''"
    by (simp_all add: plain_char_def)
  then show ?thesis by (simp add: Format_RFC3339Nano_def Let_def plain_pad plain_frac split: prod.splits)
qed

lemma stands_time:
  assumes "json_time t = Some j" and "stands_for j raw v"
  shows "decode_time slow v raw = Inr (Some t)"
proof -
  obtain y m d where c: "civil (t div 1000000000 div 86400) = (y, m, d)" by (cases "civil (t div 1000000000 div 86400)")
  with assms(1) have y: "0 \<le> y" "y \<le> 9999" and j: "j = JStr (Format_RFC3339Nano t)"
    by (auto simp: json_time_def split: if_splits)
  note S = stands_plain [OF assms(2) [unfolded j] plain_Format]
  show ?thesis
    unfolding S decode_time_def using parse_Format [OF c y] by (simp add: butlast_append)
qed

subsection \<open>Objects\<close>

text \<open>The members the encoder writes: those that are not left out, in their order.\<close>

definition members_of :: "(bool \<times> string \<times> json option) list \<Rightarrow> (string \<times> json) list" where
  "members_of L = map (\<lambda>(b, k, j). (k, the j)) (filter (\<lambda>(b, k, j). \<not> b) L)"

abbreviation key_of :: "bool \<times> string \<times> json option \<Rightarrow> string" where
  "key_of m \<equiv> fst (snd m)"

abbreviation omits :: "(bool \<times> string \<times> json option) list \<Rightarrow> (string \<times> json) list option list" where
  "omits L \<equiv> map (\<lambda>(b, k, j). omit b k j) L"

lemma fld_omit: "fld k j = omit False k (Some j)"
  by (simp add: fld_def omit_def)

lemma json_object_members:
  assumes "json_object (omits L) = Some v"
  shows "v = JObj (members_of L)" and "\<And>b k j. (b, k, j) \<in> set L \<Longrightarrow> \<not> b \<Longrightarrow> j \<noteq> None"
proof -
  have ne: "None \<notin> set (omits L)" and v: "v = JObj (concat (map the (omits L)))"
    using assms by (auto simp: json_object_def split: if_splits)
  show j: "j \<noteq> None" if "(b, k, j) \<in> set L" "\<not> b" for b k j
    using ne that by (auto simp: omit_def image_iff split: if_splits)
  have "concat (map the (omits L)) = members_of L"
    using j
  proof (induction L)
    case (Cons m L)
    obtain b k j where m: "m = (b, k, j)" by (cases m)
    then have "\<not> b \<Longrightarrow> j \<noteq> None" using Cons.prems [of b k j] by simp
    moreover have "concat (map the (omits L)) = members_of L" by (rule Cons.IH) (use Cons.prems in auto)
    ultimately show ?case by (auto simp: m members_of_def omit_def)
  qed (simp add: members_of_def)
  with v show "v = JObj (members_of L)" by simp
qed

lemma keys_members_of: "fst ` set (members_of L) = {k. \<exists>j. (False, k, j) \<in> set L}"
  by (force simp: members_of_def image_iff)

lemma distinct_members_of: "distinct (map key_of L) \<Longrightarrow> distinct (map fst (members_of L))"
  by (induction L) (auto simp: members_of_def image_iff)

lemma map_of_members_of:
  assumes "distinct (map key_of L)" and "(b, k, j) \<in> set L"
  shows "map_of (members_of L) k = (if b then None else Some (the j))"
proof (cases b)
  case True
  have "k \<notin> fst ` set (members_of L)"
  proof
    assume "k \<in> fst ` set (members_of L)"
    then obtain j' where "(False, k, j') \<in> set L" by (auto simp: keys_members_of)
    with assms True show False by (force simp: distinct_map inj_on_def)
  qed
  with True show ?thesis by (simp add: map_of_eq_None_iff)
next
  case False
  with assms have "(k, the j) \<in> set (members_of L)" by (force simp: members_of_def)
  with False distinct_members_of [OF assms(1)] show ?thesis by simp
qed

text \<open>The members the decoder goes through: key, value and text.\<close>

definition triples :: "(string \<times> json) list \<Rightarrow> string list \<Rightarrow> (string \<times> json \<times> string) list" where
  "triples ms raws = map2 (\<lambda>(k, v) r. (k, v, r)) ms raws"

lemma decode_struct_JObj: "decode_struct b fs (JObj ms) raws x = decode_members b fs (triples ms raws) x"
  by (simp add: decode_struct_def triples_def)

lemma fst_triples: "length ms \<le> length raws \<Longrightarrow> map fst (triples ms raws) = map fst ms"
  unfolding triples_def by (induction ms raws rule: list_induct2') auto

lemma triples_extra: "length ms = length rs \<Longrightarrow> triples ms (rs @ extra) = triples ms rs"
  unfolding triples_def by (induction ms rs rule: list_induct2) auto

lemma triples_mem:
  assumes "list_all2 P rs ms" and "(k, v, r) \<in> set (triples ms rs)"
  shows "(k, v) \<in> set ms" and "P r (k, v)"
proof -
  have z: "((k, v), r) \<in> set (zip ms rs)" using assms(2) by (auto simp: triples_def)
  then show "(k, v) \<in> set ms" by (rule set_zip_leftD)
  from z obtain i where "ms ! i = (k, v)" "rs ! i = r" "i < length ms" "i < length rs" by (auto simp: set_zip)
  with assms(1) show "P r (k, v)" by (auto simp: list_all2_conv_all_nth)
qed

lemma alike_obj:
  assumes "alike (JObj M) v" and "distinct (map fst M)" and "\<forall>k \<in> fst ` set M. utf8_ok k"
  obtains ms where "v = JObj ms" and "distinct (map fst ms)" and "fst ` set ms = fst ` set M"
    and "\<And>k x. (k, x) \<in> set ms \<Longrightarrow> \<exists>j. map_of M k = Some j \<and> alike j x"
proof -
  let ?R = "map (\<lambda>kv. (utf8_fix (fst kv), reread (snd kv))) M"
  from assms(1) have can: "canon v = canon (JObj ?R)" and dk: "distinct_keys v" by (simp_all add: alike_def)
  have R: "?R = map (\<lambda>kv. (fst kv, reread (snd kv))) M"
    using assms(3) by (auto simp: utf8_fix_ok)
  have dR: "distinct (map fst ?R)" unfolding R using assms(2) by (simp add: o_def)
  obtain ms where v: "v = JObj ms"
    and look: "\<And>k. map_option canon (map_of (rev ms) k) = map_option canon (map_of (rev ?R) k)"
    using can by (rule canon_JObjD) blast
  have dm: "distinct (map fst ms)" and dv: "list_all (\<lambda>kv. distinct_keys (snd kv)) ms" using dk v by auto
  have look': "map_option canon (map_of ms k) = map_option (canon \<circ> reread) (map_of M k)" for k
  proof -
    have "map_option canon (map_of ms k) = map_option canon (map_of ?R k)"
      using look [of k] by (simp only: map_of_rev_distinct [OF dm] map_of_rev_distinct [OF dR])
    then show ?thesis by (simp only: R map_of_map_snd option.map_comp)
  qed
  have "map_of ms k = None \<longleftrightarrow> map_of M k = None" for k using look' [of k] by (metis option.map_disc_iff)
  then have "dom (map_of ms) = dom (map_of M)" by (simp add: dom_def)
  then have keys: "fst ` set ms = fst ` set M" by (simp add: dom_map_of_conv_image_fst)
  have "\<exists>j. map_of M k = Some j \<and> alike j x" if kx: "(k, x) \<in> set ms" for k x
  proof -
    have "map_of ms k = Some x" using dm kx by simp
    with look' [of k] obtain j where j: "map_of M k = Some j" "canon x = canon (reread j)"
      by (cases "map_of M k") auto
    moreover have "distinct_keys x" using dv kx by (auto simp: list_all_iff)
    ultimately show ?thesis by (simp add: alike_def)
  qed
  from that [OF v dm keys this] show ?thesis by blast
qed

lemma stands_obj:
  assumes "stands_for (JObj M) raw v" and "distinct (map fst M)" and "\<forall>k \<in> fst ` set M. utf8_ok k"
  obtains ms where "v = JObj ms" and "distinct (map fst (triples ms (object_raws raw)))"
    and "fst ` set (triples ms (object_raws raw)) = fst ` set M"
    and "\<And>k x r. (k, x, r) \<in> set (triples ms (object_raws raw)) \<Longrightarrow> \<exists>j. map_of M k = Some j \<and> stands_for j r x"
proof -
  from assms(1) have reads: "reads raw v" and un: "unescaped raw" by (simp_all add: stands_for_def)
  obtain ms where v: "v = JObj ms" and dm: "distinct (map fst ms)" and km: "fst ` set ms = fst ` set M"
    and mm: "\<And>k x. (k, x) \<in> set ms \<Longrightarrow> \<exists>j. map_of M k = Some j \<and> alike j x"
    using alike_obj [OF stands_alike [OF assms(1)] assms(2,3)] by blast
  obtain rs extra where rs: "object_raws raw = rs @ extra"
    and all: "list_all2 (\<lambda>r kv. reads r (snd kv) \<and> sublist r raw) rs ms"
    using object_raws_reads [of raw ms] reads_parse [OF reads] v by blast
  have len: "length ms = length rs" using all by (simp add: list_all2_lengthD)
  have T: "triples ms (object_raws raw) = triples ms rs" unfolding rs by (rule triples_extra [OF len])
  have keys: "map fst (triples ms rs) = map fst ms" by (rule fst_triples) (simp add: len)
  have KM: "fst ` set (triples ms (object_raws raw)) = fst ` set M"
    unfolding T using km by (metis keys list.set_map)
  have mem: "\<exists>j. map_of M k = Some j \<and> stands_for j r x" if "(k, x, r) \<in> set (triples ms (object_raws raw))" for k x r
  proof -
    have "(k, x) \<in> set ms" and "reads r x" "sublist r raw" using triples_mem [OF all that [unfolded T]] by auto
    with mm [of k x] unescaped_sublist [OF un] show ?thesis by (auto simp: stands_for_def)
  qed
  have "distinct (map fst (triples ms (object_raws raw)))" unfolding T keys by (rule dm)
  from that [OF v this KM mem] show ?thesis by blast
qed

subsection \<open>Structs\<close>

text \<open>
  \<open>pick K\<close> is the struct with the fields named in \<open>K\<close> filled in. If every member fills in its
  field, the members together fill in all of theirs, whatever their order.
\<close>

lemma decode_pick:
  assumes "distinct (map fst ms)" and "fst ` set ms \<inter> K = {}"
    and "\<And>k v r K. (k, v, r) \<in> set ms \<Longrightarrow> k \<notin> K \<Longrightarrow>
      decode_member False fs (None, pick K) (k, v, r) = (None, pick (insert k K))"
  shows "foldl (decode_member False fs) (None, pick K) ms = (None, pick (fst ` set ms \<union> K))"
  using assms
proof (induction ms arbitrary: K)
  case (Cons m ms)
  obtain k v r where m: "m = (k, v, r)" by (cases m)
  have "decode_member False fs (None, pick K) m = (None, pick (insert k K))"
    unfolding m using Cons.prems m by (intro Cons.prems(3)) auto
  moreover have "foldl (decode_member False fs) (None, pick (insert k K)) ms = (None, pick (fst ` set ms \<union> insert k K))"
    using Cons.prems m by (intro Cons.IH Cons.prems(3)) auto
  ultimately show ?case by (simp add: m Un_commute)
qed simp

text \<open>The text of a member.\<close>

definition raw_of :: "(string \<times> json \<times> string) list \<Rightarrow> string \<Rightarrow> string" where
  "raw_of T k = snd (the (map_of T k))"

lemma raw_of_mem: "distinct (map fst T) \<Longrightarrow> (k, x, r) \<in> set T \<Longrightarrow> raw_of T k = r"
  by (simp add: raw_of_def)

lemma decode_filled:
  assumes L: "json_object (omits L) = Some (JObj M)" "distinct (map key_of L)"
    and T: "distinct (map fst T)" "fst ` set T = fst ` set M"
      "\<And>k x r. (k, x, r) \<in> set T \<Longrightarrow> \<exists>j. map_of M k = Some j \<and> Q j r x"
    and step: "\<And>k j x K. (False, k, Some j) \<in> set L \<Longrightarrow> Q j (raw_of T k) x \<Longrightarrow> k \<notin> K \<Longrightarrow>
      decode_member False fs (None, pick K) (k, x, raw_of T k) = (None, pick (insert k K))"
  shows "decode_members False fs T (pick {}) = Inr (pick {k. \<exists>j. (False, k, j) \<in> set L})"
    and "\<And>k j. (False, k, Some j) \<in> set L \<Longrightarrow> \<exists>x. Q j (raw_of T k) x"
proof -
  have M: "M = members_of L" and some: "\<And>b k j. (b, k, j) \<in> set L \<Longrightarrow> \<not> b \<Longrightarrow> j \<noteq> None"
    using json_object_members [OF L(1)] by auto
  have keys: "fst ` set T = {k. \<exists>j. (False, k, j) \<in> set L}" unfolding T(2) M by (rule keys_members_of)
  have in_L: "\<exists>j. (False, k, Some j) \<in> set L \<and> Q j r x" if t: "(k, x, r) \<in> set T" for k x r
  proof -
    obtain j where j: "map_of M k = Some j" "Q j r x" using T(3) [OF t] by blast
    from j(1) have "(k, j) \<in> set (members_of L)" unfolding M by (rule map_of_SomeD)
    then obtain j' where "(False, k, j') \<in> set L" "j = the j'" by (auto simp: members_of_def)
    with some [of False k j'] j(2) show ?thesis by auto
  qed
  have "foldl (decode_member False fs) (None, pick {}) T = (None, pick (fst ` set T \<union> {}))"
  proof (rule decode_pick [OF T(1)])
    fix k x r K
    assume t: "(k, x, r) \<in> set T" and "k \<notin> K"
    then show "decode_member False fs (None, pick K) (k, x, r) = (None, pick (insert k K))"
      using in_L [OF t] step [of k _ x K] raw_of_mem [OF T(1) t] by auto
  qed simp
  then show "decode_members False fs T (pick {}) = Inr (pick {k. \<exists>j. (False, k, j) \<in> set L})"
    by (simp add: decode_members_def keys)
  show "\<exists>x. Q j (raw_of T k) x" if l: "(False, k, Some j) \<in> set L" for k j
  proof -
    have "k \<in> fst ` set T" using l by (auto simp: keys)
    then obtain x r where t: "(k, x, r) \<in> set T" by auto
    then obtain j' where "map_of M k = Some j'" "Q j' r x" using T(3) by blast
    moreover have "map_of M k = Some j" using map_of_members_of [OF L(2) l] by (simp add: M)
    ultimately show ?thesis using raw_of_mem [OF T(1) t] by auto
  qed
qed

end
