(* ===== verification/Proposal_Roundtrip.thy ===== *)
theory Proposal_Roundtrip
  imports Json_Stored
begin

section \<open>A stored transaction proposal, read back\<close>

text \<open>
  Reading what a JSONB column gives back for a proposal: which fields come back unchanged,
  and what may change in the others (bytes that are not UTF-8, the way embedded JSON is
  written, the order of map entries).
\<close>

subsection \<open>Writing\<close>

lemma printable_object:
  assumes "json_object ms = Some v" and "\<And>l. Some l \<in> set ms \<Longrightarrow> \<forall>kv \<in> set l. printable (snd kv)"
  shows "printable v"
proof -
  from assms(1) have ne: "None \<notin> set ms" and v: "v = JObj (concat (map the ms))"
    by (auto simp: json_object_def split: if_splits)
  have "\<forall>kv \<in> set (the m). printable (snd kv)" if "m \<in> set ms" for m
    using that ne assms(2) [of "the m"] by (metis option.collapse)
  then show ?thesis by (auto simp: v list_all_iff)
qed

lemma printable_omit:
  assumes "omit b k j = Some l" and "\<And>x. \<not> b \<Longrightarrow> j = Some x \<Longrightarrow> printable x" and "kv \<in> set l"
  shows "printable (snd kv)"
  using assms by (auto simp: omit_def split: if_splits)

lemma printable_leaves [simp]:
  "printable (json_int i)" "printable (json_uint n)"
  using json_wf_show_int [of i] json_wf_uint [of n] json_wf_printable
  unfolding json_int_def by blast+

lemma printable_time: "json_time t = Some j \<Longrightarrow> printable j"
  by (auto simp: json_time_def split: if_splits prod.splits)

lemma printable_raw:
  assumes "raw_json r = Some j"
  shows "printable j"
proof (cases "r = []")
  case False
  with assms obtain v where "json_parse r = Some v" and "j = JRaw (json_compact False r)"
    by (auto simp: raw_json_def split: if_splits)
  with reads_compact show ?thesis by auto
qed (use assms in \<open>simp add: raw_json_def\<close>)

lemma printable_members:
  assumes "json_object (omits L) = Some v" and "\<And>b k j. (b, k, Some j) \<in> set L \<Longrightarrow> printable j"
  shows "printable v"
  using assms(1)
proof (rule printable_object)
  fix l
  assume "Some l \<in> set (omits L)"
  then obtain b k j where m: "(b, k, j) \<in> set L" and l: "omit b k j = Some l" by auto
  show "\<forall>kv \<in> set l. printable (snd kv)"
    by (intro ballI, rule printable_omit [OF l]) (use assms(2) m in auto)
qed

definition utxo_members :: "UTXO \<Rightarrow> (bool \<times> string \<times> json option) list" where
  "utxo_members u =
     [(False, ''tx_id'', Some (JStr (uTxID u))), (False, ''vout'', Some (json_uint (uVout u))),
      (False, ''amount_sats'', Some (json_int (sint (uAmountSats u)))),
      (False, ''script_pub_key'', Some (JStr (uScriptPubKey u)))]"

definition request_members :: "TransactionRequest \<Rightarrow> (bool \<times> string \<times> json option) list" where
  "request_members r =
     [(False, ''wallet_id'', Some (JStr (rWalletID r))), (False, ''to'', Some (JStr (rTo r))),
      (False, ''amount'', Some (JStr (rAmount r))),
      (rFeeRateSats r = 0, ''fee_rate_sats'', Some (json_int (sint (rFeeRateSats r)))),
      (rGasLimit r = 0, ''gas_limit'', Some (json_uint (rGasLimit r))),
      (rMaxFeePerGas r = [], ''max_fee_per_gas'', Some (JStr (rMaxFeePerGas r))),
      (rData r = [], ''data'', Some (JStr (rData r))),
      (rUTXOs r = [], ''utxos'', Some (JArr (map utxo_json (rUTXOs r)))),
      (rMetadata r = [], ''metadata'', raw_json (rMetadata r))]"

definition approval_members :: "Approval \<Rightarrow> (bool \<times> string \<times> json option) list" where
  "approval_members a =
     [(False, ''signer_id'', Some (JStr (SignerID a))), (False, ''created_at'', json_time (aCreatedAt a))]"

definition raw_transaction_members :: "RawTransaction \<Rightarrow> (bool \<times> string \<times> json option) list" where
  "raw_transaction_members r =
     [(False, ''chain'', Some (JStr (rawChain r))), (False, ''payload'', raw_json (Payload r))]"

definition proposal_members :: "TransactionProposal \<Rightarrow> (bool \<times> string \<times> json option) list" where
  "proposal_members p =
     [(False, ''id'', Some (JStr (pID p))), (False, ''wallet_id'', Some (JStr (pWalletID p))),
      (False, ''chain'', Some (JStr (pChain p))), (False, ''status'', Some (JStr (pStatus p))),
      (False, ''request'', request_json (pRequest p)),
      (False, ''raw_transaction'', raw_transaction_json (pRawTransaction p)),
      (False, ''approvals'', map_json approval_json (pApprovals p)),
      (pSignedTransaction p = [], ''signed_transaction'', Some (JStr (pSignedTransaction p))),
      (pBroadcastHash p = [], ''broadcast_hash'', Some (JStr (pBroadcastHash p))),
      (pError p = [], ''error'', Some (JStr (pError p))),
      (pTrace p = None \<or> pTrace p = Some [], ''trace'', map_json (\<lambda>s. Some (JStr s)) (pTrace p)),
      (False, ''created_at'', json_time (pCreatedAt p)), (False, ''updated_at'', json_time (pUpdatedAt p))]"

lemmas members_defs = utxo_members_def request_members_def approval_members_def
  raw_transaction_members_def proposal_members_def

lemma json_members:
  "Some (utxo_json u) = json_object (omits (utxo_members u))"
  "request_json r = json_object (omits (request_members r))"
  "approval_json a = json_object (omits (approval_members a))"
  "raw_transaction_json t = json_object (omits (raw_transaction_members t))"
  "proposal_json p = json_object (omits (proposal_members p))"
  by (simp_all add: members_defs utxo_json_def request_json_def approval_json_def raw_transaction_json_def
      proposal_json_def fld_omit) (simp add: json_object_def omit_def)

lemma map_json_members:
  "map_json f (Some m) = json_object (omits (map (\<lambda>k. (False, k, f (the (map_of m k)))) (sort (gkeys m))))"
  by (simp add: map_json_def o_def)

lemma members_keys:
  "distinct (map key_of (utxo_members u))" "\<forall>m \<in> set (utxo_members u). utf8_ok (key_of m)"
  "distinct (map key_of (request_members r))" "\<forall>m \<in> set (request_members r). utf8_ok (key_of m)"
  "distinct (map key_of (approval_members a))" "\<forall>m \<in> set (approval_members a). utf8_ok (key_of m)"
  "distinct (map key_of (raw_transaction_members t))" "\<forall>m \<in> set (raw_transaction_members t). utf8_ok (key_of m)"
  "distinct (map key_of (proposal_members p))" "\<forall>m \<in> set (proposal_members p). utf8_ok (key_of m)"
  by (simp_all add: members_defs utf8_ok_ascii)

lemma utf8_members: "\<forall>m \<in> set L. utf8_ok (key_of m) \<Longrightarrow> \<forall>k \<in> fst ` set (members_of L). utf8_ok k"
  unfolding keys_members_of by force

lemma printable_map:
  assumes "map_json f m = Some j" and "\<And>v x. f v = Some x \<Longrightarrow> printable x"
  shows "printable j"
proof (cases m)
  case (Some m')
  with assms(1) have o: "json_object (omits (map (\<lambda>k. (False, k, f (the (map_of m' k)))) (sort (gkeys m')))) = Some j"
    by (simp add: map_json_members)
  show ?thesis
    by (rule printable_members [OF o]) (auto intro: assms(2) [OF sym])
qed (use assms in \<open>auto simp: map_json_def\<close>)

lemma printable_utxo: "printable (utxo_json u)"
  by (rule printable_members [OF json_members(1) [symmetric]]) (auto simp: utxo_members_def)

lemma printable_request: "request_json r = Some j \<Longrightarrow> printable j"
  unfolding json_members
  by (erule printable_members)
    (auto simp: request_members_def list_all_iff printable_utxo intro: printable_raw [OF sym])

lemma printable_approval: "approval_json a = Some j \<Longrightarrow> printable j"
  unfolding json_members
  by (erule printable_members) (auto simp: approval_members_def intro: printable_time [OF sym])

lemma printable_raw_transaction: "raw_transaction_json t = Some j \<Longrightarrow> printable j"
  unfolding json_members
  by (erule printable_members) (auto simp: raw_transaction_members_def intro: printable_raw [OF sym])

theorem printable_proposal: "proposal_json p = Some j \<Longrightarrow> printable j"
  unfolding json_members(5)
  by (erule printable_members)
    (auto simp: proposal_members_def printable_approval intro: printable_time [OF sym] printable_request [OF sym]
      printable_raw_transaction [OF sym] printable_map [OF sym])

subsection \<open>Reading the parts\<close>

lemma json_uint_int: "json_uint n = JNum (show_int (int (unat n)))"
  by (simp add: json_uint_def show_int_def)

lemma alike_uint: "alike (json_uint n) v \<Longrightarrow> v = json_uint n"
  unfolding json_uint_int by (rule alike_int)

lemma alike_json_int: "alike (json_int i) v \<Longrightarrow> v = json_int i"
  unfolding json_int_def by (rule alike_int)

lemma ParseUint32_show: "ParseUint32 (show_nat (unat (n :: 32 word))) = Some n"
  using show_nat_digits [of "unat n"] unsigned_less [of n, where ?'a = nat]
  by (simp add: ParseUint32_def)

lemma ParseInt64_show: "ParseInt64 (show_int (sint (n :: int64))) = Some (sint n)"
  using sint_range_size [of n] by (simp add: ParseInt64_def big_SetString_show_int word_size)

text \<open>One member whose field is known.\<close>

lemma decode_member_found:
  "find_field fs k = Some f \<Longrightarrow> snd f v r x = Inr y \<Longrightarrow> decode_member b fs (None, x) (k, v, r) = (None, y)"
  by (simp add: decode_member_def)

lemma field_str [simp]: "snd (str_field n put) (JStr s) r x = Inr (put s x)"
  by (simp add: str_field_def)

lemma field_uint32 [simp]: "snd (num_field ParseUint32 n put) (json_uint i) r x = Inr (put i x)"
  by (simp add: num_field_def json_uint_def ParseUint32_show)

lemma field_uint64 [simp]: "snd (num_field ParseUint64 n put) (json_uint i) r x = Inr (put i x)"
  by (simp add: num_field_def json_uint_def ParseUint64_show)

lemma field_int64 [simp]: "snd (num_field ParseInt64 n put) (json_int (sint (i :: int64))) r x = Inr (put (sint i) x)"
  by (simp add: num_field_def json_int_def ParseInt64_show)

lemma find_exact:
  assumes "find (\<lambda>f. fst f = k) fs = Some f"
  shows "find_field fs k = Some f"
  using assms by (simp add: find_field_def)

lemma field_names [simp]:
  "fst (str_field n put) = n" "fst (num_field parse n put') = n" "fst (time_field slow n put'') = n"
  "fst (struct_field fs n get put3) = n" "fst (map_field f n get' put4) = n"
  by (simp_all add: str_field_def num_field_def time_field_def struct_field_def map_field_def)

lemmas filled = decode_member_found [OF find_exact]

lemma alike_leaf:
  "alike (JStr s) v \<longleftrightarrow> v = JStr (utf8_fix s)" "alike (json_uint n) v \<longleftrightarrow> v = json_uint n"
  "alike (json_int i) v \<longleftrightarrow> v = json_int i" "alike JNull v \<longleftrightarrow> v = JNull"
  by (auto dest: alike_str alike_uint alike_json_int alike_null)
    (simp_all add: alike_def json_uint_int json_int_def del: canon.simps(1))

definition fix_utxo :: "UTXO \<Rightarrow> UTXO" where
  "fix_utxo u = \<lparr>uTxID = utf8_fix (uTxID u), uVout = uVout u, uAmountSats = uAmountSats u,
                 uScriptPubKey = utf8_fix (uScriptPubKey u)\<rparr>"

lemma obj_raws_triples:
  "map fst (triples ms (obj_raws (JObj ms))) = map fst ms"
  "(k, x, r) \<in> set (triples ms (obj_raws (JObj ms))) \<Longrightarrow> (k, x) \<in> set ms"
  by (simp_all add: fst_triples obj_raws_def) (auto simp: triples_def dest: set_zip_leftD)

lemma decode_utxo:
  assumes "alike (utxo_json u) v"
  shows "decode_struct False utxo_fields v (obj_raws v) zero_utxo = Inr (fix_utxo u)"
proof -
  let ?L = "utxo_members u"
  note O = json_object_members [OF json_members(1) [of u, symmetric]]
  obtain ms where v: "v = JObj ms" and d: "distinct (map fst ms)" and k: "fst ` set ms = fst ` set (members_of ?L)"
    and m: "\<And>k x. (k, x) \<in> set ms \<Longrightarrow> \<exists>j. map_of (members_of ?L) k = Some j \<and> alike j x"
    using alike_obj [OF assms [unfolded O(1)] distinct_members_of [OF members_keys(1)] utf8_members [OF members_keys(2)]]
    by blast
  let ?T = "triples ms (obj_raws v)"
  define pick where "pick K = \<lparr>uTxID = if ''tx_id'' \<in> K then utf8_fix (uTxID u) else [],
      uVout = if ''vout'' \<in> K then uVout u else 0, uAmountSats = if ''amount_sats'' \<in> K then uAmountSats u else 0,
      uScriptPubKey = if ''script_pub_key'' \<in> K then utf8_fix (uScriptPubKey u) else []\<rparr>" for K :: "string set"
  have "decode_members False utxo_fields ?T (pick {}) = Inr (pick {k. \<exists>j. (False, k, j) \<in> set ?L})"
  proof (rule decode_filled(1) [where Q = "\<lambda>j r x. alike j x" and M = "members_of ?L"])
    show "json_object (omits ?L) = Some (JObj (members_of ?L))" using json_members(1) [of u] O(1) by simp
    show "fst ` set ?T = fst ` set (members_of ?L)" using k obj_raws_triples(1) [of ms] v by (metis list.set_map)
  next
    fix k j x K
    assume L: "(False, k, Some j) \<in> set ?L" and x: "alike j x"
    from L x show "decode_member False utxo_fields (None, pick K) (k, x, raw_of ?T k) = (None, pick (insert k K))"
      unfolding utxo_members_def
      by (simp, elim disjE conjE) (simp_all add: filled utxo_fields_def pick_def alike_leaf)
  qed (use v d m obj_raws_triples members_keys(1) in auto)
  moreover have "pick {} = zero_utxo" by (simp add: pick_def zero_utxo_def)
  moreover have "pick {k. \<exists>j. (False, k, j) \<in> set ?L} = fix_utxo u"
    by (simp add: pick_def fix_utxo_def utxo_members_def)
  ultimately show ?thesis by (simp add: v decode_struct_JObj)
qed

lemma decode_utxos_alike:
  "list_all2 alike (map utxo_json us) vs \<Longrightarrow> decode_utxos False vs [] = Inr (map fix_utxo us)"
proof (induction us arbitrary: vs)
  case (Cons u us)
  then obtain v vs' where "vs = v # vs'" "alike (utxo_json u) v" "list_all2 alike (map utxo_json us) vs'"
    by (auto simp: list_all2_Cons1)
  with Cons.IH decode_utxo show ?case by simp
qed simp

text \<open>
  A struct with its texts: \<open>pick R K\<close> has the fields named in \<open>K\<close>, decoded from the texts \<open>R\<close>
  of the members.
\<close>

definition fills ::
  "'a field list \<Rightarrow> ((string \<Rightarrow> string) \<Rightarrow> string set \<Rightarrow> 'a) \<Rightarrow> (bool \<times> string \<times> json option) list \<Rightarrow> bool" where
  "fills fs pick L \<longleftrightarrow>
     (\<forall>R k j x K. (False, k, Some j) \<in> set L \<longrightarrow> stands_for j (R k) x \<longrightarrow> k \<notin> K \<longrightarrow>
        decode_member False fs (None, pick R K) (k, x, R k) = (None, pick R (insert k K)))"

lemma decode_stored:
  assumes L: "json_object (omits L) = Some j" "distinct (map key_of L)" "\<forall>m \<in> set L. utf8_ok (key_of m)"
    and v: "stands_for j raw v"
    and fill: "fills fs pick L"
  obtains R where "\<And>k j. (False, k, Some j) \<in> set L \<Longrightarrow> \<exists>x. stands_for j (R k) x"
    and "decode_struct False fs v (object_raws raw) (pick R {}) = Inr (pick R {k. \<exists>j. (False, k, j) \<in> set L})"
proof -
  have j: "j = JObj (members_of L)" by (rule json_object_members [OF L(1)])
  obtain ms where ms: "v = JObj ms" "distinct (map fst (triples ms (object_raws raw)))"
    "fst ` set (triples ms (object_raws raw)) = fst ` set (members_of L)"
    "\<And>k x r. (k, x, r) \<in> set (triples ms (object_raws raw)) \<Longrightarrow>
        \<exists>j. map_of (members_of L) k = Some j \<and> stands_for j r x"
    using stands_obj [OF v [unfolded j] distinct_members_of [OF L(2)] utf8_members [OF L(3)]] by blast
  let ?T = "triples ms (object_raws raw)"
  note F = decode_filled [where Q = stands_for and pick = "pick (raw_of ?T)" and fs = fs,
      OF L(1) [unfolded j] L(2) ms(2-4) fill [unfolded fills_def, rule_format]]
  show ?thesis
    by (rule that [of "raw_of ?T"]) (use F ms(1) in \<open>auto simp: decode_struct_JObj\<close>)
qed

definition fix_request :: "TransactionRequest \<Rightarrow> TransactionRequest" where
  "fix_request r =
     \<lparr>rWalletID = utf8_fix (rWalletID r), rTo = utf8_fix (rTo r), rAmount = utf8_fix (rAmount r),
      rFeeRateSats = rFeeRateSats r, rGasLimit = rGasLimit r, rMaxFeePerGas = utf8_fix (rMaxFeePerGas r),
      rData = utf8_fix (rData r), rUTXOs = map fix_utxo (rUTXOs r), rMetadata = []\<rparr>"

text \<open>Embedded JSON up to the form of its text; nil is \<^verbatim>\<open>null\<close>.\<close>

definition raw_norm :: "string \<Rightarrow> json option" where
  "raw_norm s = (if s = [] then Some JNull else map_option canon (json_parse s))"

lemma stands_raw_norm:
  assumes "raw_json s = Some j" and "stands_for j raw v"
  shows "raw_norm raw = raw_norm s"
proof -
  have parse: "json_parse raw = Some v" and al: "alike j v"
    using assms(2) by (auto simp: stands_for_def dest: reads_parse)
  have ne: "raw \<noteq> []" using assms(2) by (auto simp: stands_for_def elim: reads_hd)
  show ?thesis
  proof (cases "s = []")
    case True
    with assms(1) al have "v = JNull" by (simp add: raw_json_def alike_leaf)
    with True ne parse show ?thesis by (simp add: raw_norm_def)
  next
    case False
    with assms(1) obtain w where w: "json_parse s = Some w" and j: "j = JRaw (json_compact False s)"
      by (auto simp: raw_json_def split: if_splits)
    have "canon v = canon w" by (rule alike_raw [OF al [unfolded j] reads_compact [OF w]])
    with False ne parse w show ?thesis by (simp add: raw_norm_def)
  qed
qed

lemma find_request [simp]:
  "find_field (request_fields b) ''wallet_id'' = Some (str_field ''wallet_id'' (\<lambda>s x. x\<lparr>rWalletID := s\<rparr>))"
  "find_field (request_fields b) ''to'' = Some (str_field ''to'' (\<lambda>s x. x\<lparr>rTo := s\<rparr>))"
  "find_field (request_fields b) ''amount'' = Some (str_field ''amount'' (\<lambda>s x. x\<lparr>rAmount := s\<rparr>))"
  "find_field (request_fields b) ''fee_rate_sats'' =
     Some (num_field ParseInt64 ''fee_rate_sats'' (\<lambda>n x. x\<lparr>rFeeRateSats := word_of_int n\<rparr>))"
  "find_field (request_fields b) ''gas_limit'' = Some (num_field ParseUint64 ''gas_limit'' (\<lambda>n x. x\<lparr>rGasLimit := n\<rparr>))"
  "find_field (request_fields b) ''max_fee_per_gas'' = Some (str_field ''max_fee_per_gas'' (\<lambda>s x. x\<lparr>rMaxFeePerGas := s\<rparr>))"
  "find_field (request_fields b) ''data'' = Some (str_field ''data'' (\<lambda>s x. x\<lparr>rData := s\<rparr>))"
  "find_field (request_fields b) ''utxos'' = Some (utxos_field b)"
  "find_field (request_fields b) ''metadata'' = Some (''metadata'', \<lambda>j raw x. Inr (x\<lparr>rMetadata := raw\<rparr>))"
  by (rule find_exact, simp add: request_fields_def utxos_field_def)+

lemma utxos_alike:
  assumes "alike (JArr (map utxo_json us)) v" and "rUTXOs x = []"
  shows "snd (utxos_field False) v r x = Inr (x\<lparr>rUTXOs := map fix_utxo us\<rparr>)"
  using alike_arr [OF assms(1)] assms(2) by (auto simp: utxos_field_def decode_utxos_alike)

definition request_pick :: "TransactionRequest \<Rightarrow> (string \<Rightarrow> string) \<Rightarrow> string set \<Rightarrow> TransactionRequest" where
  "request_pick r R K =
     \<lparr>rWalletID = if ''wallet_id'' \<in> K then utf8_fix (rWalletID r) else [],
      rTo = if ''to'' \<in> K then utf8_fix (rTo r) else [],
      rAmount = if ''amount'' \<in> K then utf8_fix (rAmount r) else [],
      rFeeRateSats = if ''fee_rate_sats'' \<in> K then rFeeRateSats r else 0,
      rGasLimit = if ''gas_limit'' \<in> K then rGasLimit r else 0,
      rMaxFeePerGas = if ''max_fee_per_gas'' \<in> K then utf8_fix (rMaxFeePerGas r) else [],
      rData = if ''data'' \<in> K then utf8_fix (rData r) else [],
      rUTXOs = if ''utxos'' \<in> K then map fix_utxo (rUTXOs r) else [],
      rMetadata = if ''metadata'' \<in> K then R ''metadata'' else []\<rparr>"

lemma decode_request:
  assumes "request_json r = Some j" and "stands_for j raw v"
  shows "\<exists>m. decode_struct False (request_fields False) v (object_raws raw) zero_request =
     Inr ((fix_request r)\<lparr>rMetadata := m\<rparr>) \<and> raw_norm m = raw_norm (rMetadata r)"
proof -
  let ?L = "request_members r"
  have fill: "fills (request_fields False) (request_pick r) ?L"
    unfolding fills_def
  proof (intro allI impI)
    fix R k j x K
    assume L: "(False, k, Some j) \<in> set ?L" and x: "stands_for j (R k) x" and new: "k \<notin> K"
    show "decode_member False (request_fields False) (None, request_pick r R K) (k, x, R k) = (None, request_pick r R (insert k K))"
      using L stands_alike [OF x] new unfolding request_members_def
      by (simp, elim disjE conjE)
        (simp_all add: decode_member_found request_pick_def alike_leaf utxos_alike)
  qed
  obtain R where R: "\<And>k j. (False, k, Some j) \<in> set ?L \<Longrightarrow> \<exists>x. stands_for j (R k) x"
    and dec: "decode_struct False (request_fields False) v (object_raws raw) (request_pick r R {}) =
      Inr (request_pick r R {k. \<exists>j. (False, k, j) \<in> set ?L})"
    using decode_stored [OF assms(1) [unfolded json_members] members_keys(3,4) assms(2) fill] by blast
  have zero: "request_pick r R {} = zero_request" by (simp add: request_pick_def zero_request_def)
  let ?m = "if rMetadata r = [] then [] else R ''metadata''"
  have full: "request_pick r R {k. \<exists>j. (False, k, j) \<in> set ?L} = (fix_request r)\<lparr>rMetadata := ?m\<rparr>"
    by (simp add: request_pick_def fix_request_def request_members_def)
  have "raw_norm ?m = raw_norm (rMetadata r)"
  proof (cases "rMetadata r = []")
    case False
    have "raw_json (rMetadata r) \<noteq> None"
      using json_object_members(2) [OF assms(1) [unfolded json_members], of False "''metadata''" "raw_json (rMetadata r)"] False
      by (simp add: request_members_def)
    then obtain m where m: "raw_json (rMetadata r) = Some m" by blast
    then obtain x where "stands_for m (R ''metadata'') x" using R [of "''metadata''" m] False by (auto simp: request_members_def)
    with stands_raw_norm [OF m] False show ?thesis by simp
  qed simp
  with dec zero full show ?thesis by auto
qed

definition raw_transaction_pick :: "RawTransaction \<Rightarrow> (string \<Rightarrow> string) \<Rightarrow> string set \<Rightarrow> RawTransaction" where
  "raw_transaction_pick t R K =
     \<lparr>rawChain = if ''chain'' \<in> K then utf8_fix (rawChain t) else [],
      Payload = if ''payload'' \<in> K then R ''payload'' else []\<rparr>"

lemma decode_raw_transaction:
  assumes "raw_transaction_json t = Some j" and "stands_for j raw v"
  shows "\<exists>m. decode_struct False raw_transaction_fields v (object_raws raw) zero_raw_transaction =
     Inr \<lparr>rawChain = utf8_fix (rawChain t), Payload = m\<rparr> \<and> raw_norm m = raw_norm (Payload t)"
proof -
  let ?L = "raw_transaction_members t"
  have fill: "fills raw_transaction_fields (raw_transaction_pick t) ?L"
    unfolding fills_def
  proof (intro allI impI)
    fix R k j x K
    assume L: "(False, k, Some j) \<in> set ?L" and x: "stands_for j (R k) x"
    show "decode_member False raw_transaction_fields (None, raw_transaction_pick t R K) (k, x, R k) =
        (None, raw_transaction_pick t R (insert k K))"
      using L stands_alike [OF x] unfolding raw_transaction_members_def
      by (simp, elim disjE conjE) (simp_all add: filled raw_transaction_fields_def raw_transaction_pick_def alike_leaf)
  qed
  obtain R where R: "\<And>k j. (False, k, Some j) \<in> set ?L \<Longrightarrow> \<exists>x. stands_for j (R k) x"
    and dec: "decode_struct False raw_transaction_fields v (object_raws raw) (raw_transaction_pick t R {}) =
      Inr (raw_transaction_pick t R {k. \<exists>j. (False, k, j) \<in> set ?L})"
    using decode_stored [OF assms(1) [unfolded json_members] members_keys(7,8) assms(2) fill] by blast
  have zero: "raw_transaction_pick t R {} = zero_raw_transaction"
    by (simp add: raw_transaction_pick_def zero_raw_transaction_def)
  have full: "raw_transaction_pick t R {k. \<exists>j. (False, k, j) \<in> set ?L} =
      \<lparr>rawChain = utf8_fix (rawChain t), Payload = R ''payload''\<rparr>"
    by (simp add: raw_transaction_pick_def raw_transaction_members_def)
  have "raw_json (Payload t) \<noteq> None"
    using json_object_members(2) [OF assms(1) [unfolded json_members], of False "''payload''" "raw_json (Payload t)"]
    by (simp add: raw_transaction_members_def)
  then obtain m where m: "raw_json (Payload t) = Some m" by blast
  then obtain x where "stands_for m (R ''payload'') x"
    using R [of "''payload''" m] by (auto simp: raw_transaction_members_def)
  with stands_raw_norm [OF m] dec zero full show ?thesis by auto
qed

definition fix_approval :: "Approval \<Rightarrow> Approval" where
  "fix_approval a = \<lparr>SignerID = utf8_fix (SignerID a), aCreatedAt = aCreatedAt a\<rparr>"

definition approval_pick :: "Approval \<Rightarrow> (string \<Rightarrow> string) \<Rightarrow> string set \<Rightarrow> Approval" where
  "approval_pick a R K =
     \<lparr>SignerID = if ''signer_id'' \<in> K then utf8_fix (SignerID a) else [],
      aCreatedAt = if ''created_at'' \<in> K then aCreatedAt a else zero_time\<rparr>"

lemma field_time:
  "json_time t = Some j \<Longrightarrow> stands_for j raw v \<Longrightarrow> snd (time_field slow n put) v raw x = Inr (put t x)"
  by (simp add: time_field_def stands_time)

lemma decode_approval_stored:
  assumes "approval_json a = Some j" and "stands_for j raw v"
  shows "decode_approval slow v raw = Inr (fix_approval a)"
proof -
  let ?L = "approval_members a"
  have fill: "fills (approval_fields slow) (approval_pick a) ?L"
    unfolding fills_def
  proof (intro allI impI)
    fix R k j x K
    assume L: "(False, k, Some j) \<in> set ?L" and x: "stands_for j (R k) x"
    show "decode_member False (approval_fields slow) (None, approval_pick a R K) (k, x, R k) =
        (None, approval_pick a R (insert k K))"
      using L x stands_alike [OF x] unfolding approval_members_def
      by (simp, elim disjE conjE)
        (simp_all add: filled approval_fields_def approval_pick_def alike_leaf field_time [OF sym])
  qed
  obtain R where "decode_struct False (approval_fields slow) v (object_raws raw) (approval_pick a R {}) =
      Inr (approval_pick a R {k. \<exists>j. (False, k, j) \<in> set ?L})"
    using decode_stored [OF assms(1) [unfolded json_members] members_keys(5,6) assms(2) fill] by blast
  moreover have "approval_pick a R {} = zero_approval" by (simp add: approval_pick_def zero_approval_def)
  moreover have "approval_pick a R {k. \<exists>j. (False, k, j) \<in> set ?L} = fix_approval a"
    by (simp add: approval_pick_def approval_members_def fix_approval_def)
  ultimately show ?thesis by (simp add: decode_approval_def)
qed

subsection \<open>Maps\<close>

lemma decode_entries_each:
  assumes "\<And>k x r. (k, x, r) \<in> set (triples ms raws) \<Longrightarrow> f x r = Inr (g k)"
  shows "decode_entries f ms raws m0 = Inr (foldl (\<lambda>m k. gput k (g k) m) m0 (map fst (triples ms raws)))"
  using assms
proof (induction f ms raws m0 rule: decode_entries.induct)
  case (1 f k j ms raw raws m)
  have fj: "f j raw = Inr (g k)" by (rule 1(2)) (simp add: triples_def)
  have "decode_entries f ms raws (gput k (g k) m) =
      Inr (foldl (\<lambda>m k. gput k (g k) m) (gput k (g k) m) (map fst (triples ms raws)))"
    by (rule 1(1) [OF fj]) (rule 1(2), simp add: triples_def)
  with fj show ?case by (simp add: triples_def)
qed (simp_all add: triples_def)

lemma foldl_gput:
  "map_of (foldl (\<lambda>m k. gput k (g k) m) m0 ks) k = (if k \<in> set ks then Some (g k) else map_of m0 k)"
  "wf_map m0 \<Longrightarrow> wf_map (foldl (\<lambda>m k. gput k (g k) m) m0 ks)"
  by (induction ks arbitrary: m0) (auto simp: update_conv' distinct_update)

lemma wf_decode_entries: "wf_map m0 \<Longrightarrow> decode_entries f ms raws m0 = Inr m \<Longrightarrow> wf_map m"
  by (induction f ms raws m0 rule: decode_entries.induct) (auto simp: distinct_update split: sum.splits)

text \<open>The map a text stands for.\<close>

definition map_of_raw :: "(json \<Rightarrow> string \<Rightarrow> json_error + 'v) \<Rightarrow> string \<Rightarrow> (string, 'v) gomap option" where
  "map_of_raw f raw =
     (case json_parse raw of Some (JObj ms) \<Rightarrow> Some (projr (decode_entries f ms (object_raws raw) [])) | _ \<Rightarrow> None)"

lemma approvals_stored:
  assumes "map_json approval_json (Some m) = Some j" and "stands_for j raw v"
    and "wf_map m" and "\<forall>k \<in> set (gkeys m). utf8_ok k"
  obtains ms m' where "v = JObj ms" and "decode_entries (decode_approval slow) ms (object_raws raw) [] = Inr m'"
    and "wf_map m'" and "map_of m' = map_option fix_approval \<circ> map_of m"
proof -
  let ?L = "map (\<lambda>k. (False, k, approval_json (the (map_of m k)))) (sort (gkeys m))"
  have o: "json_object (omits ?L) = Some j" using assms(1) by (simp only: map_json_members)
  have L: "distinct (map key_of ?L)" "\<forall>x \<in> set ?L. utf8_ok (key_of x)"
    using assms(3,4) by (auto simp: o_def)
  note j = json_object_members [OF o]
  obtain ms where ms: "v = JObj ms" "distinct (map fst (triples ms (object_raws raw)))"
    "fst ` set (triples ms (object_raws raw)) = fst ` set (members_of ?L)"
    "\<And>k x r. (k, x, r) \<in> set (triples ms (object_raws raw)) \<Longrightarrow>
        \<exists>j. map_of (members_of ?L) k = Some j \<and> stands_for j r x"
    using stands_obj [OF assms(2) [unfolded j(1)] distinct_members_of [OF L(1)] utf8_members [OF L(2)]] by blast
  let ?T = "triples ms (object_raws raw)"
  have keys: "fst ` set ?T = set (gkeys m)" unfolding ms(3) keys_members_of by auto
  have each: "decode_approval slow x r = Inr (fix_approval (the (map_of m k)))" if t: "(k, x, r) \<in> set ?T" for k x r
  proof -
    have "k \<in> set (gkeys m)" using t keys by force
    then have in_L: "(False, k, approval_json (the (map_of m k))) \<in> set ?L" by auto
    obtain j' where j': "map_of (members_of ?L) k = Some j'" "stands_for j' r x" using ms(4) [OF t] by blast
    have "approval_json (the (map_of m k)) = Some j'"
      using map_of_members_of [OF L(1) in_L] j(2) [OF in_L] j'(1) by auto
    then show ?thesis using j'(2) by (rule decode_approval_stored)
  qed
  let ?m = "foldl (\<lambda>m' k. gput k (fix_approval (the (map_of m k))) m') [] (map fst ?T)"
  have "map_of ?m k = map_option fix_approval (map_of m k)" for k
  proof (cases "k \<in> set (gkeys m)")
    case True
    then obtain a where "map_of m k = Some a" by (auto dest: weak_map_of_SomeI)
    with True keys show ?thesis by (simp add: foldl_gput)
  next
    case False
    then have "map_of m k = None" by (simp add: map_of_eq_None_iff)
    with False keys show ?thesis by (simp add: foldl_gput)
  qed
  then have "map_of ?m = map_option fix_approval \<circ> map_of m" by (auto simp: fun_eq_iff)
  moreover have "wf_map ?m" by (rule foldl_gput(2)) simp
  moreover have "decode_entries (decode_approval slow) ms (object_raws raw) [] = Inr ?m"
    by (rule decode_entries_each) (rule each)
  ultimately show ?thesis using that ms(1) by blast
qed

end
