(* ===== verification/Proposal_Stored.thy ===== *)
theory Proposal_Stored
  imports Proposal_Roundtrip
begin

section \<open>Storing a transaction proposal in a JSONB column\<close>

text \<open>
  The whole proposal: what reading a stored document gives, field by field, and from it that
  storing keeps everything custody depends on.
\<close>

subsection \<open>The trace map\<close>

lemma alike_strings:
  assumes "alike (JObj M) v" and "\<forall>kv \<in> set M. \<exists>s. snd kv = JStr s"
  obtains ms where "v = JObj ms" and "distinct (map fst ms)" and "\<And>k x. (k, x) \<in> set ms \<Longrightarrow> \<exists>s. x = JStr s"
proof -
  let ?R = "map (\<lambda>kv. (utf8_fix (fst kv), reread (snd kv))) M"
  from assms(1) have can: "canon v = canon (JObj ?R)" and dk: "distinct_keys v" by (simp_all add: alike_def)
  obtain ms where v: "v = JObj ms"
    and look: "\<And>k. map_option canon (map_of (rev ms) k) = map_option canon (map_of (rev ?R) k)"
    using can by (rule canon_JObjD) blast
  have d: "distinct (map fst ms)" using dk v by simp
  have "\<exists>s. x = JStr s" if "(k, x) \<in> set ms" for k x
  proof -
    have "map_of (rev ms) k = Some x" using that d by (simp add: map_of_rev_distinct)
    with look [of k] obtain y where y: "map_of (rev ?R) k = Some y" "canon x = canon y"
      by (cases "map_of (rev ?R) k") auto
    then have "(k, y) \<in> set ?R" by (auto dest!: map_of_SomeD)
    with assms(2) obtain s where "y = JStr s" by fastforce
    with y(2) show ?thesis using canon_JStrD by auto
  qed
  with v d that show ?thesis by blast
qed

lemma trace_stored:
  assumes "map_json (\<lambda>s. Some (JStr s)) (Some m) = Some j" and "stands_for j raw v"
  obtains ms m' where "v = JObj ms" and "decode_entries decode_string ms (object_raws raw) [] = Inr m'" and "wf_map m'"
proof -
  let ?L = "map (\<lambda>k. (False, k, Some (JStr (the (map_of m k))))) (sort (gkeys m))"
  have j: "j = JObj (members_of ?L)"
    by (rule json_object_members) (use assms(1) in \<open>simp only: map_json_members\<close>)
  have strings: "\<forall>kv \<in> set (members_of ?L). \<exists>s. snd kv = JStr s" by (auto simp: members_of_def)
  obtain ms where v: "v = JObj ms" and d: "distinct (map fst ms)" and str: "\<And>k x. (k, x) \<in> set ms \<Longrightarrow> \<exists>s. x = JStr s"
    using alike_strings [OF stands_alike [OF assms(2) [unfolded j]] strings] by blast
  define g where "g k = (case map_of ms k of Some (JStr s) \<Rightarrow> s | _ \<Rightarrow> [])" for k
  have each: "decode_string x r = Inr (g k)" if "(k, x, r) \<in> set (triples ms (object_raws raw))" for k x r
  proof -
    have kx: "(k, x) \<in> set ms" using that by (auto simp: triples_def dest: set_zip_leftD)
    then obtain s where "x = JStr s" using str by blast
    with kx d show ?thesis by (simp add: decode_string_def g_def)
  qed
  have dec: "decode_entries decode_string ms (object_raws raw) [] =
      Inr (foldl (\<lambda>m k. gput k (g k) m) [] (map fst (triples ms (object_raws raw))))"
    by (rule decode_entries_each) (rule each)
  have "wf_map (foldl (\<lambda>m k. gput k (g k) m) [] (map fst (triples ms (object_raws raw))))"
    by (rule foldl_gput(2)) simp
  from that [OF v dec this] show ?thesis .
qed

subsection \<open>All fields\<close>

definition text_struct :: "'a field list \<Rightarrow> 'a \<Rightarrow> string \<Rightarrow> 'a" where
  "text_struct fs zero raw = projr (decode_struct False fs (the (json_parse raw)) (object_raws raw) zero)"

lemma field_struct:
  assumes "stands_for j raw v" and "decode_struct False fs v (object_raws raw) zero = Inr y" and "get x = zero"
  shows "snd (struct_field fs n get put) v raw x = Inr (put (text_struct fs zero raw) x)" and "text_struct fs zero raw = y"
proof -
  have "json_parse raw = Some v" using assms(1) by (auto simp: stands_for_def dest: reads_parse)
  with assms show "text_struct fs zero raw = y" by (simp add: text_struct_def)
  with assms show "snd (struct_field fs n get put) v raw x = Inr (put (text_struct fs zero raw) x)"
    by (simp add: struct_field_def)
qed

lemma field_map:
  assumes "stands_for j raw (JObj ms)" and "decode_entries f ms (object_raws raw) [] = Inr m" and "get x = None"
  shows "snd (map_field f n get put) (JObj ms) raw x = Inr (put (map_of_raw f raw) x)" and "map_of_raw f raw = Some m"
proof -
  have "json_parse raw = Some (JObj ms)" using assms(1) by (auto simp: stands_for_def dest: reads_parse)
  with assms show "map_of_raw f raw = Some m" by (simp add: map_of_raw_def)
  with assms show "snd (map_field f n get put) (JObj ms) raw x = Inr (put (map_of_raw f raw) x)"
    by (simp add: map_field_def)
qed

lemma field_map_null:
  assumes "stands_for JNull raw v"
  shows "snd (map_field f n get put) v raw x = Inr (put (map_of_raw f raw) x)" and "map_of_raw f raw = None"
proof -
  have v: "v = JNull" using stands_alike [OF assms] by (simp add: alike_leaf)
  have "json_parse raw = Some v" using assms by (auto simp: stands_for_def dest: reads_parse)
  then show "map_of_raw f raw = None" by (simp add: map_of_raw_def v)
  then show "snd (map_field f n get put) v raw x = Inr (put (map_of_raw f raw) x)"
    by (simp add: map_field_def v)
qed

definition fit_proposal :: "TransactionProposal \<Rightarrow> bool" where
  "fit_proposal p \<longleftrightarrow> (\<forall>k \<in> set (gkeys (approvals p)). utf8_ok k)"

definition proposal_pick ::
  "(string \<Rightarrow> time option) \<Rightarrow> TransactionProposal \<Rightarrow> (string \<Rightarrow> string) \<Rightarrow> string set \<Rightarrow> TransactionProposal" where
  "proposal_pick slow p R K =
     \<lparr>pID = if ''id'' \<in> K then utf8_fix (pID p) else [],
      pWalletID = if ''wallet_id'' \<in> K then utf8_fix (pWalletID p) else [],
      pChain = if ''chain'' \<in> K then utf8_fix (pChain p) else [],
      pStatus = if ''status'' \<in> K then utf8_fix (pStatus p) else [],
      pRequest = if ''request'' \<in> K then text_struct (request_fields False) zero_request (R ''request'') else zero_request,
      pRawTransaction = if ''raw_transaction'' \<in> K
        then text_struct raw_transaction_fields zero_raw_transaction (R ''raw_transaction'') else zero_raw_transaction,
      pApprovals = if ''approvals'' \<in> K then map_of_raw (decode_approval slow) (R ''approvals'') else None,
      pSignedTransaction = if ''signed_transaction'' \<in> K then utf8_fix (pSignedTransaction p) else [],
      pBroadcastHash = if ''broadcast_hash'' \<in> K then utf8_fix (pBroadcastHash p) else [],
      pError = if ''error'' \<in> K then utf8_fix (pError p) else [],
      pTrace = if ''trace'' \<in> K then map_of_raw decode_string (R ''trace'') else None,
      pCreatedAt = if ''created_at'' \<in> K then pCreatedAt p else zero_time,
      pUpdatedAt = if ''updated_at'' \<in> K then pUpdatedAt p else zero_time\<rparr>"

lemma find_proposal [simp]:
  "find_field (proposal_fields slow) ''id'' = Some (str_field ''id'' (\<lambda>s x. x\<lparr>pID := s\<rparr>))"
  "find_field (proposal_fields slow) ''wallet_id'' = Some (str_field ''wallet_id'' (\<lambda>s x. x\<lparr>pWalletID := s\<rparr>))"
  "find_field (proposal_fields slow) ''chain'' = Some (str_field ''chain'' (\<lambda>s x. x\<lparr>pChain := s\<rparr>))"
  "find_field (proposal_fields slow) ''status'' = Some (str_field ''status'' (\<lambda>s x. x\<lparr>pStatus := s\<rparr>))"
  "find_field (proposal_fields slow) ''request'' =
     Some (struct_field (request_fields False) ''request'' pRequest (\<lambda>r x. x\<lparr>pRequest := r\<rparr>))"
  "find_field (proposal_fields slow) ''raw_transaction'' =
     Some (struct_field raw_transaction_fields ''raw_transaction'' pRawTransaction (\<lambda>r x. x\<lparr>pRawTransaction := r\<rparr>))"
  "find_field (proposal_fields slow) ''approvals'' =
     Some (map_field (decode_approval slow) ''approvals'' pApprovals (\<lambda>m x. x\<lparr>pApprovals := m\<rparr>))"
  "find_field (proposal_fields slow) ''signed_transaction'' =
     Some (str_field ''signed_transaction'' (\<lambda>s x. x\<lparr>pSignedTransaction := s\<rparr>))"
  "find_field (proposal_fields slow) ''broadcast_hash'' = Some (str_field ''broadcast_hash'' (\<lambda>s x. x\<lparr>pBroadcastHash := s\<rparr>))"
  "find_field (proposal_fields slow) ''error'' = Some (str_field ''error'' (\<lambda>s x. x\<lparr>pError := s\<rparr>))"
  "find_field (proposal_fields slow) ''trace'' = Some (map_field decode_string ''trace'' pTrace (\<lambda>m x. x\<lparr>pTrace := m\<rparr>))"
  "find_field (proposal_fields slow) ''created_at'' = Some (time_field slow ''created_at'' (\<lambda>t x. x\<lparr>pCreatedAt := t\<rparr>))"
  "find_field (proposal_fields slow) ''updated_at'' = Some (time_field slow ''updated_at'' (\<lambda>t x. x\<lparr>pUpdatedAt := t\<rparr>))"
  by (rule find_exact, simp add: proposal_fields_def)+

lemma approvals_field:
  assumes "map_json approval_json m = Some j" and "stands_for j raw v" and "get x = None"
    and "wf_map (case m of None \<Rightarrow> [] | Some m \<Rightarrow> m)" and "\<forall>k \<in> set (gkeys (case m of None \<Rightarrow> [] | Some m \<Rightarrow> m)). utf8_ok k"
  shows "snd (map_field (decode_approval slow) n get put) v raw x = Inr (put (map_of_raw (decode_approval slow) raw) x)"
    and "wf_map (case map_of_raw (decode_approval slow) raw of None \<Rightarrow> [] | Some m \<Rightarrow> m)"
    and "map_of (case map_of_raw (decode_approval slow) raw of None \<Rightarrow> [] | Some m \<Rightarrow> m) =
      map_option fix_approval \<circ> map_of (case m of None \<Rightarrow> [] | Some m \<Rightarrow> m)"
proof -
  have "snd (map_field (decode_approval slow) n get put) v raw x = Inr (put (map_of_raw (decode_approval slow) raw) x) \<and>
    wf_map (case map_of_raw (decode_approval slow) raw of None \<Rightarrow> [] | Some m \<Rightarrow> m) \<and>
    map_of (case map_of_raw (decode_approval slow) raw of None \<Rightarrow> [] | Some m \<Rightarrow> m) =
      map_option fix_approval \<circ> map_of (case m of None \<Rightarrow> [] | Some m \<Rightarrow> m)"
  proof (cases m)
    case None
    with assms(1,2) have "stands_for JNull raw v" by (simp add: map_json_def)
    note N = field_map_null [where f = "decode_approval slow", OF this]
    show ?thesis using N by (simp add: None fun_eq_iff)
  next
    case (Some m')
    obtain ms m2 where v: "v = JObj ms" and dec: "decode_entries (decode_approval slow) ms (object_raws raw) [] = Inr m2"
      and m2: "wf_map m2" "map_of m2 = map_option fix_approval \<circ> map_of m'"
      using approvals_stored [OF assms(1) [unfolded Some] assms(2)] assms(4,5) Some by auto
    note F = field_map [where f = "decode_approval slow" and get = get and x = x, OF assms(2) [unfolded v] dec assms(3)]
    show ?thesis using F m2 by (simp add: v Some)
  qed
  then show "snd (map_field (decode_approval slow) n get put) v raw x = Inr (put (map_of_raw (decode_approval slow) raw) x)"
    "wf_map (case map_of_raw (decode_approval slow) raw of None \<Rightarrow> [] | Some m \<Rightarrow> m)"
    "map_of (case map_of_raw (decode_approval slow) raw of None \<Rightarrow> [] | Some m \<Rightarrow> m) =
      map_option fix_approval \<circ> map_of (case m of None \<Rightarrow> [] | Some m \<Rightarrow> m)"
    by blast+
qed

lemma trace_field:
  assumes "map_json (\<lambda>s. Some (JStr s)) m = Some j" and "stands_for j raw v" and "get x = None"
  shows "snd (map_field decode_string n get put) v raw x = Inr (put (map_of_raw decode_string raw) x)"
    and "case map_of_raw decode_string raw of None \<Rightarrow> True | Some m \<Rightarrow> wf_map m"
proof -
  have "snd (map_field decode_string n get put) v raw x = Inr (put (map_of_raw decode_string raw) x) \<and>
    (case map_of_raw decode_string raw of None \<Rightarrow> True | Some m \<Rightarrow> wf_map m)"
  proof (cases m)
    case None
    with assms(1,2) have "stands_for JNull raw v" by (simp add: map_json_def)
    note N = field_map_null [where f = decode_string, OF this]
    show ?thesis using N by simp
  next
    case (Some m')
    obtain ms m2 where v: "v = JObj ms" and dec: "decode_entries decode_string ms (object_raws raw) [] = Inr m2" and "wf_map m2"
      using trace_stored [OF assms(1) [unfolded Some] assms(2)] by blast
    moreover note F = field_map [where f = decode_string and get = get and x = x, OF assms(2) [unfolded v] dec assms(3)]
    ultimately show ?thesis using F by simp
  qed
  then show "snd (map_field decode_string n get put) v raw x = Inr (put (map_of_raw decode_string raw) x)"
    and "case map_of_raw decode_string raw of None \<Rightarrow> True | Some m \<Rightarrow> wf_map m" by blast+
qed

lemma fills_proposal:
  assumes "wf_proposal p" and "fit_proposal p"
  shows "fills (proposal_fields slow) (proposal_pick slow p) (proposal_members p)"
  unfolding fills_def
proof (intro allI impI)
  fix R k j x K
  assume L: "(False, k, Some j) \<in> set (proposal_members p)" and x: "stands_for j (R k) x" and new: "k \<notin> K"
  let ?goal = "decode_member False (proposal_fields slow) (None, proposal_pick slow p R K) (k, x, R k) =
    (None, proposal_pick slow p R (insert k K))"
  consider (request) "k = ''request''" "request_json (pRequest p) = Some j"
    | (raw) "k = ''raw_transaction''" "raw_transaction_json (pRawTransaction p) = Some j"
    | (appr) "k = ''approvals''" "map_json approval_json (pApprovals p) = Some j"
    | (trace) "k = ''trace''" "map_json (\<lambda>s. Some (JStr s)) (pTrace p) = Some j"
    | (leaf) "k = ''id'' \<and> j = JStr (pID p) \<or> k = ''wallet_id'' \<and> j = JStr (pWalletID p) \<or>
        k = ''chain'' \<and> j = JStr (pChain p) \<or> k = ''status'' \<and> j = JStr (pStatus p) \<or>
        k = ''signed_transaction'' \<and> j = JStr (pSignedTransaction p) \<or>
        k = ''broadcast_hash'' \<and> j = JStr (pBroadcastHash p) \<or> k = ''error'' \<and> j = JStr (pError p)"
    | (time) "k = ''created_at'' \<and> json_time (pCreatedAt p) = Some j \<or> k = ''updated_at'' \<and> json_time (pUpdatedAt p) = Some j"
    using L unfolding proposal_members_def by (simp, elim disjE conjE) simp_all
  then show ?goal
  proof cases
    case request
    obtain m where d: "decode_struct False (request_fields False) x (object_raws (R k)) zero_request =
        Inr ((fix_request (pRequest p))\<lparr>rMetadata := m\<rparr>)" using decode_request [OF request(2) x] by blast
    have z: "pRequest (proposal_pick slow p R K) = zero_request" using new request(1) by (simp add: proposal_pick_def)
    show ?thesis
      using field_struct(1) [where get = pRequest, OF x d z]
      by (simp add: request(1) decode_member_found) (simp add: proposal_pick_def)
  next
    case raw
    obtain m where d: "decode_struct False raw_transaction_fields x (object_raws (R k)) zero_raw_transaction =
        Inr \<lparr>rawChain = utf8_fix (rawChain (pRawTransaction p)), Payload = m\<rparr>"
      using decode_raw_transaction [OF raw(2) x] by blast
    have z: "pRawTransaction (proposal_pick slow p R K) = zero_raw_transaction" using new raw(1) by (simp add: proposal_pick_def)
    show ?thesis
      using field_struct(1) [where get = pRawTransaction, OF x d z]
      by (simp add: raw(1) decode_member_found) (simp add: proposal_pick_def)
  next
    case appr
    have z: "pApprovals (proposal_pick slow p R K) = None" using new appr(1) by (simp add: proposal_pick_def)
    show ?thesis
      using approvals_field(1) [where get = pApprovals, OF appr(2) x z] assms appr(1)
      by (simp add: decode_member_found wf_proposal_def fit_proposal_def approvals_def) (simp add: proposal_pick_def)
  next
    case trace
    have z: "pTrace (proposal_pick slow p R K) = None" using new trace(1) by (simp add: proposal_pick_def)
    show ?thesis
      using trace_field(1) [where get = pTrace, OF trace(2) x z]
      by (simp add: trace(1) decode_member_found) (simp add: proposal_pick_def)
  next
    case leaf
    then show ?thesis using stands_alike [OF x]
      by (elim disjE conjE) (simp_all add: decode_member_found proposal_pick_def alike_leaf)
  next
    case time
    then show ?thesis using x
      by (elim disjE conjE) (simp_all add: decode_member_found field_time proposal_pick_def)
  qed
qed

subsection \<open>The proposal\<close>

text \<open>What a stored proposal comes back as.\<close>

definition read_back :: "TransactionProposal \<Rightarrow> TransactionProposal \<Rightarrow> bool" where
  "read_back p q \<longleftrightarrow>
     pID q = utf8_fix (pID p) \<and> pWalletID q = utf8_fix (pWalletID p) \<and> pChain q = utf8_fix (pChain p) \<and>
     pStatus q = utf8_fix (pStatus p) \<and> (pRequest q)\<lparr>rMetadata := []\<rparr> = fix_request (pRequest p) \<and>
     raw_norm (rMetadata (pRequest q)) = raw_norm (rMetadata (pRequest p)) \<and>
     rawChain (pRawTransaction q) = utf8_fix (rawChain (pRawTransaction p)) \<and>
     raw_norm (Payload (pRawTransaction q)) = raw_norm (Payload (pRawTransaction p)) \<and>
     map_of (approvals q) = map_option fix_approval \<circ> map_of (approvals p) \<and>
     pSignedTransaction q = utf8_fix (pSignedTransaction p) \<and> pBroadcastHash q = utf8_fix (pBroadcastHash p) \<and>
     pError q = utf8_fix (pError p) \<and> pCreatedAt q = pCreatedAt p \<and> pUpdatedAt q = pUpdatedAt p"

lemma proposal_stored:
  assumes "proposal_json p = Some j" and "stands_for j raw v" and "wf_proposal p" and "fit_proposal p"
  obtains q where "unmarshal_proposal slow raw = Inr q" and "read_back p q" and "wf_proposal q"
proof -
  let ?L = "proposal_members p"
  note obj = json_object_members(2) [OF assms(1) [unfolded json_members]]
  obtain R where R: "\<And>k j. (False, k, Some j) \<in> set ?L \<Longrightarrow> \<exists>x. stands_for j (R k) x"
    and dec: "decode_struct False (proposal_fields slow) v (object_raws raw) (proposal_pick slow p R {}) =
      Inr (proposal_pick slow p R {k. \<exists>j. (False, k, j) \<in> set ?L})"
    using decode_stored [OF assms(1) [unfolded json_members] members_keys(9,10) assms(2) fills_proposal [OF assms(3,4)]]
    by blast
  define q where "q = proposal_pick slow p R {k. \<exists>j. (False, k, j) \<in> set ?L}"
  have zero: "proposal_pick slow p R {} = zero_proposal" by (simp add: proposal_pick_def zero_proposal_def)
  have parse: "json_parse raw = Some v" using assms(2) by (auto simp: stands_for_def dest: reads_parse)
  have q: "unmarshal_proposal slow raw = Inr q"
    using dec unfolding zero by (simp add: unmarshal_proposal_def parse q_def)
  have some: "\<exists>j x. f = Some j \<and> stands_for j (R k) x" if "(False, k, f) \<in> set ?L" for k f
    using obj [OF that] R [of k "the f"] that by auto
  obtain jr xr where r: "request_json (pRequest p) = Some jr" "stands_for jr (R ''request'') xr"
    using some [of "''request''"] by (auto simp: proposal_members_def)
  obtain m where dr: "decode_struct False (request_fields False) xr (object_raws (R ''request'')) zero_request =
      Inr ((fix_request (pRequest p))\<lparr>rMetadata := m\<rparr>)" and m: "raw_norm m = raw_norm (rMetadata (pRequest p))"
    using decode_request [OF r] by blast
  obtain jt xt where t: "raw_transaction_json (pRawTransaction p) = Some jt" "stands_for jt (R ''raw_transaction'') xt"
    using some [of "''raw_transaction''"] by (auto simp: proposal_members_def)
  obtain n where dt: "decode_struct False raw_transaction_fields xt (object_raws (R ''raw_transaction'')) zero_raw_transaction =
      Inr \<lparr>rawChain = utf8_fix (rawChain (pRawTransaction p)), Payload = n\<rparr>"
    and n: "raw_norm n = raw_norm (Payload (pRawTransaction p))"
    using decode_raw_transaction [OF t] by blast
  obtain ja xa where a: "map_json approval_json (pApprovals p) = Some ja" "stands_for ja (R ''approvals'') xa"
    using some [of "''approvals''"] by (auto simp: proposal_members_def)
  have keys: "wf_map (case pApprovals p of None \<Rightarrow> [] | Some m \<Rightarrow> m)"
      "\<forall>k \<in> set (gkeys (case pApprovals p of None \<Rightarrow> [] | Some m \<Rightarrow> m)). utf8_ok k"
    using assms(3,4) by (simp_all add: wf_proposal_def fit_proposal_def approvals_def)
  note A = approvals_field(2,3) [where get = pApprovals and x = zero_proposal and slow = slow, OF a _ keys]
  have fields: "pRequest q = (fix_request (pRequest p))\<lparr>rMetadata := m\<rparr>"
      "pRawTransaction q = \<lparr>rawChain = utf8_fix (rawChain (pRawTransaction p)), Payload = n\<rparr>"
      "pApprovals q = map_of_raw (decode_approval slow) (R ''approvals'')"
    using field_struct(2) [where get = pRequest and x = zero_proposal, OF r(2) dr]
      field_struct(2) [where get = pRawTransaction and x = zero_proposal, OF t(2) dt]
    by (simp_all add: q_def proposal_pick_def proposal_members_def zero_proposal_def)
  have leaves: "pID q = utf8_fix (pID p)" "pWalletID q = utf8_fix (pWalletID p)" "pChain q = utf8_fix (pChain p)"
      "pStatus q = utf8_fix (pStatus p)" "pSignedTransaction q = utf8_fix (pSignedTransaction p)"
      "pBroadcastHash q = utf8_fix (pBroadcastHash p)" "pError q = utf8_fix (pError p)"
      "pCreatedAt q = pCreatedAt p" "pUpdatedAt q = pUpdatedAt p"
    by (simp_all add: q_def proposal_pick_def proposal_members_def)
  have tr: "case pTrace q of None \<Rightarrow> True | Some m \<Rightarrow> wf_map m"
  proof (cases "pTrace p = None \<or> pTrace p = Some []")
    case True
    then show ?thesis by (simp add: q_def proposal_pick_def proposal_members_def)
  next
    case False
    then obtain jc xc where "map_json (\<lambda>s. Some (JStr s)) (pTrace p) = Some jc" "stands_for jc (R ''trace'') xc"
      using some [of "''trace''"] by (auto simp: proposal_members_def)
    from trace_field(2) [where get = pTrace and x = zero_proposal, OF this] show ?thesis
      using False by (simp add: q_def proposal_pick_def proposal_members_def zero_proposal_def)
  qed
  have same: "wf_map (approvals q)" "map_of (approvals q) = map_option fix_approval \<circ> map_of (approvals p)"
    using A by (simp_all add: fields approvals_def zero_proposal_def)
  have "SignerID b = k" if "(k, b) \<in> set (approvals q)" for k b
  proof -
    have "map_of (approvals q) k = Some b" using same(1) that by simp
    with same(2) obtain a where a: "(k, a) \<in> set (approvals p)" "b = fix_approval a" by (auto dest: map_of_SomeD)
    with assms(3,4) have "SignerID a = k" "utf8_ok k" by (force simp: wf_proposal_def fit_proposal_def)+
    with a show ?thesis by (simp add: fix_approval_def utf8_fix_ok)
  qed
  then have "wf_proposal q" using same(1) tr by (auto simp: wf_proposal_def)
  moreover have "read_back p q"
    using same(2) m n by (simp add: read_back_def leaves fields fix_request_def)
  ultimately show ?thesis using that q by blast
qed

end
