(* ===== verification/Postgres_Laws.thy ===== *)
theory Postgres_Laws
  imports Postgres_Store Proposal_Stored
begin

section \<open>The PostgreSQL store meets the store contract\<close>

text \<open>
  What the operations of the PostgreSQL store do to the tables, each run alone over a driver
  that behaves as documented: the abstract view of the tables, the representation invariant,
  and one law of the contract per operation. A transaction proposal comes back from the
  \<^verbatim>\<open>JSONB\<close> column as a proposal with the same custody fields.
\<close>

subsection \<open>View and invariant\<close>

text \<open>What a JSONB column preserves of the request and the raw transaction.\<close>

definition pg_norm :: "TransactionRequest \<Rightarrow> RawTransaction \<Rightarrow> TransactionRequest \<times> json option \<times> string \<times> json option" where
  "pg_norm rq raw = (fix_request rq, raw_norm (rMetadata rq), utf8_fix (rawChain raw), raw_norm (Payload raw))"

definition decode_row :: "('db, 'tx) Pgx \<Rightarrow> proposal_row \<Rightarrow> TransactionProposal option" where
  "decode_row P row = (case unmarshal_proposal (goParse P) (rowProposal row) of Inl _ \<Rightarrow> None | Inr p \<Rightarrow> Some p)"

definition pg_view :: "('db, 'tx) Pgx \<Rightarrow> tables \<Rightarrow> (string \<times> string) store_view" where
  "pg_view P T =
     \<lparr>vw_wallets = t_wallets T, vw_txs = (\<lambda>i. Option.bind (t_proposals T i) (decode_row P)),
      vw_audit = t_audit T, vw_idem = t_idem T\<rparr>"

text \<open>
  Every stored document decodes to a well-formed proposal with the identifier of its row and
  the status of its row's column.
\<close>

definition pg_ok :: "('db, 'tx) Pgx \<Rightarrow> tables \<Rightarrow> bool" where
  "pg_ok P T \<longleftrightarrow>
     (\<forall>i row. t_proposals T i = Some row \<longrightarrow>
        (\<exists>p. decode_row P row = Some p \<and> wf_proposal p \<and> fits utf8_ok p \<and> pID p = i \<and> pStatus p = rowStatus row)) \<and>
     (\<forall>i w. t_wallets T i = Some w \<longrightarrow> wID w = i \<and> utf8_ok (wID w) \<and> utf8_ok (wChain w))"

abbreviation pg_kept :: "TransactionProposal \<Rightarrow> TransactionProposal \<Rightarrow> bool" where
  "pg_kept \<equiv> kept utf8_ok pg_norm"

lemma pg_view_simps [simp]:
  "vw_wallets (pg_view P T) = t_wallets T" "vw_audit (pg_view P T) = t_audit T" "vw_idem (pg_view P T) = t_idem T"
  "vw_txs (pg_view P T) i = Option.bind (t_proposals T i) (decode_row P)"
  by (simp_all add: pg_view_def)

lemma pg_okD:
  assumes "pg_ok P T" and "vw_txs (pg_view P T) i = Some p"
  shows "wf_proposal p" "fits utf8_ok p" "pID p = i"
    and "\<exists>row. t_proposals T i = Some row \<and> decode_row P row = Some p \<and> rowStatus row = pStatus p"
proof -
  obtain row where row: "t_proposals T i = Some row" "decode_row P row = Some p"
    using assms(2) by (auto simp: bind_eq_Some_conv)
  with assms(1) show "wf_proposal p" "fits utf8_ok p" "pID p = i"
    and "\<exists>row. t_proposals T i = Some row \<and> decode_row P row = Some p \<and> rowStatus row = pStatus p"
    by (fastforce simp: pg_ok_def)+
qed

subsection \<open>A document in a JSONB column\<close>

lemma fix_approval_id:
  assumes "wf_proposal p" and "fits utf8_ok p"
  shows "map_option fix_approval \<circ> map_of (approvals p) = map_of (approvals p)"
proof
  fix k
  show "(map_option fix_approval \<circ> map_of (approvals p)) k = map_of (approvals p) k"
  proof (cases "map_of (approvals p) k")
    case (Some a)
    then have "(k, a) \<in> set (approvals p)" by (rule map_of_SomeD)
    with assms have "SignerID a = k" "utf8_ok k" by (force simp: wf_proposal_def fits_def)+
    then have "fix_approval a = a" by (simp add: fix_approval_def utf8_fix_ok)
    with Some show ?thesis by simp
  next
    case None
    then show ?thesis by (simp only: o_apply option.map)
  qed
qed

lemma utf8_fix_fix_utxo [simp]: "fix_utxo (fix_utxo u) = fix_utxo u"
  by (simp add: fix_utxo_def)

lemma read_back_kept:
  assumes "read_back p q" and "wf_proposal p" and "wf_proposal q" and "fits utf8_ok p"
    and "utf8_ok (pID p)" and "utf8_ok (pStatus p)"
  shows "pg_kept p q"
proof -
  from assms(4) have u: "utf8_ok (pWalletID p)" "utf8_ok (pChain p)" "utf8_ok (rAmount (pRequest p))"
    by (auto simp: fits_def)
  obtain m where rq: "pRequest q = (fix_request (pRequest p))\<lparr>rMetadata := m\<rparr>"
    using assms(1) unfolding read_back_def by (metis (no_types) TransactionRequest.surjective TransactionRequest.update_convs(9))
  have map: "map_of (approvals q) = map_of (approvals p)"
    using assms(1) fix_approval_id [OF assms(2,4)] by (simp add: read_back_def)
  have same: "same_custody p q"
    using assms(1,5,6) u map by (simp add: same_custody_def read_back_def rq utf8_fix_ok fix_request_def)
  have "fits utf8_ok q"
    using assms(4) same_custody_keys [OF same] same by (simp add: fits_def same_custody_def)
  moreover have "pg_norm (pRequest q) (pRawTransaction q) = pg_norm (pRequest p) (pRawTransaction p)"
    using assms(1) by (simp add: pg_norm_def read_back_def rq fix_request_def)
  ultimately show ?thesis
    using same assms(1,3) by (simp add: kept_def read_back_def utf8_fix_ok)
qed

lemma stored_document:
  assumes "jsonb_law jb" and "marshal_proposal p = Inr doc" and "jb doc = Some d"
    and "wf_proposal p" and "fits utf8_ok p" and "utf8_ok (pID p)" and "utf8_ok (pStatus p)"
  obtains q where "unmarshal_proposal slow d = Inr q" and "pg_kept p q"
proof -
  from assms(2) obtain j where j: "proposal_json p = Some j" "doc = json_text j"
    by (auto simp: marshal_proposal_def split: option.splits)
  obtain v where v: "stands_for j d v"
    using jsonb_stands_for [OF assms(1) assms(3) [unfolded j(2)] printable_proposal [OF j(1)]] by blast
  have "fit_proposal p" using assms(5) by (simp add: fit_proposal_def fits_def)
  then obtain q where q: "unmarshal_proposal slow d = Inr q" "read_back p q" "wf_proposal q"
    using proposal_stored [OF j(1) v assms(4)] by blast
  with read_back_kept [OF q(2) assms(4) q(3) assms(5-7)] that show ?thesis by blast
qed

subsection \<open>Statements\<close>

lemma text_ok_utf8: "text_ok s \<Longrightarrow> utf8_ok s"
  by (simp add: text_ok_def)

text \<open>Writing a document into the row of a proposal.\<close>

lemma put_row:
  assumes "pg_ok P T" and "decode_row P row = Some q" and "pg_kept p q" and "i = pID p" and "rowStatus row = pStatus p"
  shows "pg_ok P (T\<lparr>t_proposals := (t_proposals T)(i \<mapsto> row)\<rparr>)"
    and "pg_view P (T\<lparr>t_proposals := (t_proposals T)(i \<mapsto> row)\<rparr>) =
      (pg_view P T)\<lparr>vw_txs := (vw_txs (pg_view P T))(i \<mapsto> q)\<rparr>"
  using assms by (auto simp: pg_ok_def pg_view_def kept_def same_custody_def fun_eq_iff)

lemma run_insert_proposal:
  assumes "jsonb_law jb" and "pg_ok P T" and "wf_proposal p" and "fits utf8_ok p"
    and "marshal_proposal p = Inr doc" and "run jb (insert_proposal p doc) T = Inr (n, T')"
  obtains q where "pg_ok P T'" and "vw_txs (pg_view P T) (pID p) = None" and "pg_kept p q"
    and "pg_view P T' = (pg_view P T)\<lparr>vw_txs := (vw_txs (pg_view P T))(pID p \<mapsto> q)\<rparr>"
proof -
  from assms(6) obtain d where d: "jb doc = Some d" and u: "text_ok (pID p)" "text_ok (pStatus p)"
    and new: "t_proposals T (pID p) = None"
    and T': "T' = T\<lparr>t_proposals := (t_proposals T)
      (pID p \<mapsto> \<lparr>rowID = pID p, rowWalletID = pWalletID p, rowChain = pChain p, rowStatus = pStatus p, rowProposal = d,
         rowCreatedAt = micros (pCreatedAt p), rowUpdatedAt = micros (pUpdatedAt p)\<rparr>)\<rparr>"
    by (auto simp: insert_proposal_def split: if_splits option.splits)
  obtain q where q: "unmarshal_proposal (goParse P) d = Inr q" "pg_kept p q"
    using stored_document [OF assms(1,5) d assms(3,4)] u text_ok_utf8 by metis
  let ?row = "\<lparr>rowID = pID p, rowWalletID = pWalletID p, rowChain = pChain p, rowStatus = pStatus p, rowProposal = d,
         rowCreatedAt = micros (pCreatedAt p), rowUpdatedAt = micros (pUpdatedAt p)\<rparr>"
  have "decode_row P ?row = Some q" using q(1) by (simp add: decode_row_def)
  note put = put_row [OF assms(2) this q(2) refl]
  from that [OF _ _ q(2)] put new show ?thesis by (simp add: T')
qed

lemma run_update_proposal:
  assumes "jsonb_law jb" and "pg_ok P T" and "wf_proposal p" and "fits utf8_ok p"
    and "marshal_proposal p = Inr doc" and "run jb (UpdateProposal (pID p) (pStatus p) doc upd) T = Inr (n, T')"
  shows "n = 0 \<and> T' = T \<and> vw_txs (pg_view P T) (pID p) = None \<or>
    n \<noteq> 0 \<and> pg_ok P T' \<and> vw_txs (pg_view P T) (pID p) \<noteq> None \<and>
    (\<exists>q. pg_kept p q \<and> pg_view P T' = (pg_view P T)\<lparr>vw_txs := (vw_txs (pg_view P T))(pID p \<mapsto> q)\<rparr>)"
proof (cases "t_proposals T (pID p)")
  case None
  with assms(6) show ?thesis by (auto split: if_splits option.splits)
next
  case (Some row)
  with assms(6) obtain d where d: "jb doc = Some d" and u: "text_ok (pID p)" "text_ok (pStatus p)"
    and T': "n = 1" "T' = T\<lparr>t_proposals := (t_proposals T)
      (pID p \<mapsto> row\<lparr>rowStatus := pStatus p, rowProposal := d, rowUpdatedAt := micros upd\<rparr>)\<rparr>"
    by (auto split: if_splits option.splits)
  obtain q where q: "unmarshal_proposal (goParse P) d = Inr q" "pg_kept p q"
    using stored_document [OF assms(1,5) d assms(3,4)] u text_ok_utf8 by metis
  let ?row = "row\<lparr>rowStatus := pStatus p, rowProposal := d, rowUpdatedAt := micros upd\<rparr>"
  have "decode_row P ?row = Some q" using q(1) by (simp add: decode_row_def)
  note put = put_row [OF assms(2) this q(2) refl]
  have "vw_txs (pg_view P T) (pID p) \<noteq> None" using assms(2) Some by (fastforce simp: pg_ok_def)
  with put q(2) T' show ?thesis by auto
qed

lemma run_update_approvals:
  assumes "jsonb_law jb" and "pg_ok P T" and "wf_proposal p" and "fits utf8_ok p"
    and "vw_txs (pg_view P T) (pID p) = Some p0" and "pStatus p = pStatus p0" and "utf8_ok (pStatus p)"
    and "marshal_proposal p = Inr doc" and "run jb (UpdateApprovals (pID p) doc upd) T = Inr (n, T')"
  shows "pg_ok P T' \<and> (\<exists>q. pg_kept p q \<and> pg_view P T' = (pg_view P T)\<lparr>vw_txs := (vw_txs (pg_view P T))(pID p \<mapsto> q)\<rparr>)"
proof -
  obtain row where row: "t_proposals T (pID p) = Some row" "rowStatus row = pStatus p"
    using pg_okD(4) [OF assms(2,5)] assms(6) by auto
  with assms(9) obtain d where d: "jb doc = Some d" and u: "text_ok (pID p)"
    and T': "T' = T\<lparr>t_proposals := (t_proposals T)(pID p \<mapsto> row\<lparr>rowProposal := d, rowUpdatedAt := micros upd\<rparr>)\<rparr>"
    by (auto split: if_splits option.splits)
  obtain q where q: "unmarshal_proposal (goParse P) d = Inr q" "pg_kept p q"
    using stored_document [OF assms(1,8) d assms(3,4) text_ok_utf8 [OF u] assms(7)] by blast
  have "decode_row P (row\<lparr>rowProposal := d, rowUpdatedAt := micros upd\<rparr>) = Some q" using q(1) by (simp add: decode_row_def)
  from put_row [OF assms(2) this q(2) refl] row q(2) T' show ?thesis by auto
qed

lemma run_insert_wallet:
  assumes "pg_ok P T" and "run jb (insert_wallet w) T = Inr (n, T')"
  obtains x where "pg_ok P T'" and "t_wallets T (wID w) = None" and "kept_wallet w x"
    and "pg_view P T' = (pg_view P T)\<lparr>vw_wallets := (t_wallets T)(wID w \<mapsto> x)\<rparr>"
proof -
  let ?x = "\<lparr>wID = wID w, wChain = wChain w, wAddress = wAddress w, wPublicKey = wPublicKey w, wCreatedAt = micros (wCreatedAt w)\<rparr>"
  from assms(2) have "t_wallets T (wID w) = None" "text_ok (wID w)" "text_ok (wChain w)"
    and T': "T' = T\<lparr>t_wallets := (t_wallets T)(wID w \<mapsto> ?x)\<rparr>"
    by (auto simp: insert_wallet_def split: if_splits)
  note new = this
  have "pg_ok P T'" using assms(1) new by (simp add: pg_ok_def text_ok_def) metis
  moreover have "kept_wallet w ?x" by (simp add: kept_wallet_def)
  moreover have "pg_view P T' = (pg_view P T)\<lparr>vw_wallets := (t_wallets T)(wID w \<mapsto> ?x)\<rparr>"
    by (simp add: pg_view_def T')
  ultimately show ?thesis using that new(1) by blast
qed

lemma run_insert_idempotency:
  assumes "run jb (insert_idempotency record) T = Inr (n, T')"
  obtains rec where "t_idem T (iScope record, iKey record) = None" and "kept_record record rec"
    and "T' = T\<lparr>t_idem := (t_idem T)((iScope record, iKey record) \<mapsto> rec)\<rparr>"
proof -
  let ?rec = "\<lparr>iScope = iScope record, iKey = iKey record, iResourceType = iResourceType record,
    iResourceID = iResourceID record, iCreatedAt = micros (iCreatedAt record)\<rparr>"
  have "kept_record record ?rec" by (simp add: kept_record_def)
  with assms that [of ?rec] show ?thesis by (simp add: insert_idempotency_def split: if_splits)
qed

lemma pg_put_idem [simp]:
  "pg_ok P (T\<lparr>t_idem := m\<rparr>) = pg_ok P T" "pg_view P (T\<lparr>t_idem := m\<rparr>) = (pg_view P T)\<lparr>vw_idem := m\<rparr>"
  by (simp_all add: pg_ok_def pg_view_def)

end
