(* ===== verification/Postgres_Contract.thy ===== *)
theory Postgres_Contract
  imports Postgres_Laws
begin

section \<open>The operations of the PostgreSQL store, run alone\<close>

text \<open>
  \<open>ends tabs m db R\<close>: run alone from \<open>db\<close>, the program \<open>m\<close> ends with a result and committed
  tables that satisfy \<open>R\<close>. One rule per call of the driver says what the call gives; the laws
  of the contract follow operation by operation.
\<close>

definition ends :: "'db pg_tabs \<Rightarrow> ('db, 'a) prog \<Rightarrow> 'db \<Rightarrow> ('a \<Rightarrow> tables \<Rightarrow> bool) \<Rightarrow> bool" where
  "ends tabs m db R \<longleftrightarrow> (case exec m db of (r, db') \<Rightarrow> R r (tabs db'))"

lemma ends_Return [simp]: "ends tabs (Return x) db R \<longleftrightarrow> R x (tabs db)"
  by (simp add: ends_def)

lemma ends_bind: "(\<And>r db'. exec m db = (r, db') \<Longrightarrow> ends tabs (k r) db' R) \<Longrightarrow> ends tabs (bindP m k) db R"
  by (cases "exec m db") (simp add: ends_def)

lemma ends_try:
  "(\<And>e db'. exec m db = (Inl e, db') \<Longrightarrow> R (Inl e) (tabs db')) \<Longrightarrow>
   (\<And>x db'. exec m db = (Inr x, db') \<Longrightarrow> ends tabs (k x) db' R) \<Longrightarrow> ends tabs (tryP m k) db R"
  by (cases "exec m db"; cases "fst (exec m db)") (simp_all add: ends_def)

lemma ends_exec: "ends tabs m db R \<Longrightarrow> exec m db = (r, db') \<Longrightarrow> R r (tabs db')"
  by (simp add: ends_def)

subsection \<open>Calls of the driver\<close>

lemma begin_facts:
  assumes "pg_serves jb tabs pend P" and "pgBegin P c db = (r, db')"
  shows "tabs db' = tabs db" and "r = Inr tx \<Longrightarrow> seen jb tabs pend (Some tx) db' = Some (tabs db)"
  using assms unfolding pg_serves_def transaction_law_def seen_def by fastforce+

lemma exec_pool:
  assumes "pg_serves jb tabs pend P" and "pgExec P c None st db = (r, db')"
  shows "case r of Inl e \<Rightarrow> tabs db' = tabs db | Inr n \<Rightarrow> run jb st (tabs db) = Inr (n, tabs db')"
  using assms unfolding pg_serves_def exec_law_def
  by (fastforce simp: seen_def split: sum.splits)

lemma exec_tx:
  assumes "pg_serves jb tabs pend P" and "pgExec P c (Some tx) st db = (r, db')"
    and "seen jb tabs pend (Some tx) db = Some T"
  shows "tabs db' = tabs db"
    and "r = Inl e \<Longrightarrow> isUniqueViolation P e \<Longrightarrow> run jb st T = Inl ''23505''"
    and "r = Inr n \<Longrightarrow> \<exists>T'. run jb st T = Inr (n, T') \<and> seen jb tabs pend (Some tx) db' = Some T'"
proof -
  obtain sts where sts: "pend db tx = Some sts" "runs jb sts (tabs db) = Some T"
    using assms(3) by (auto simp: seen_def split: option.splits)
  have law: "case r of
      Inl e \<Rightarrow> tabs db' = tabs db \<and> (pgCode P e = Some ''23505'' \<longrightarrow> run jb st T = Inl ''23505'')
    | Inr n \<Rightarrow> \<exists>T'. run jb st T = Inr (n, T') \<and> tabs db' = tabs db \<and> pend db' tx = Some (sts @ [st])"
    using assms(1) [unfolded pg_serves_def exec_law_def] assms(2,3) sts(1) by (fastforce split: sum.splits)
  then show "tabs db' = tabs db" by (auto split: sum.splits)
  show "run jb st T = Inl ''23505''" if "r = Inl e" "isUniqueViolation P e"
    using law that by (simp add: isUniqueViolation_def)
  show "\<exists>T'. run jb st T = Inr (n, T') \<and> seen jb tabs pend (Some tx) db' = Some T'" if "r = Inr n"
    using law that sts by (auto simp: seen_def runs_snoc)
qed

lemma commit_facts:
  assumes "pg_serves jb tabs pend P" and "pgCommit P c tx db = (r, db')" and "seen jb tabs pend (Some tx) db = Some T"
  shows "tabs db' = (case r of Inl _ \<Rightarrow> tabs db | Inr _ \<Rightarrow> T)"
  using assms unfolding pg_serves_def transaction_law_def by blast

lemma rollback_facts:
  assumes "pg_serves jb tabs pend P" and "pgRollback P c tx db = (r, db')"
  shows "tabs db' = tabs db"
  using assms unfolding pg_serves_def transaction_law_def by blast

lemma query_facts:
  assumes "query_law noRows (seen jb tabs pend) tabs pend query select" and "query c k q db = (r, db')"
    and "seen jb tabs pend k db = Some T"
  shows "tabs db' = tabs db" and "seen jb tabs pend k db' = Some T"
    and "r = Inr row \<Longrightarrow> select T q = Some row"
    and "r = Inl e \<Longrightarrow> errors_Is e noRows \<Longrightarrow> select T q = None"
proof -
  have law: "tabs db' = tabs db \<and> pend db' = pend db \<and>
      (case r of Inl e \<Rightarrow> errors_Is e noRows \<longrightarrow> select T q = None | Inr row \<Rightarrow> select T q = Some row)"
    using assms unfolding query_law_def by blast
  then show "tabs db' = tabs db" by blast
  show "seen jb tabs pend k db' = Some T" using law assms(3) by (cases k) (auto simp: seen_def split: option.splits)
  show "r = Inr row \<Longrightarrow> select T q = Some row" "r = Inl e \<Longrightarrow> errors_Is e noRows \<Longrightarrow> select T q = None"
    using law by auto
qed

lemma pg_servesD:
  assumes "pg_serves jb tabs pend P"
  shows "query_law (pgNoRows P) (seen jb tabs pend) tabs pend (pgWallet P) t_wallets"
    and "query_law (pgNoRows P) (seen jb tabs pend) tabs pend (pgProposal P)
       (\<lambda>T (i, lock). map_option rowProposal (t_proposals T i))"
    and "query_law (pgNoRows P) (seen jb tabs pend) tabs pend (pgIdempotency P) t_idem"
    and "list_law tabs P" and "connect_law tabs P"
  using assms by (simp_all add: pg_serves_def)

subsection \<open>Reading\<close>

text \<open>\<open>k\<close> is the pool or an open transaction.\<close>

lemma read_wallet:
  assumes S: "pg_serves jb tabs pend P" and T: "seen jb tabs pend k db = Some T"
    and eq: "pgWallet P c k i db = (r, db')"
  shows "tabs db' = tabs db" and "seen jb tabs pend k db' = Some T"
    and "orNotFound P ErrWalletNotFound r = Inr w \<Longrightarrow> t_wallets T i = Some w"
  using query_facts [OF pg_servesD(1) [OF S] eq T] by (auto simp: orNotFound_def split: sum.splits)

lemma read_idempotency:
  assumes S: "pg_serves jb tabs pend P" and T: "seen jb tabs pend k db = Some T"
    and eq: "pgIdempotency P c k (sc, key) db = (r, db')"
  shows "tabs db' = tabs db" and "seen jb tabs pend k db' = Some T"
    and "found_record P r = Inr x \<Longrightarrow> x = t_idem T (sc, key)"
  using query_facts [OF pg_servesD(3) [OF S] eq T] by (auto simp: found_record_def split: sum.splits if_splits)

lemma read_proposal:
  assumes S: "pg_serves jb tabs pend P" and T: "seen jb tabs pend k db = Some T"
    and eq: "pgProposal P c k (i, lock) db = (r, db')"
  shows "tabs db' = tabs db" and "seen jb tabs pend k db' = Some T"
    and "read_payload P r = Inr p \<Longrightarrow> vw_txs (pg_view P T) i = Some p"
proof -
  note Q = query_facts [OF pg_servesD(2) [OF S] eq T]
  show "tabs db' = tabs db" "seen jb tabs pend k db' = Some T" by (rule Q)+
  show "vw_txs (pg_view P T) i = Some p" if "read_payload P r = Inr p"
  proof -
    from that obtain doc where doc: "r = Inr doc" "unmarshal_proposal (goParse P) doc = Inr p"
      by (auto simp: read_payload_def orNotFound_def split: sum.splits)
    with Q(3) obtain row where "t_proposals T i = Some row" "rowProposal row = doc" by auto
    with doc(2) show ?thesis by (simp add: decode_row_def)
  qed
qed

lemma ends_defer:
  assumes "pg_serves jb tabs pend P" and "ends tabs m db R"
  shows "ends tabs (deferRollback P c tx m) db R"
proof -
  obtain r db1 where m: "exec m db = (r, db1)" by (cases "exec m db")
  obtain x db2 where rb: "pgRollback P c tx db1 = (x, db2)" by (cases "pgRollback P c tx db1")
  show ?thesis
    using assms(2) rollback_facts [OF assms(1) rb] by (simp add: ends_def deferRollback_def m rb)
qed

lemma ends_begin:
  assumes S: "pg_serves jb tabs pend P" and "\<And>e. R (Inl e) (tabs db)"
    and "\<And>tx db'. tabs db' = tabs db \<Longrightarrow> seen jb tabs pend (Some tx) db' = Some (tabs db) \<Longrightarrow> ends tabs (m tx) db' R"
  shows "ends tabs (tryP (actP (pgBegin P c)) (\<lambda>tx. deferRollback P c tx (m tx))) db R"
  by (rule ends_try) (use assms(2,3) begin_facts [OF S] in \<open>auto intro!: ends_defer [OF S]\<close>)

lemma ends_commit:
  assumes "pg_serves jb tabs pend P" and "seen jb tabs pend (Some tx) db = Some T"
    and "\<And>e. R (Inl e) (tabs db)" and "R (Inr x) T"
  shows "ends tabs (tryP (actP (pgCommit P c tx)) (\<lambda>_. Return (Inr x))) db R"
  by (rule ends_try) (use assms(3,4) commit_facts [OF assms(1) _ assms(2)] in auto)

lemma ends_readTx:
  assumes S: "pg_serves jb tabs pend P" and T: "seen jb tabs pend (Some tx) db = Some T"
    and "\<And>e. R (Inl e) (tabs db)"
    and "\<And>p db'. tabs db' = tabs db \<Longrightarrow> seen jb tabs pend (Some tx) db' = Some T \<Longrightarrow>
      vw_txs (pg_view P T) i = Some p \<Longrightarrow> ends tabs (k p) db' R"
  shows "ends tabs (tryP (getTransactionTx P c tx i lock) k) db R"
  by (rule ends_try)
    (use assms(3,4) read_proposal [OF S T] in \<open>auto simp: getTransactionTx_def split: prod.splits\<close>)

lemma ends_execTx:
  assumes "pg_serves jb tabs pend P" and "seen jb tabs pend (Some tx) db = Some T"
    and "\<And>e. R (Inl e) (tabs db)"
    and "\<And>n T' db'. run jb st T = Inr (n, T') \<Longrightarrow> tabs db' = tabs db \<Longrightarrow>
      seen jb tabs pend (Some tx) db' = Some T' \<Longrightarrow> ends tabs (k n) db' R"
  shows "ends tabs (tryP (actP (pgExec P c (Some tx) st)) k) db R"
proof (rule ends_try)
  fix e db'
  assume "exec (actP (pgExec P c (Some tx) st)) db = (Inl e, db')"
  then show "R (Inl e) (tabs db')" using exec_tx(1) [OF assms(1) _ assms(2)] assms(3) by simp
next
  fix n db'
  assume "exec (actP (pgExec P c (Some tx) st)) db = (Inr n, db')"
  then have eq: "pgExec P c (Some tx) st db = (Inr n, db')" by simp
  show "ends tabs (k n) db' R"
    using exec_tx(1) [OF assms(1) eq assms(2)] exec_tx(3) [OF assms(1) eq assms(2) refl] assms(4) by blast
qed

lemma ends_write_commit:
  assumes "pg_serves jb tabs pend P" and "seen jb tabs pend (Some tx) db = Some T"
    and "\<And>e. R (Inl e) (tabs db)" and "\<And>n T'. run jb st T = Inr (n, T') \<Longrightarrow> R (Inr x) T'"
  shows "ends tabs (tryP (actP (pgExec P c (Some tx) st)) (\<lambda>_. tryP (actP (pgCommit P c tx)) (\<lambda>_. Return (Inr x)))) db R"
proof (rule ends_execTx [OF assms(1,2)])
  fix n T' db'
  assume "run jb st T = Inr (n, T')" and "tabs db' = tabs db" and s: "seen jb tabs pend (Some tx) db' = Some T'"
  with assms(3,4) show "ends tabs (tryP (actP (pgCommit P c tx)) (\<lambda>_. Return (Inr x))) db' R"
    by (intro ends_commit [OF assms(1) s]) auto
qed (rule assms(3))

subsection \<open>The laws\<close>

lemma approvals_case: "(case pApprovals p of None \<Rightarrow> [] | Some m \<Rightarrow> m) = approvals p"
  by (simp add: approvals_def)

lemma utf8_proposed: "utf8_ok TransactionStatusProposed"
  by (simp add: TransactionStatusProposed_def utf8_ok_ascii)

lemma pg_CreateWallet_law:
  assumes "pg_serves jb tabs pend P" and "pg_ok P (tabs db)"
  shows "ends tabs (pg_CreateWallet P c w) db
     (\<lambda>r T. pg_ok P T \<and> create_wallet_spec w (pg_view P (tabs db)) r (pg_view P T))"
  unfolding pg_CreateWallet_def
proof (rule ends_bind)
  fix r db'
  assume "exec (actP (pgExec P c None (insert_wallet w))) db = (r, db')"
  then have x: "case r of Inl e \<Rightarrow> tabs db' = tabs db | Inr n \<Rightarrow> run jb (insert_wallet w) (tabs db) = Inr (n, tabs db')"
    using exec_pool [OF assms(1)] by simp
  show "ends tabs (Return (case r of Inl err \<Rightarrow> Inl (if isUniqueViolation P err then ErrDuplicateWallet else err)
      | Inr _ \<Rightarrow> Inr ())) db' (\<lambda>r T. pg_ok P T \<and> create_wallet_spec w (pg_view P (tabs db)) r (pg_view P T))"
  proof (cases r)
    case (Inr n)
    with x have run: "run jb (insert_wallet w) (tabs db) = Inr (n, tabs db')" by simp
    obtain y where "pg_ok P (tabs db')" "t_wallets (tabs db) (wID w) = None" "kept_wallet w y"
      "pg_view P (tabs db') = (pg_view P (tabs db))\<lparr>vw_wallets := (t_wallets (tabs db))(wID w \<mapsto> y)\<rparr>"
      by (rule run_insert_wallet [OF assms(2) run])
    with Inr show ?thesis by (auto simp: create_wallet_spec_def)
  qed (use x assms(2) in \<open>simp add: create_wallet_spec_def\<close>)
qed

lemma pg_GetWallet_law:
  assumes "pg_serves jb tabs pend P" and "pg_ok P (tabs db)"
  shows "ends tabs (pg_GetWallet P c i) db
     (\<lambda>r T. pg_ok P T \<and> get_wallet_spec i (pg_view P (tabs db)) r (pg_view P T))"
  unfolding pg_GetWallet_def
proof (rule ends_bind)
  fix r db'
  assume "exec (actP (pgWallet P c None i)) db = (r, db')"
  then have eq: "pgWallet P c None i db = (r, db')" by simp
  note F = read_wallet [OF assms(1) _ eq, of "tabs db"]
  show "ends tabs (Return (orNotFound P ErrWalletNotFound r)) db'
      (\<lambda>r T. pg_ok P T \<and> get_wallet_spec i (pg_view P (tabs db)) r (pg_view P T))"
    using F assms(2) by (cases "orNotFound P ErrWalletNotFound r") (auto simp: seen_def get_wallet_spec_def)
qed

lemma pg_GetTransaction_law:
  assumes "pg_serves jb tabs pend P" and "pg_ok P (tabs db)"
  shows "ends tabs (pg_GetTransaction P c i) db
     (\<lambda>r T. pg_ok P T \<and> get_tx_spec i (pg_view P (tabs db)) r (pg_view P T))"
  unfolding pg_GetTransaction_def
proof (rule ends_bind)
  fix r db'
  assume "exec (actP (pgProposal P c None (i, False))) db = (r, db')"
  then have eq: "pgProposal P c None (i, False) db = (r, db')" by simp
  note F = read_proposal [OF assms(1) _ eq, of "tabs db"]
  show "ends tabs (Return (read_payload P r)) db' (\<lambda>r T. pg_ok P T \<and> get_tx_spec i (pg_view P (tabs db)) r (pg_view P T))"
    using F assms(2) by (cases "read_payload P r") (auto simp: seen_def get_tx_spec_def)
qed

lemma pg_CreateTransaction_law:
  assumes S: "pg_serves jb tabs pend P" and J: "jsonb_law jb" and ok: "pg_ok P (tabs db)"
    and p: "wf_proposal p" "fits utf8_ok p"
  shows "ends tabs (pg_CreateTransaction P c p) db
     (\<lambda>r T. pg_ok P T \<and> create_tx_spec pg_kept p (pg_view P (tabs db)) r (pg_view P T))"
proof (cases "marshal_proposal p")
  case (Inr doc)
  show ?thesis
    unfolding pg_CreateTransaction_def Inr sum.case
  proof (rule ends_bind)
    fix r db'
    assume "exec (actP (pgExec P c None (insert_proposal p doc))) db = (r, db')"
    then have x: "case r of Inl e \<Rightarrow> tabs db' = tabs db | Inr n \<Rightarrow> run jb (insert_proposal p doc) (tabs db) = Inr (n, tabs db')"
      using exec_pool [OF S] by simp
    show "ends tabs (Return (case r of Inl err \<Rightarrow> Inl (if isUniqueViolation P err then ErrDuplicateTransaction else err)
        | Inr _ \<Rightarrow> Inr ())) db' (\<lambda>r T. pg_ok P T \<and> create_tx_spec pg_kept p (pg_view P (tabs db)) r (pg_view P T))"
    proof (cases r)
      case (Inr n)
      with x have run: "run jb (insert_proposal p doc) (tabs db) = Inr (n, tabs db')" by simp
      obtain q where "pg_ok P (tabs db')" "vw_txs (pg_view P (tabs db)) (pID p) = None" "pg_kept p q"
        "pg_view P (tabs db') = (pg_view P (tabs db))\<lparr>vw_txs := (vw_txs (pg_view P (tabs db)))(pID p \<mapsto> q)\<rparr>"
        by (rule run_insert_proposal [OF J ok p \<open>marshal_proposal p = Inr doc\<close> run])
      with Inr show ?thesis by (auto simp: create_tx_spec_def simp del: pg_view_simps)
    qed (use x ok in \<open>simp add: create_tx_spec_def\<close>)
  qed
qed (simp add: pg_CreateTransaction_def ok create_tx_spec_def)

lemma pg_UpdateTransaction_law:
  assumes S: "pg_serves jb tabs pend P" and J: "jsonb_law jb" and ok: "pg_ok P (tabs db)"
    and p: "wf_proposal p" "fits utf8_ok p"
  shows "ends tabs (pg_UpdateTransaction P c p) db
     (\<lambda>r T. pg_ok P T \<and> update_tx_spec pg_kept p (pg_view P (tabs db)) r (pg_view P T))"
proof (cases "marshal_proposal p")
  case (Inr doc)
  show ?thesis
    unfolding pg_UpdateTransaction_def Inr sum.case
  proof (rule ends_try)
    fix n db'
    assume "exec (actP (pgExec P c None (UpdateProposal (pID p) (pStatus p) doc (pUpdatedAt p)))) db = (Inr n, db')"
    then have "run jb (UpdateProposal (pID p) (pStatus p) doc (pUpdatedAt p)) (tabs db) = Inr (n, tabs db')"
      using exec_pool [OF S] by fastforce
    from run_update_proposal [OF J ok p Inr this] ok
    show "ends tabs (Return (if n = 0 then Inl ErrTransactionNotFound else Inr ())) db'
      (\<lambda>r T. pg_ok P T \<and> update_tx_spec pg_kept p (pg_view P (tabs db)) r (pg_view P T))"
      by (auto simp: update_tx_spec_def simp del: pg_view_simps)
  qed (use exec_pool [OF S] ok in \<open>fastforce simp: update_tx_spec_def\<close>)
qed (simp add: pg_UpdateTransaction_def ok update_tx_spec_def)

lemma pg_AppendAuditEvent_law:
  assumes "pg_serves jb tabs pend P" and "pg_ok P (tabs db)"
  shows "ends tabs (pg_AppendAuditEvent P c e) db
     (\<lambda>r T. pg_ok P T \<and> append_audit_spec e (pg_view P (tabs db)) r (pg_view P T))"
proof -
  define meta where "meta = (if length (vMetadata e) > 0 then Some (vMetadata e) else None)"
  define st where "st = InsertAudit (vID e) (vType e) (vActor e) (vResourceType e) (vResourceID e) (vChain e) meta (vCreatedAt e)"
  have def: "pg_AppendAuditEvent P c e = tryP (actP (pgExec P c None st)) (\<lambda>_. Return (Inr ()))"
    by (simp add: pg_AppendAuditEvent_def st_def meta_def)
  show ?thesis
    unfolding def
  proof (rule ends_try)
    fix n db'
    assume "exec (actP (pgExec P c None st)) db = (Inr n, db')"
    then have "run jb st (tabs db) = Inr (n, tabs db')" using exec_pool [OF assms(1)] by fastforce
    then obtain d where T: "(tabs db)\<lparr>t_audit := t_audit (tabs db) @ [\<lparr>vID = vID e, vType = vType e, vActor = vActor e, vResourceType = vResourceType e,
        vResourceID = vResourceID e, vChain = vChain e, vMetadata = d, vCreatedAt = micros (vCreatedAt e)\<rparr>]\<rparr> = tabs db'"
      by (auto simp: st_def split: if_splits option.splits)
    have "kept_event e \<lparr>vID = vID e, vType = vType e, vActor = vActor e, vResourceType = vResourceType e,
        vResourceID = vResourceID e, vChain = vChain e, vMetadata = d, vCreatedAt = micros (vCreatedAt e)\<rparr>" by (simp add: kept_event_def)
    with assms(2) T [symmetric] show "ends tabs (Return (Inr ())) db' (\<lambda>r T. pg_ok P T \<and> append_audit_spec e (pg_view P (tabs db)) r (pg_view P T))"
      by (auto simp: append_audit_spec_def pg_ok_def pg_view_def)
  qed (use exec_pool [OF assms(1)] assms(2) in \<open>fastforce simp: append_audit_spec_def\<close>)
qed

lemma pg_ListAuditEvents_law:
  assumes "pg_serves jb tabs pend P"
  shows "ends tabs (pg_ListAuditEvents P c f) db (\<lambda>r T. T = tabs db)"
proof -
  have "pgListAudit P c rid limit db = (r, db') \<Longrightarrow> tabs db' = tabs db" for rid limit r db'
    using pg_servesD(4) [OF assms] unfolding list_law_def by blast
  then show ?thesis
    unfolding pg_ListAuditEvents_def Let_def by (auto intro!: ends_try)
qed

subsection \<open>The operations that run in a database transaction\<close>

lemma ends_store_document:
  assumes "pg_serves jb tabs pend P" and "seen jb tabs pend (Some tx) db = Some T" and "\<And>e. R (Inl e) (tabs db)"
    and "\<And>doc n T'. marshal_proposal q = Inr doc \<Longrightarrow> run jb (st doc) T = Inr (n, T') \<Longrightarrow> R (Inr x) T'"
  shows "ends tabs (case marshal_proposal q of Inl err \<Rightarrow> Return (Inl err)
     | Inr payload \<Rightarrow> tryP (actP (pgExec P c (Some tx) (st payload)))
         (\<lambda>_. tryP (actP (pgCommit P c tx)) (\<lambda>_. Return (Inr x)))) db R"
proof (cases "marshal_proposal q")
  case (Inl e)
  then show ?thesis using assms(3) by simp
next
  case (Inr doc)
  show ?thesis
    unfolding Inr sum.case by (rule ends_write_commit [OF assms(1,2)]) (use assms(3,4) Inr in auto)
qed

lemma pg_AddApproval_law:
  assumes S: "pg_serves jb tabs pend P" and J: "jsonb_law jb" and ok: "pg_ok P (tabs db)" and a: "utf8_ok (SignerID a)"
  shows "ends tabs (pg_AddApproval P c i a) db
     (\<lambda>r T. pg_ok P T \<and> add_approval_spec pg_kept i a (pg_view P (tabs db)) r (pg_view P T))"
    (is "ends tabs _ db ?R")
  unfolding pg_AddApproval_def
proof (rule ends_begin [OF S])
  have err: "?R (Inl e) (tabs db)" for e by (simp add: ok add_approval_spec_def)
  fix tx db1
  assume t1: "tabs db1 = tabs db" and s1: "seen jb tabs pend (Some tx) db1 = Some (tabs db)"
  let ?rest = "\<lambda>proposal. if pStatus proposal \<noteq> TransactionStatusProposed then Return (Inl ErrTransactionNotProposed)
      else let m = case pApprovals proposal of None \<Rightarrow> [] | Some m \<Rightarrow> m
        in if map_of m (SignerID a) \<noteq> None then Return (Inl ErrDuplicateApproval)
           else let proposal = proposal\<lparr>pApprovals := Some (gput (SignerID a) a m), pUpdatedAt := aCreatedAt a\<rparr>
             in case marshal_proposal proposal of Inl err \<Rightarrow> Return (Inl err)
                | Inr payload \<Rightarrow> tryP (actP (pgExec P c (Some tx) (UpdateApprovals (pID proposal) payload (pUpdatedAt proposal))))
                    (\<lambda>_. tryP (actP (pgCommit P c tx)) (\<lambda>_. Return (Inr proposal)))"
  show "ends tabs (tryP (getTransactionTx P c tx i True) ?rest) db1 ?R"
  proof (rule ends_readTx [OF S s1])
    fix p db2
    assume t2: "tabs db2 = tabs db1" and s2: "seen jb tabs pend (Some tx) db2 = Some (tabs db)"
      and p: "vw_txs (pg_view P (tabs db)) i = Some p"
    have err2: "?R (Inl e) (tabs db2)" for e using err t1 t2 by simp
    note stored = pg_okD [OF ok p]
    let ?q = "approve a p"
    show "ends tabs (?rest p) db2 ?R"
    proof (cases "pStatus p = TransactionStatusProposed \<and> SignerID a \<notin> set (gkeys (approvals p))")
      case False
      then show ?thesis using err2 by (auto simp: approvals_case Let_def map_of_eq_None_iff)
    next
      case True
      have ap: "p\<lparr>pApprovals := Some (gput (SignerID a) a (approvals p)), pUpdatedAt := aCreatedAt a\<rparr> = ?q"
        by (simp add: approve_def)
      have new: "map_of (approvals p) (SignerID a) = None" using True by (simp add: map_of_eq_None_iff)
      have id: "pID ?q = i" using stored(3) by simp
      have "ends tabs (case marshal_proposal ?q of Inl err \<Rightarrow> Return (Inl err)
         | Inr payload \<Rightarrow> tryP (actP (pgExec P c (Some tx) (UpdateApprovals (pID ?q) payload (pUpdatedAt ?q))))
            (\<lambda>_. tryP (actP (pgCommit P c tx)) (\<lambda>_. Return (Inr ?q)))) db2 ?R"
      proof (rule ends_store_document [OF S s2])
        fix doc n T'
        assume doc: "marshal_proposal ?q = Inr doc"
          and run: "run jb (UpdateApprovals (pID ?q) doc (pUpdatedAt ?q)) (tabs db) = Inr (n, T')"
        have p': "vw_txs (pg_view P (tabs db)) (pID ?q) = Some p" using p id by simp
        have u: "utf8_ok (pStatus ?q)" using True utf8_proposed by simp
        note U = run_update_approvals [OF J ok wf_approve [OF stored(1)] fits_approve [OF stored(2) a] p' _ u doc run]
        show "?R (Inr ?q) T'"
          using U True p id unfolding add_approval_spec_def sum.case by (auto simp del: pg_view_simps)
      qed (rule err2)
      then show ?thesis using True new by (simp add: approvals_case ap Let_def)
    qed
  qed (use err t1 in simp)
qed (simp add: ok add_approval_spec_def)

lemma pg_MarkTransactionSigned_law:
  assumes S: "pg_serves jb tabs pend P" and J: "jsonb_law jb" and ok: "pg_ok P (tabs db)"
  shows "ends tabs (pg_MarkTransactionSigned P c i x) db
     (\<lambda>r T. pg_ok P T \<and> mark_signed_spec pg_kept i x (pg_view P (tabs db)) r (pg_view P T))"
    (is "ends tabs _ db ?R")
  unfolding pg_MarkTransactionSigned_def
proof (rule ends_begin [OF S])
  have err: "?R (Inl e) (tabs db)" for e by (simp add: ok mark_signed_spec_def)
  fix tx db1
  assume t1: "tabs db1 = tabs db" and s1: "seen jb tabs pend (Some tx) db1 = Some (tabs db)"
  let ?rest = "\<lambda>proposal. if pStatus proposal \<noteq> TransactionStatusProposed
      then tryP (actP (pgCommit P c tx)) (\<lambda>_. Return (Inr (proposal, False)))
      else bindP (actP (\<lambda>db. (goNow P db, db))) (\<lambda>now.
        let proposal = proposal\<lparr>pStatus := TransactionStatusSigned, pSignedTransaction := x, pUpdatedAt := now\<rparr>
        in case marshal_proposal proposal of Inl err \<Rightarrow> Return (Inl err)
           | Inr payload \<Rightarrow> tryP (actP (pgExec P c (Some tx) (UpdateProposal (pID proposal) (pStatus proposal) payload (pUpdatedAt proposal))))
               (\<lambda>_. tryP (actP (pgCommit P c tx)) (\<lambda>_. Return (Inr (proposal, True)))))"
  show "ends tabs (tryP (getTransactionTx P c tx i True) ?rest) db1 ?R"
  proof (rule ends_readTx [OF S s1])
    fix p db2
    assume t2: "tabs db2 = tabs db1" and s2: "seen jb tabs pend (Some tx) db2 = Some (tabs db)"
      and p: "vw_txs (pg_view P (tabs db)) i = Some p"
    have err2: "?R (Inl e) (tabs db2)" for e using err t1 t2 by simp
    note stored = pg_okD [OF ok p]
    show "ends tabs (?rest p) db2 ?R"
    proof (cases "pStatus p = TransactionStatusProposed")
      case False
      have "?R (Inr (p, False)) (tabs db)" using False p ok by (simp add: mark_signed_spec_def del: pg_view_simps)
      then have "ends tabs (tryP (actP (pgCommit P c tx)) (\<lambda>_. Return (Inr (p, False)))) db2 ?R"
        using err2 by (intro ends_commit [OF S s2])
      with False show ?thesis by simp
    next
      case True
      show ?thesis
        unfolding if_not_P [OF not_not [THEN iffD2, OF True]]
      proof (rule ends_bind)
        fix now db3
        assume "exec (actP (\<lambda>db. (goNow P db, db))) db2 = (now, db3)"
        then have db3: "db3 = db2" by simp
        let ?q = "sign_as x now p"
        have "ends tabs (case marshal_proposal ?q of Inl err \<Rightarrow> Return (Inl err)
           | Inr payload \<Rightarrow> tryP (actP (pgExec P c (Some tx) (UpdateProposal (pID ?q) (pStatus ?q) payload (pUpdatedAt ?q))))
               (\<lambda>_. tryP (actP (pgCommit P c tx)) (\<lambda>_. Return (Inr (?q, True))))) db2 ?R"
        proof (rule ends_store_document [OF S s2])
          fix doc n T'
          assume doc: "marshal_proposal ?q = Inr doc"
            and run: "run jb (UpdateProposal (pID ?q) (pStatus ?q) doc (pUpdatedAt ?q)) (tabs db) = Inr (n, T')"
          have wf: "wf_proposal ?q" "fits utf8_ok ?q" and id: "pID ?q = i" using stored by simp_all
          show "?R (Inr (?q, True)) T'"
            using run_update_proposal [OF J ok wf doc run] True p unfolding id mark_signed_spec_def sum.case
            by (auto simp del: pg_view_simps)
        qed (rule err2)
        then show "ends tabs (let proposal = p\<lparr>pStatus := TransactionStatusSigned, pSignedTransaction := x, pUpdatedAt := now\<rparr>
          in case marshal_proposal proposal of Inl err \<Rightarrow> Return (Inl err)
           | Inr payload \<Rightarrow> tryP (actP (pgExec P c (Some tx) (UpdateProposal (pID proposal) (pStatus proposal) payload (pUpdatedAt proposal))))
               (\<lambda>_. tryP (actP (pgCommit P c tx)) (\<lambda>_. Return (Inr (proposal, True))))) db3 ?R"
          by (simp only: Let_def db3 sign_as_def)
      qed
    qed
  qed (use err t1 in simp)
qed (simp add: ok mark_signed_spec_def)

text \<open>
  Creating a resource together with its idempotency record. Run alone, the record cannot turn
  out to be there once the lookup has not found it, so the branch for a lost race (\<open>race\<close>) is
  not taken.
\<close>

lemma ends_create_with_record:
  assumes S: "pg_serves jb tabs pend P" and s: "seen jb tabs pend (Some tx) db = Some T"
    and none: "t_idem T (iScope record, iKey record) = None" and err: "\<And>e. R (Inl e) (tabs db)"
    and stable: "\<And>n T1. run jb st T = Inr (n, T1) \<Longrightarrow> t_idem T1 = t_idem T"
    and fin: "\<And>n T1 m T2. run jb st T = Inr (n, T1) \<Longrightarrow> run jb (insert_idempotency record) T1 = Inr (m, T2) \<Longrightarrow> R (Inr x) T2"
  shows "ends tabs (bindP (actP (pgExec P c (Some tx) st)) (\<lambda>r1.
      case r1 of Inl err \<Rightarrow> Return (Inl (if isUniqueViolation P err then dup else err))
      | Inr _ \<Rightarrow> bindP (actP (pgExec P c (Some tx) (insert_idempotency record))) (\<lambda>r2.
          case r2 of Inl err \<Rightarrow> if isUniqueViolation P err then race else Return (Inl err)
          | Inr _ \<Rightarrow> tryP (actP (pgCommit P c tx)) (\<lambda>_. Return (Inr x))))) db R"
proof (rule ends_bind)
  fix r1 db1
  assume "exec (actP (pgExec P c (Some tx) st)) db = (r1, db1)"
  then have e1: "pgExec P c (Some tx) st db = (r1, db1)" by simp
  note t1 = exec_tx(1) [OF S e1 s]
  show "ends tabs (case r1 of Inl err \<Rightarrow> Return (Inl (if isUniqueViolation P err then dup else err))
      | Inr _ \<Rightarrow> bindP (actP (pgExec P c (Some tx) (insert_idempotency record))) (\<lambda>r2.
          case r2 of Inl err \<Rightarrow> if isUniqueViolation P err then race else Return (Inl err)
          | Inr _ \<Rightarrow> tryP (actP (pgCommit P c tx)) (\<lambda>_. Return (Inr x)))) db1 R"
  proof (cases r1)
    case (Inl e)
    then show ?thesis using err t1 by simp
  next
    case (Inr n)
    obtain T1 where run1: "run jb st T = Inr (n, T1)" and s1: "seen jb tabs pend (Some tx) db1 = Some T1"
      using exec_tx(3) [OF S e1 s Inr] by blast
    show ?thesis
      unfolding Inr sum.case
    proof (rule ends_bind)
      fix r2 db2
      assume "exec (actP (pgExec P c (Some tx) (insert_idempotency record))) db1 = (r2, db2)"
      then have e2: "pgExec P c (Some tx) (insert_idempotency record) db1 = (r2, db2)" by simp
      note t2 = exec_tx(1) [OF S e2 s1]
      show "ends tabs (case r2 of Inl err \<Rightarrow> if isUniqueViolation P err then race else Return (Inl err)
          | Inr _ \<Rightarrow> tryP (actP (pgCommit P c tx)) (\<lambda>_. Return (Inr x))) db2 R"
      proof (cases r2)
        case (Inl e)
        have "\<not> isUniqueViolation P e"
          using exec_tx(2) [OF S e2 s1 Inl] none stable [OF run1] by (auto simp: insert_idempotency_def split: if_splits)
        then show ?thesis using err t1 t2 Inl by simp
      next
        case (Inr m)
        obtain T2 where run2: "run jb (insert_idempotency record) T1 = Inr (m, T2)"
          and s2: "seen jb tabs pend (Some tx) db2 = Some T2"
          using exec_tx(3) [OF S e2 s1 Inr] by blast
        show ?thesis
          unfolding Inr sum.case by (rule ends_commit [OF S s2]) (use err t1 t2 fin [OF run1 run2] in simp_all)
      qed
    qed
  qed
qed

lemma ends_record:
  assumes S: "pg_serves jb tabs pend P" and T: "seen jb tabs pend (Some tx) db = Some T"
    and "\<And>e. R (Inl e) (tabs db)"
    and "\<And>db'. tabs db' = tabs db \<Longrightarrow> seen jb tabs pend (Some tx) db' = Some T \<Longrightarrow> ends tabs (k (t_idem T (sc, key))) db' R"
  shows "ends tabs (tryP (getIdempotencyTx P c tx sc key) k) db R"
proof (rule ends_try)
  fix e db'
  assume "exec (getIdempotencyTx P c tx sc key) db = (Inl e, db')"
  then obtain r where eq: "pgIdempotency P c (Some tx) (sc, key) db = (r, db')"
    by (auto simp: getIdempotencyTx_def split: prod.splits)
  show "R (Inl e) (tabs db')" using read_idempotency(1) [OF S T eq] assms(3) by simp
next
  fix x db'
  assume "exec (getIdempotencyTx P c tx sc key) db = (Inr x, db')"
  then obtain r where eq: "pgIdempotency P c (Some tx) (sc, key) db = (r, db')" and "found_record P r = Inr x"
    by (auto simp: getIdempotencyTx_def split: prod.splits)
  with read_idempotency [OF S T eq] assms(4) show "ends tabs (k x) db' R" by simp
qed

lemma pg_CreateWalletIdempotently_law:
  assumes S: "pg_serves jb tabs pend P" and ok: "pg_ok P (tabs db)"
  shows "ends tabs (pg_CreateWalletIdempotently P c w record) db
     (\<lambda>r T. pg_ok P T \<and> create_wallet_idem_spec (iScope record, iKey record) w record (pg_view P (tabs db)) r (pg_view P T))"
    (is "ends tabs _ db ?R")
  unfolding pg_CreateWalletIdempotently_def
proof (rule ends_begin [OF S], goal_cases)
  case (2 tx db1)
  note t1 = 2(1) and s1 = 2(2)
  have err: "?R (Inl e) (tabs db)" for e by (simp add: ok create_wallet_idem_spec_def)
  show ?case
  proof (rule ends_record [OF S s1], goal_cases)
    case (2 db2)
    note t2 = 2(1) and s2 = 2(2)
    show ?case
    proof (cases "t_idem (tabs db) (iScope record, iKey record)")
      case (Some ex)
      show ?thesis
        unfolding Some option.case
      proof (rule ends_try)
        fix y db3
        assume "exec (getWalletTx P c tx (iResourceID ex)) db2 = (Inr y, db3)"
        then obtain r where eq: "pgWallet P c (Some tx) (iResourceID ex) db2 = (r, db3)"
          and "orNotFound P ErrWalletNotFound r = Inr y"
          by (auto simp: getWalletTx_def split: prod.splits)
        with read_wallet [OF S s2 eq] Some t1 t2 ok
        show "ends tabs (Return (Inr (y, False))) db3 ?R" by (simp add: create_wallet_idem_spec_def)
      next
        fix e db3
        assume "exec (getWalletTx P c tx (iResourceID ex)) db2 = (Inl e, db3)"
        then obtain r where eq: "pgWallet P c (Some tx) (iResourceID ex) db2 = (r, db3)"
          by (auto simp: getWalletTx_def split: prod.splits)
        then show "?R (Inl e) (tabs db3)" using read_wallet(1) [OF S s2 eq] err t1 t2 by simp
      qed
    next
      case None
      show ?thesis
        unfolding None option.case
      proof (rule ends_create_with_record [OF S s2 None])
        fix n T1
        assume "run jb (insert_wallet w) (tabs db) = Inr (n, T1)"
        then show "t_idem T1 = t_idem (tabs db)" by (auto simp: insert_wallet_def split: if_splits)
      next
        fix n T1 m T2
        assume run1: "run jb (insert_wallet w) (tabs db) = Inr (n, T1)"
          and run2: "run jb (insert_idempotency record) T1 = Inr (m, T2)"
        obtain x where "pg_ok P T1" "t_wallets (tabs db) (wID w) = None" "kept_wallet w x"
          and V: "pg_view P T1 = (pg_view P (tabs db))\<lparr>vw_wallets := (t_wallets (tabs db))(wID w \<mapsto> x)\<rparr>"
          by (rule run_insert_wallet [OF ok run1])
        moreover obtain rec where "t_idem T1 (iScope record, iKey record) = None" "kept_record record rec"
          "T2 = T1\<lparr>t_idem := (t_idem T1)((iScope record, iKey record) \<mapsto> rec)\<rparr>"
          by (rule run_insert_idempotency [OF run2])
        moreover have "t_idem T1 = t_idem (tabs db)" using run1 by (auto simp: insert_wallet_def split: if_splits)
        ultimately show "?R (Inr (w, True)) T2" using None by (auto simp: create_wallet_idem_spec_def)
      qed (use err t1 t2 in simp)
    qed
  qed (use err t1 in simp)
qed (simp add: ok create_wallet_idem_spec_def)

lemma pg_CreateTransactionIdempotently_law:
  assumes S: "pg_serves jb tabs pend P" and J: "jsonb_law jb" and ok: "pg_ok P (tabs db)"
    and p: "wf_proposal p" "fits utf8_ok p"
  shows "ends tabs (pg_CreateTransactionIdempotently P c p record) db
     (\<lambda>r T. pg_ok P T \<and> create_tx_idem_spec pg_kept (iScope record, iKey record) p record (pg_view P (tabs db)) r (pg_view P T))"
    (is "ends tabs _ db ?R")
  unfolding pg_CreateTransactionIdempotently_def
proof (rule ends_begin [OF S], goal_cases)
  case (2 tx db1)
  note t1 = 2(1) and s1 = 2(2)
  have err: "?R (Inl e) (tabs db)" for e by (simp add: ok create_tx_idem_spec_def)
  show ?case
  proof (rule ends_record [OF S s1], goal_cases)
    case (2 db2)
    note t2 = 2(1) and s2 = 2(2)
    show ?case
    proof (cases "t_idem (tabs db) (iScope record, iKey record)")
      case (Some ex)
      show ?thesis
        unfolding Some option.case
        by (rule ends_readTx [OF S s2])
          (use Some err t1 t2 ok in \<open>simp_all add: create_tx_idem_spec_def del: pg_view_simps(4)\<close>)
    next
      case None
      show ?thesis
      proof (cases "marshal_proposal p")
        case (Inl e)
        then show ?thesis using None err t1 t2 by simp
      next
        case (Inr doc)
        have idem: "t_idem T1 = t_idem (tabs db)" if "run jb (insert_proposal p doc) (tabs db) = Inr (n, T1)" for n T1
          using that by (auto simp: insert_proposal_def split: if_splits option.splits)
        show ?thesis
          unfolding None Inr option.case sum.case
        proof (rule ends_create_with_record [OF S s2 None])
          fix n T1 m T2
          assume run1: "run jb (insert_proposal p doc) (tabs db) = Inr (n, T1)"
            and run2: "run jb (insert_idempotency record) T1 = Inr (m, T2)"
          obtain q where "pg_ok P T1" "vw_txs (pg_view P (tabs db)) (pID p) = None" "pg_kept p q"
            "pg_view P T1 = (pg_view P (tabs db))\<lparr>vw_txs := (vw_txs (pg_view P (tabs db)))(pID p \<mapsto> q)\<rparr>"
            by (rule run_insert_proposal [OF J ok p Inr run1])
          moreover obtain rec where "kept_record record rec" "T2 = T1\<lparr>t_idem := (t_idem T1)((iScope record, iKey record) \<mapsto> rec)\<rparr>"
            by (rule run_insert_idempotency [OF run2])
          ultimately show "?R (Inr (p, True)) T2"
            using None idem [OF run1] by (auto simp: create_tx_idem_spec_def simp del: pg_view_simps(4))
        qed (use idem err t1 t2 in simp_all)
      qed
    qed
  qed (use err t1 in simp)
qed (simp add: ok create_tx_idem_spec_def)

subsection \<open>The contract\<close>

lemma postgres_store_simps [simp]:
  "sCreateWallet (postgres_store P) c w = exec (pg_CreateWallet P c w)"
  "sCreateWalletIdempotently (postgres_store P) c w r = exec (pg_CreateWalletIdempotently P c w r)"
  "sGetWallet (postgres_store P) c i = exec (pg_GetWallet P c i)"
  "sCreateTransaction (postgres_store P) c p = exec (pg_CreateTransaction P c p)"
  "sCreateTransactionIdempotently (postgres_store P) c p r = exec (pg_CreateTransactionIdempotently P c p r)"
  "sGetTransaction (postgres_store P) c i = exec (pg_GetTransaction P c i)"
  "sAddApproval (postgres_store P) c i a = exec (pg_AddApproval P c i a)"
  "sMarkTransactionSigned (postgres_store P) c i x = exec (pg_MarkTransactionSigned P c i x)"
  "sUpdateTransaction (postgres_store P) c p = exec (pg_UpdateTransaction P c p)"
  "sAppendAuditEvent (postgres_store P) c e = exec (pg_AppendAuditEvent P c e)"
  "sListAuditEvents (postgres_store P) c f = exec (pg_ListAuditEvents P c f)"
  by (simp_all add: postgres_store_def)

lemma pg_store_contract:
  assumes S: "pg_serves jb tabs pend P" and J: "jsonb_law jb"
  shows "store_contract (postgres_store P) (\<lambda>db. pg_view P (tabs db)) (\<lambda>db. pg_ok P (tabs db)) Pair utf8_ok pg_norm"
proof (unfold_locales, goal_cases)
  case (1 s i p)
  then show ?case using pg_okD by blast
next
  case (2 s i w)
  then show ?case unfolding pg_ok_def pg_view_simps by blast
next
  case 3
  then show ?case using ends_exec [OF pg_CreateWallet_law [OF S]] by simp
next
  case 4
  then show ?case using ends_exec [OF pg_CreateWalletIdempotently_law [OF S]] by simp
next
  case 5
  then show ?case using ends_exec [OF pg_GetWallet_law [OF S]] by simp
next
  case 6
  then show ?case using ends_exec [OF pg_CreateTransaction_law [OF S J]] by simp
next
  case 7
  then show ?case using ends_exec [OF pg_CreateTransactionIdempotently_law [OF S J]] by simp
next
  case 8
  then show ?case using ends_exec [OF pg_GetTransaction_law [OF S]] by simp
next
  case 9
  then show ?case using ends_exec [OF pg_AddApproval_law [OF S J]] by simp
next
  case 10
  then show ?case using ends_exec [OF pg_MarkTransactionSigned_law [OF S J]] by simp
next
  case 11
  then show ?case using ends_exec [OF pg_UpdateTransaction_law [OF S J]] by simp
next
  case 12
  then show ?case using ends_exec [OF pg_AppendAuditEvent_law [OF S]] by simp
next
  case 13
  then show ?case using ends_exec [OF pg_ListAuditEvents_law [OF S]] by simp
qed

end
