(* ===== verification/Postgres_System.thy ===== *)
theory Postgres_System
  imports Postgres_Contract Custody_System
begin

section \<open>The program on PostgreSQL\<close>

text \<open>
  Opening the database, the migrations, and the running program on the PostgreSQL store:
  the safety of the service carries over to the tables, and survives restarts with any
  configuration.
\<close>

subsection \<open>Migrations\<close>

definition custody_tables :: "string set" where
  "custody_tables = {''wallets'', ''transaction_proposals'', ''audit_events'', ''idempotency_keys''}"

lemma run_ddl_keeps: "run_ddl d names = Inr names' \<Longrightarrow> set names \<subseteq> set names'"
  by (cases d) (auto split: if_splits)

lemma run_script_keeps: "run_script ds names = Inr names' \<Longrightarrow> set names \<subseteq> set names'"
proof (induction ds arbitrary: names)
  case (Cons d ds)
  then obtain n1 where "run_ddl d names = Inr n1" "run_script ds n1 = Inr names'" by (auto split: sum.splits)
  with Cons.IH run_ddl_keeps show ?case by blast
qed simp

lemma run_script_tables:
  "run_script ds names = Inr names' \<Longrightarrow> CreateTable t \<in> set ds \<Longrightarrow> t \<in> set names'"
proof (induction ds arbitrary: names)
  case (Cons d ds)
  then obtain n1 where n1: "run_ddl d names = Inr n1" "run_script ds n1 = Inr names'" by (auto split: sum.splits)
  show ?case
  proof (cases "d = CreateTable t")
    case True
    then have "t \<in> set n1" using n1(1) by (auto split: if_splits)
    with run_script_keeps [OF n1(2)] show ?thesis by blast
  next
    case False
    with Cons n1(2) show ?thesis by auto
  qed
qed simp

text \<open>Rows and tables that were there stay.\<close>

definition grown :: "tables \<Rightarrow> tables \<Rightarrow> bool" where
  "grown T T' \<longleftrightarrow> (\<exists>names. T' = T\<lparr>schema := names\<rparr> \<and> set (schema T) \<subseteq> set names)"

lemma grown_refl [simp]: "grown T T"
  unfolding grown_def by (rule exI [of _ "schema T"]) simp

lemma grown_trans: "grown T U \<Longrightarrow> grown U V \<Longrightarrow> grown T V"
  by (auto simp: grown_def) blast

lemma grown_ok: "grown T T' \<Longrightarrow> pg_ok P T' = pg_ok P T \<and> pg_view P T' = pg_view P T"
  unfolding grown_def by (elim exE conjE) (simp add: pg_ok_def pg_view_def)

lemma scripts_law:
  assumes S: "pg_serves jb tabs pend P"
  shows "ends tabs (run_scripts P c names) db (\<lambda>r T. grown (tabs db) T \<and>
     (r = Inr () \<longrightarrow> (\<forall>name ds t. name \<in> set names \<longrightarrow> map_of migrationFiles name = Some (Some ds) \<longrightarrow>
        CreateTable t \<in> set ds \<longrightarrow> t \<in> set (schema T))))"
proof (induction names arbitrary: db)
  case (Cons name names)
  let ?ds = "the (the (map_of migrationFiles name))"
  show ?case
    unfolding run_scripts.simps
  proof (rule ends_bind)
    fix r db1
    assume "exec (actP (pgExec P c None (Script ?ds))) db = (r, db1)"
    then have x: "case r of Inl e \<Rightarrow> tabs db1 = tabs db | Inr n \<Rightarrow> run jb (Script ?ds) (tabs db) = Inr (n, tabs db1)"
      using exec_pool [OF S] by simp
    show "ends tabs (case r of Inl err \<Rightarrow> Return (Inl (Wrap (''run migration '' @ name @ '': '' @ Error err) err))
        | Inr _ \<Rightarrow> run_scripts P c names) db1 (\<lambda>r T. grown (tabs db) T \<and>
       (r = Inr () \<longrightarrow> (\<forall>name' ds t. name' \<in> set (name # names) \<longrightarrow> map_of migrationFiles name' = Some (Some ds) \<longrightarrow>
        CreateTable t \<in> set ds \<longrightarrow> t \<in> set (schema T))))"
    proof (cases r)
      case (Inl e)
      with x show ?thesis by simp
    next
      case (Inr n)
      with x have run: "run jb (Script ?ds) (tabs db) = Inr (n, tabs db1)" by simp
      then obtain ns where ns: "run_script ?ds (schema (tabs db)) = Inr ns" "tabs db1 = (tabs db)\<lparr>schema := ns\<rparr>"
        by (auto split: sum.splits)
      have g: "grown (tabs db) (tabs db1)" using run_script_keeps [OF ns(1)] ns(2) by (auto simp: grown_def)
      have new: "t \<in> set (schema (tabs db1))" if "CreateTable t \<in> set ?ds" for t
        using run_script_tables [OF ns(1) that] ns(2) by simp
      obtain r2 db2 where e2: "exec (run_scripts P c names) db1 = (r2, db2)" by (cases "exec (run_scripts P c names) db1")
      note IH = ends_exec [OF Cons.IH e2]
      have "set (schema (tabs db1)) \<subseteq> set (schema (tabs db2))" using IH by (auto simp: grown_def)
      with IH new grown_trans [OF g] show ?thesis
        unfolding ends_def Inr sum.case e2 prod.case by auto
    qed
  qed
qed simp

lemma migrations_law:
  assumes "pg_serves jb tabs pend P"
  shows "ends tabs (RunMigrations P c) db
     (\<lambda>r T. grown (tabs db) T \<and> (r = Inr () \<longrightarrow> custody_tables \<subseteq> set (schema T)))"
proof -
  have names: "set (sort (map fst (filter (\<lambda>(name, script). script \<noteq> None) migrationFiles))) = {''001_init.sql'', ''002_audit_policy.sql''}"
    by (simp add: migrationFiles_def)
  obtain r db' where e: "exec (RunMigrations P c) db = (r, db')" by (cases "exec (RunMigrations P c) db")
  note L = ends_exec [OF scripts_law [OF assms] e [unfolded RunMigrations_def Let_def], unfolded names]
  have "custody_tables \<subseteq> set (schema (tabs db'))" if "r = Inr ()"
  proof -
    have t: "\<And>name ds t. name \<in> {''001_init.sql'', ''002_audit_policy.sql''} \<Longrightarrow>
        map_of migrationFiles name = Some (Some ds) \<Longrightarrow> CreateTable t \<in> set ds \<Longrightarrow> t \<in> set (schema (tabs db'))"
      using L that by blast
    show ?thesis
      using t [of "''001_init.sql''" _ "''wallets''"] t [of "''001_init.sql''" _ "''transaction_proposals''"]
        t [of "''002_audit_policy.sql''" _ "''audit_events''"] t [of "''002_audit_policy.sql''" _ "''idempotency_keys''"]
      by (simp add: custody_tables_def migrationFiles_def)
  qed
  with L show ?thesis by (simp add: ends_def e)
qed

lemma open_law:
  assumes "pg_serves jb tabs pend P" and "exec (OpenPostgres P c url) db = (r, db')"
  shows "grown (tabs db) (tabs db')" and "r = Inr () \<Longrightarrow> custody_tables \<subseteq> set (schema (tabs db'))"
proof -
  have conn: "pgNew P c url d = (x, d') \<Longrightarrow> tabs d' = tabs d" "pgClose P d = (y, d') \<Longrightarrow> tabs d' = tabs d" for d x y d'
    using pg_servesD(5) [OF assms(1)] unfolding connect_law_def by blast+
  obtain x db1 where n: "pgNew P c url db = (x, db1)" by (cases "pgNew P c url db")
  obtain m db2 where mg: "exec (RunMigrations P c) db1 = (m, db2)" by (cases "exec (RunMigrations P c) db1")
  note M = ends_exec [OF migrations_law [OF assms(1)] mg]
  obtain y db3 where cl: "pgClose P db2 = (y, db3)" by (cases "pgClose P db2")
  have "grown (tabs db) (tabs db') \<and> (r = Inr () \<longrightarrow> custody_tables \<subseteq> set (schema (tabs db')))"
    using assms(2) M n mg cl conn(1) [OF n] conn(2) [OF cl]
    by (auto simp: OpenPostgres_def pg_Close_def split: sum.splits)
  then show "grown (tabs db) (tabs db')" "r = Inr () \<Longrightarrow> custody_tables \<subseteq> set (schema (tabs db'))" by auto
qed

subsection \<open>The running program\<close>

text \<open>\<^verbatim>\<open>main\<close> with a database: the database as it is, and the state when the server starts to listen.\<close>

definition pg_starts ::
  "('db, 'tx) Pgx \<Rightarrow> ctx \<Rightarrow> 'x External \<Rightarrow> Config \<Rightarrow> 'rpc surroundings \<Rightarrow> 'db \<Rightarrow>
   ('db, DemoQuorumBackend, 'rpc adapters) world \<Rightarrow> bool" where
  "pg_starts P c L cfg e db w \<longleftrightarrow>
     (\<exists>db'. openStore (\<lambda>url. case exec (OpenPostgres P c url) db of (Inl err, _) \<Rightarrow> Inl err | (Inr _, db') \<Rightarrow> Inr db') cfg =
          Inr (UsePostgres db') \<and>
        boot_on db' L cfg e = Inr w)"

lemma pg_starts_grown:
  assumes "pg_serves jb tabs pend P" and "pg_starts P c L cfg e db w"
  shows "grown (tabs db) (tabs (w_store w))"
proof -
  from assms(2) obtain db' where "exec (OpenPostgres P c (DatabaseURL cfg)) db = (Inr (), db')" "boot_on db' L cfg e = Inr w"
    by (auto simp: pg_starts_def openStore_def split: if_splits sum.splits prod.splits)
  with open_law(1) [OF assms(1)] boot_on_store show ?thesis by metis
qed

text \<open>
  The tables are sound: every document decodes, and every transaction satisfies the custody
  invariant under the laxest policy, that of no configured signers and no caps.
\<close>

definition pg_sound :: "('db, 'tx) Pgx \<Rightarrow> tables \<Rightarrow> bool" where
  "pg_sound P T \<longleftrightarrow> pg_ok P T \<and> view_ok zero_policy (pg_view P T)"

lemma pg_sound_empty: "pg_sound P no_tables"
  by (simp add: pg_sound_def pg_ok_def view_ok_def pg_view_def no_tables_def)

lemma laxest_signers: "signerAllowed zero_policy signer"
  by (simp add: signerAllowed_def zero_policy_def)

lemma laxest_amount: "validateAmountPolicy pol chain amount = None \<Longrightarrow> validateAmountPolicy zero_policy chain amount = None"
  by (auto simp: validateAmountPolicy_def zero_policy_def split: if_splits option.splits)

lemma pg_service:
  assumes "pg_serves jb tabs pend P" and "jsonb_law jb"
  shows "custody_service (postgres_store P) (\<lambda>db. pg_view P (tabs db)) (\<lambda>db. pg_ok P (tabs db)) Pair utf8_ok pg_norm
    (system_service (postgres_store P) L C send cfg) zero_policy"
  by (intro custody_service.intro pg_store_contract [OF assms] custody_service_axioms.intro)
    (auto intro: laxest_signers laxest_amount)

abbreviation pg_handler ::
  "'x External \<Rightarrow> 'rpc EthClient \<Rightarrow> ('x, 'rpc) sender \<Rightarrow> (nat \<Rightarrow> string) \<Rightarrow> (int \<Rightarrow> string) \<Rightarrow> (nat \<Rightarrow> string) \<Rightarrow>
   (http_request \<Rightarrow> http_response) \<Rightarrow> ('db, 'tx) Pgx \<Rightarrow> Config \<Rightarrow>
   http_request \<Rightarrow> (('db, DemoQuorumBackend, 'rpc adapters) world, string \<times> http_response) prog" where
  "pg_handler L C send fmt_g fmt_sec other mux P cfg \<equiv>
     Handler L fmt_g fmt_sec other mux (system_server (postgres_store P) L C send cfg)"

lemma pg_run:
  assumes "pg_serves jb tabs pend P" and "jsonb_law jb" and "pg_sound P (tabs db)"
    and "pg_starts P c L cfg e db w"
    and "csteps (pg_handler L C send fmt_g fmt_sec other mux P cfg) (w, []) (w', ts)"
  shows "pg_sound P (tabs (w_store w'))"
    and "csteps (pg_handler L C send fmt_g fmt_sec other mux P cfg) (w', ts) (w'', ts') \<Longrightarrow>
      view_step pg_norm (pg_view P (tabs (w_store w'))) (pg_view P (tabs (w_store w'')))"
proof -
  note svc = pg_service [OF assms(1,2)]
  have inv: "custody_inv zero_policy (\<lambda>db. pg_view P (tabs db)) (\<lambda>db. pg_ok P (tabs db)) w"
    using assms(3) grown_ok [where P = P, OF pg_starts_grown [OF assms(1,4)]] by (simp add: custody_inv_def pg_sound_def)
  note safe = custody_service.http_interleavings_safe [OF svc inv system_server_fields(1) assms(5)]
  show "pg_sound P (tabs (w_store w'))" using safe(1) by (simp add: custody_inv_def pg_sound_def)
  show "view_step pg_norm (pg_view P (tabs (w_store w'))) (pg_view P (tabs (w_store w'')))"
    if "csteps (pg_handler L C send fmt_g fmt_sec other mux P cfg) (w', ts) (w'', ts')"
    using safe(2) [OF that] by (simp add: custody_step_def)
qed

end
