(* ===== verification/Prog_Bounds.thy ===== *)
theory Prog_Bounds
  imports Custody_Prelude
begin

section \<open>Programs that finish: step bounds and results\<close>

text \<open>
  \<open>within Q n p\<close>: whatever state each atomic step of \<open>p\<close> finds, \<open>p\<close> returns after at most \<open>n\<close>
  steps, with a result that meets \<open>Q\<close>. This is total correctness that does not depend on the
  other programs at all, with one rule per construct; \<open>run_steps c n d\<close> is a run of \<open>n\<close> steps of
  the programs in flight, in any order and without new ones.
\<close>

named_theorems within_rules \<open>rules for step bounds, one per construct\<close>

inductive within :: "('a \<Rightarrow> bool) \<Rightarrow> nat \<Rightarrow> ('s, 'a) prog \<Rightarrow> bool" for Q where
  within_Return [within_rules]: "Q x \<Longrightarrow> within Q n (Return x)"
| within_Atomic: "(\<And>s. within Q n (fst (f s))) \<Longrightarrow> within Q (Suc n) (Atomic f)"

inductive_simps within_Return_iff [simp]: "within Q n (Return x)"
inductive_cases within_AtomicE: "within Q n (Atomic f)"

lemma within_weaken:
  assumes "within P m p" and "m \<le> n" and "\<And>x. P x \<Longrightarrow> Q x"
  shows "within Q n p"
  using assms(1,2)
proof (induction arbitrary: n)
  case (within_Return x)
  then show ?case by (simp add: assms(3))
next
  case (within_Atomic m f)
  obtain k where "n = Suc k" using within_Atomic.prems by (cases n) auto
  with within_Atomic show ?case by (auto intro: within.within_Atomic)
qed

lemma within_add:
  assumes "within P m p" and "\<And>x. P x \<Longrightarrow> within Q n (k x)"
  shows "within Q (m + n) (bindP p k)"
  using assms(1)
proof induction
  case (within_Return x m)
  then show ?case by (auto intro: within_weaken [OF assms(2)])
next
  case (within_Atomic m f)
  then show ?case by (auto intro!: within.within_Atomic)
qed

lemma within_bind:
  assumes "within P m p" and "m \<le> n" and "\<And>x. P x \<Longrightarrow> within Q (n - m) (k x)"
  shows "within Q n (bindP p k)"
  using within_add [OF assms(1,3)] assms(2) by simp

lemma within_try:
  assumes "within P m p" and "m \<le> n" and "\<And>e. P (Inl e) \<Longrightarrow> Q (Inl e)"
    and "\<And>x. P (Inr x) \<Longrightarrow> within Q (n - m) (k x)"
  shows "within Q n (tryP p k)"
  unfolding tryP_def by (rule within_bind [OF assms(1,2)]) (auto simp: assms(3,4) split: sum.splits)

lemma within_seq:
  assumes "within P m p" and "m \<le> n" and "within Q (n - m) q"
  shows "within Q n (seqP p q)"
  unfolding seqP_def by (rule within_bind [OF assms(1,2)]) (rule assms(3))

lemma within_act: "0 < n \<Longrightarrow> (\<And>s. Q (fst (f s))) \<Longrightarrow> within Q n (actP f)"
  unfolding actP_def by (cases n) (auto intro!: within.within_Atomic simp: case_prod_beta)

lemma one_act: "within (\<lambda>_. True) 1 (actP f)"
  by (simp add: within_act)

text \<open>The rules as they are applied: a call that is one step, and a call with a bound of its own.\<close>

lemmas within_steps [within_rules] =
  within_bind [OF one_act] within_try [OF one_act] within_seq [OF one_act]

lemma within_exec:
  assumes "within Q n p"
  shows "Q (fst (exec p s))"
  using assms
proof (induction arbitrary: s)
  case (within_Atomic n f)
  then show ?case by (simp add: exec_Atomic case_prod_beta)
qed simp

subsection \<open>What a program leaves alone\<close>

text \<open>\<open>steps_in R p\<close>: every atomic step of \<open>p\<close>, whatever state it finds, moves the state by \<open>R\<close>.\<close>

inductive steps_in :: "('s \<Rightarrow> 's \<Rightarrow> bool) \<Rightarrow> ('s, 'a) prog \<Rightarrow> bool" for R where
  steps_in_Return: "steps_in R (Return x)"
| steps_in_Atomic: "(\<And>s. R s (snd (f s)) \<and> steps_in R (fst (f s))) \<Longrightarrow> steps_in R (Atomic f)"

lemma steps_in_bind: "steps_in R p \<Longrightarrow> (\<And>x. steps_in R (k x)) \<Longrightarrow> steps_in R (bindP p k)"
  by (induction rule: steps_in.induct) (auto intro!: steps_in.intros)

lemma steps_in_act: "(\<And>s. R s (snd (f s))) \<Longrightarrow> steps_in R (actP f)"
  unfolding actP_def by (auto intro!: steps_in.intros simp: case_prod_beta)

lemma steps_in_seq: "steps_in R p \<Longrightarrow> steps_in R q \<Longrightarrow> steps_in R (seqP p q)"
  unfolding seqP_def by (rule steps_in_bind)

lemmas steps_in_rules = steps_in_Return steps_in_bind steps_in_act steps_in_seq

subsection \<open>All programs in flight\<close>

inductive run_steps :: "('s, 'a) config \<Rightarrow> nat \<Rightarrow> ('s, 'a) config \<Rightarrow> bool" where
  runs_none: "run_steps c 0 c"
| runs_step: "i < length ts \<Longrightarrow> ts ! i = Atomic f \<Longrightarrow> f s = (p, s') \<Longrightarrow> run_steps (s', ts[i := p]) n d \<Longrightarrow>
     run_steps (s, ts) (Suc n) d"

lemma within_after:
  assumes "within Q m (Atomic f)" and "f s = (p, s')"
  obtains k where "m = Suc k" and "within Q k p"
  using assms(1) by (rule within_AtomicE) (metis assms(2) fst_conv that)

lemma runs_length: "run_steps c n d \<Longrightarrow> length (snd d) = length (snd c)"
  by (induction rule: run_steps.induct) simp_all

text \<open>Every step uses up one unit of the bounds of the programs in flight.\<close>

lemma runs_budget:
  assumes "run_steps c n d" and "list_all2 (within Q) ms (snd c)"
  shows "\<exists>ms'. list_all2 (within Q) ms' (snd d) \<and> n + sum_list ms' \<le> sum_list ms"
  using assms
proof (induction arbitrary: ms)
  case (runs_none c)
  then show ?case by auto
next
  case (runs_step i ts f s p s' n d)
  have i: "i < length ms" using runs_step.hyps(1) runs_step.prems by (auto dest: list_all2_lengthD)
  have "within Q (ms ! i) (Atomic f)" using runs_step.hyps(1,2) runs_step.prems by (auto dest: list_all2_nthD2)
  then obtain k where k: "ms ! i = Suc k" "within Q k p" using runs_step.hyps(3) by (rule within_after)
  have "list_all2 (within Q) (ms[i := k]) (snd (s', ts[i := p]))"
    using runs_step.prems k(2) by (simp add: list_all2_update_cong)
  from runs_step.IH [OF this] obtain ms' where ms': "list_all2 (within Q) ms' (snd d)" "n + sum_list ms' \<le> sum_list (ms[i := k])"
    by blast
  moreover have "Suc (sum_list (ms[i := k])) = sum_list ms"
    using i k(1) by (simp add: sum_list_update) (use member_le_sum_list [of "Suc k" ms] nth_mem [OF i] in auto)
  ultimately show ?case by (auto intro!: exI [of _ ms'])
qed

text \<open>As long as a program has not returned it can make a step, so all of them return.\<close>

lemma runs_to_end:
  assumes "list_all2 (within Q) ms ts"
  shows "\<exists>n s' xs. run_steps (s, ts) n (s', map Return xs) \<and> list_all Q xs"
  using assms
proof (induction "sum_list ms" arbitrary: ms ts s rule: less_induct)
  case less
  show ?case
  proof (cases "\<exists>i < length ts. \<exists>f. ts ! i = Atomic f")
    case True
    then obtain i f where i: "i < length ts" "ts ! i = Atomic f" by blast
    obtain p s' where f: "f s = (p, s')" by (cases "f s")
    have "run_steps (s, ts) (Suc 0) (s', ts[i := p])" by (rule runs_step [OF i f runs_none])
    from runs_budget [OF this, of Q ms] less.prems
    obtain ms' where "list_all2 (within Q) ms' (ts[i := p])" "sum_list ms' < sum_list ms" by auto
    with less.hyps obtain n t xs where "run_steps (s', ts[i := p]) n (t, map Return xs)" "list_all Q xs" by blast
    with runs_step [OF i f] show ?thesis by blast
  next
    case False
    have "\<exists>x. t = Return x \<and> Q x" if "t \<in> set ts" for t
    proof -
      from that obtain i where i: "i < length ts" "ts ! i = t" by (auto simp: in_set_conv_nth)
      then obtain x where "t = Return x" using False by (cases t) auto
      moreover have "within Q (ms ! i) t" using less.prems i by (auto dest: list_all2_nthD2)
      ultimately show ?thesis by simp
    qed
    then obtain g where "\<forall>t \<in> set ts. t = Return (g t) \<and> Q (g t)" by metis
    then have "ts = map Return (map g ts)" "list_all Q (map g ts)"
      by (auto simp: list_all_iff intro!: map_idI [symmetric])
    with runs_none show ?thesis by metis
  qed
qed

lemma csteps_within:
  assumes "csteps H c d" and "\<And>q. within Q n (H q)" and "\<forall>t \<in> set (snd c). within Q n t"
  shows "\<forall>t \<in> set (snd d). within Q n t"
  using assms(1)
proof induction
  case csteps_refl
  from assms(3) show ?case .
next
  case (csteps_step d e)
  from csteps_step.hyps(2) show ?case
  proof cases
    case (spawn s ts q)
    with csteps_step.IH assms(2) show ?thesis by auto
  next
    case (run i ts f s p s')
    then have "within Q n (Atomic f)" using csteps_step.IH by (metis nth_mem snd_conv)
    then obtain k where "n = Suc k" "within Q k p" using run(5) by (rule within_after)
    then have "within Q n p" by (auto intro: within_weaken)
    with run csteps_step.IH show ?thesis by (auto dest!: set_update_subset_insert [THEN subsetD])
  qed
qed

text \<open>From any configuration the programs reach: a bound on what is left, and an end.\<close>

theorem all_finish:
  assumes "csteps H (s0, []) (s, ts)" and "\<And>q. within Q n (H q)" and "run_steps (s, ts) k (s', ts')"
  shows "k \<le> n * length ts" and "\<exists>m s'' xs. run_steps (s', ts') m (s'', map Return xs) \<and> list_all Q xs"
proof -
  have "\<forall>t \<in> set ts. within Q n t" using csteps_within [OF assms(1,2)] by simp
  then have "list_all2 (within Q) (replicate (length ts) n) (snd (s, ts))"
    by (simp add: list_all2_conv_all_nth)
  from runs_budget [OF assms(3) this] obtain ms
    where ms: "list_all2 (within Q) ms ts'" "k + sum_list ms \<le> n * length ts"
    by (auto simp: sum_list_replicate mult.commute)
  then show "k \<le> n * length ts" by simp
  show "\<exists>m s'' xs. run_steps (s', ts') m (s'', map Return xs) \<and> list_all Q xs" by (rule runs_to_end [OF ms(1)])
qed

end
