(* ===== verification/API_Answers.thy ===== *)
theory API_Answers
  imports API_Server Prog_Bounds Proposal_Roundtrip
begin

section \<open>Every request is answered, and how\<close>

text \<open>
  Step bounds for every handler of the service and of the HTTP layer, and the form of the
  responses: JSON objects, errors under one key, statuses from a fixed set. The bounds count
  the atomic calls of one request: at most seven of the middleware and fourteen of \<^verbatim>\<open>CoSign\<close>,
  the longest handler.
\<close>

subsection \<open>The service\<close>

lemma within_appendAudit: "within (\<lambda>_. True) 4 (appendAudit s e)"
  unfolding appendAudit_def by (auto simp: Let_def intro!: within_rules)

lemma within_failTransaction: "within (\<lambda>_. True) 2 (failTransaction s p err phase)"
  unfolding failTransaction_def by (auto simp: Let_def intro!: within_rules split: sum.split)

text \<open>The two forms of the call that stores a new resource, without and with a key.\<close>

lemma within_plain: "within (\<lambda>_. True) 1 (tryP (actP f) (\<lambda>_. Return (Inr c)))"
  by (auto intro!: within_rules)

lemma within_timed: "within (\<lambda>_. True) 2 (bindP (actP f) (\<lambda>t. actP (g t)))"
  by (auto intro!: within_rules within_act)

lemmas service_calls =
  within_try [OF within_plain] within_try [OF within_timed]
  within_try [OF within_appendAudit] within_seq [OF within_appendAudit] within_seq [OF within_failTransaction]

lemma within_CreateWallet: "within (\<lambda>_. True) 10 (CreateWallet s chain key)"
  unfolding CreateWallet_def by (auto simp: Let_def intro!: within_rules service_calls)

lemma within_ProposeTransaction: "within (\<lambda>_. True) 10 (ProposeTransaction s trace request key)"
  unfolding ProposeTransaction_def
  by (auto simp: Let_def intro!: within_rules service_calls split: option.split)

lemma within_sign_phase: "within (\<lambda>_. True) 7 (sign_phase s p)"
  unfolding sign_phase_def by (auto simp: Let_def intro!: within_rules service_calls split: sum.split)

lemma within_CoSign: "within (\<lambda>_. True) 14 (CoSign s i signer)"
  unfolding CoSign_def by (auto simp: Let_def intro!: within_rules service_calls within_sign_phase)

lemma within_Broadcast: "within (\<lambda>_. True) 9 (Broadcast s i)"
  unfolding Broadcast_def
  by (auto simp: Let_def intro!: within_rules service_calls split: option.split sum.split)

lemma within_reads:
  "within (\<lambda>_. True) 1 (service_GetTransaction s i)" "within (\<lambda>_. True) 1 (service_ListAuditEvents s f)"
  unfolding service_GetTransaction_def service_ListAuditEvents_def by (rule one_act)+

subsection \<open>Responses\<close>

definition error_answer :: "http_response \<Rightarrow> bool" where
  "error_answer resp \<longleftrightarrow>
     rsStatus resp \<in> {400, 401, 403, 404, 409, 500} \<and> rsContentType resp = ''application/json'' \<and>
     (\<exists>msg. json_parse (rsBody resp) = Some (JObj [(''error'', JStr msg)]))"

definition ok_answer :: "http_response \<Rightarrow> bool" where
  "ok_answer resp \<longleftrightarrow>
     rsStatus resp \<in> {200, 201} \<and> rsContentType resp = ''application/json'' \<and>
     (rsBody resp = [] \<or> (\<exists>ms. json_parse (rsBody resp) = Some (JObj ms)))"

lemma json_parse_line:
  assumes "printable j"
  shows "json_parse (json_text j @ [CHR 0x0A]) = Some (reread j)"
proof -
  have "parse_value (Suc (length (json_text j @ [CHR 0x0A]))) (json_text j @ [CHR 0x0A]) = Some (reread j, [CHR 0x0A])"
    by (rule reads_value [OF reads_text [OF assms]]) (simp_all add: is_digit_def)
  then show ?thesis by (simp add: json_parse_def skip_ws_def is_ws_def del: parse_value.simps)
qed

lemma error_answer_writeError [intro]:
  "status \<in> {400, 401, 403, 404, 409, 500} \<Longrightarrow> error_answer (writeError status err)"
  using json_parse_line [of "JObj [(''error'', JStr (Error err))]"]
  by (simp add: error_answer_def writeError_def writeJSON_def utf8_fix_ok utf8_ok_ascii)

lemma ok_answer_writeJSON [intro]:
  assumes "status \<in> {200, 201}" and "\<And>j. v = Some j \<Longrightarrow> printable j \<and> (\<exists>ms. reread j = JObj ms)"
  shows "ok_answer (writeJSON status v)"
  using assms json_parse_line by (auto simp: ok_answer_def writeJSON_def split: option.splits)

lemma statusFor_range: "statusFor err \<in> {400, 403, 404, 409, 500}"
  by (simp add: statusFor_def)

text \<open>The values the handlers write.\<close>

lemma json_object_reread: "json_object ms = Some j \<Longrightarrow> \<exists>xs. reread j = JObj xs"
  by (auto simp: json_object_def split: if_splits)

lemma Some_map_option: "Some l = map_option f x \<longleftrightarrow> (\<exists>j. x = Some j \<and> l = f j)"
  by (cases x) auto

lemma printable_wallet:
  assumes "wallet_json w = Some j"
  shows "printable j"
  using assms unfolding wallet_json_def
  by (rule printable_object) (auto simp: fld_def omit_def Some_map_option printable_time split: if_splits)

lemma printable_event:
  assumes "audit_event_json e = Some j"
  shows "printable j"
  using assms unfolding audit_event_json_def
  by (rule printable_object)
    (auto simp: fld_def omit_def Some_map_option printable_time printable_raw split: if_splits)

lemma events_value: "events_json es = Some j \<Longrightarrow> printable j \<and> (\<exists>ms. reread j = JObj ms)"
  by (fastforce simp: events_json_def list_all_iff dest: printable_event split: if_splits)

lemma wallet_value: "wallet_json w = Some j \<Longrightarrow> printable j \<and> (\<exists>ms. reread j = JObj ms)"
  using printable_wallet json_object_reread unfolding wallet_json_def by blast

lemma proposal_value: "proposal_json p = Some j \<Longrightarrow> printable j \<and> (\<exists>ms. reread j = JObj ms)"
  using printable_proposal json_object_reread unfolding proposal_json_def by blast

subsection \<open>The HTTP layer\<close>

definition metrics_answer :: "http_response \<Rightarrow> bool" where
  "metrics_answer resp \<longleftrightarrow> rsStatus resp = 200 \<and> rsContentType resp = ''text/plain; version=0.0.4''"

text \<open>What the program itself answers; the router's own answers are the values of \<open>mux\<close>.\<close>

definition well_answered :: "(http_request \<Rightarrow> http_response) \<Rightarrow> http_response \<Rightarrow> bool" where
  "well_answered mux resp \<longleftrightarrow>
     ok_answer resp \<or> error_answer resp \<or> metrics_answer resp \<or> resp \<in> range mux"

lemma well_answered_error:
  "status \<in> {400, 401, 403, 404, 409, 500} \<Longrightarrow> well_answered mux (writeError status err)"
  by (auto simp: well_answered_def)

lemma within_answer:
  assumes "within (\<lambda>_. True) n m" and "status \<in> {200, 201}"
    and "\<And>x j. f x = Some j \<Longrightarrow> printable j \<and> (\<exists>ms. reread j = JObj ms)"
  shows "within (well_answered mux) n (answer status f m)"
  unfolding answer_def
proof (rule within_bind [OF assms(1) order_refl])
  fix r
  have "well_answered mux (writeError (statusFor err) err)" for err
    using statusFor_range [of err] by (intro well_answered_error) auto
  moreover have "well_answered mux (writeJSON status (f x))" for x
    using ok_answer_writeJSON [OF assms(2) assms(3)] by (simp add: well_answered_def)
  ultimately show "within (well_answered mux) (n - n)
      (case r of Inl err \<Rightarrow> Return (writeError (statusFor err) err) | Inr x \<Rightarrow> Return (writeJSON status (f x)))"
    by (simp split: sum.split)
qed

lemmas within_answers =
  within_answer [OF within_CreateWallet _ wallet_value]
  within_answer [OF within_ProposeTransaction _ proposal_value]
  within_answer [OF within_CoSign _ proposal_value]
  within_answer [OF within_Broadcast _ proposal_value]
  within_answer [OF within_reads(1) _ proposal_value]
  within_answer [OF within_reads(2) _ events_value]

lemma decodeJSON_refusal: "decodeJSON L fs x r = Inl resp \<Longrightarrow> \<exists>err. resp = writeError 400 err"
  by (auto simp: decodeJSON_def split: option.splits prod.splits sum.splits if_splits)

lemma well_answered_decode: "decodeJSON L fs x r = Inl resp \<Longrightarrow> well_answered mux resp"
  by (auto dest!: decodeJSON_refusal intro: well_answered_error)

lemma within_api:
  "within (well_answered mux) 14 (api_createWallet L s r)"
  "within (well_answered mux) 14 (api_proposeTransaction L s trace r)"
  "within (well_answered mux) 14 (api_getTransaction s i r)"
  "within (well_answered mux) 14 (api_cosign L s i r)"
  "within (well_answered mux) 14 (api_broadcast s i r)"
  "within (well_answered mux) 14 (api_listAuditEvents s r)"
  unfolding api_createWallet_def api_proposeTransaction_def api_getTransaction_def api_cosign_def
    api_broadcast_def api_listAuditEvents_def Let_def
  by (auto split: sum.split option.split
      intro: well_answered_decode well_answered_error within_weaken [OF within_answers(1)]
        within_weaken [OF within_answers(2)] within_weaken [OF within_answers(3)] within_weaken [OF within_answers(4)]
        within_weaken [OF within_answers(5)] within_weaken [OF within_answers(6)])

lemma within_transactionAction: "within (well_answered mux) 14 (transactionAction L s r)"
  unfolding transactionAction_def
  by (auto split: option.split intro: within_api well_answered_error)

lemma within_requireAPIKey:
  "within (well_answered mux) n (inner r) \<Longrightarrow> within (well_answered mux) n (requireAPIKey s inner r)"
  by (simp add: requireAPIKey_def well_answered_error)

lemma within_open_routes:
  "within (well_answered mux) n (health r)" "within (well_answered mux) n (ready r)"
  "0 < n \<Longrightarrow> within (well_answered mux) n (metricsHandler fmt_g fmt_sec r)"
proof -
  have m: "printable (json_of_map m) \<and> (\<exists>ms. reread (json_of_map m) = JObj ms)" for m
    by (simp add: json_of_map_def list_all_iff)
  have "ok_answer (writeJSON 200 (Some (json_of_map m)))" for m
    by (rule ok_answer_writeJSON) (use m in auto)
  then show "within (well_answered mux) n (health r)" "within (well_answered mux) n (ready r)"
    unfolding health_def ready_def by (simp_all add: well_answered_def)
  show "0 < n \<Longrightarrow> within (well_answered mux) n (metricsHandler fmt_g fmt_sec r)"
    unfolding metricsHandler_def
    by (auto intro!: within_rules simp: well_answered_def metrics_answer_def)
qed

lemma within_serve: "within (well_answered mux) 14 (serve L fmt_g fmt_sec mux s trace r)"
  unfolding serve_def Let_def
  by (auto intro: within_requireAPIKey within_api within_transactionAction within_open_routes
      simp: well_answered_def)

lemma within_new_trace: "within (\<lambda>_. True) 2 (new_trace r)"
  unfolding new_trace_def Let_def by (auto intro!: within_rules)

theorem within_Handler:
  "within (\<lambda>(h, resp). (\<exists>t. h = traceparent t) \<and> well_answered mux resp) 21 (Handler L fmt_g fmt_sec other mux s r)"
  unfolding Handler_def Middleware_def Let_def
  by (auto intro!: within_rules within_bind [OF within_new_trace] within_bind [OF within_serve])

end
