(* ===== verification/Custody_Process.thy ===== *)
theory Custody_Process
  imports Postgres_System API_Answers
begin

section \<open>The process: start, serving, shutdown\<close>

text \<open>
  \<^verbatim>\<open>main\<close> of \<^verbatim>\<open>cmd/custody-api/main.go\<close> as a whole. The start either fails with exit status 1
  or leads to a server; from then on the process is a state machine whose steps are the steps
  of the handlers and the events of \<^verbatim>\<open>net/http\<close> and of the operating system. Log lines are left
  out. \<^verbatim>\<open>Shutdown\<close> closes the listeners, so no request is accepted any more, and returns when
  all connections are idle (with the listeners' error, if closing them failed) or when the
  grace period has passed; \<^verbatim>\<open>ListenAndServe\<close> then returns \<^verbatim>\<open>ErrServerClosed\<close>, which is ignored.
\<close>

subsection \<open>Start\<close>

text \<open>The exit status of a start that fails, or the state of the program on the store it opened.\<close>

definition main_start ::
  "(string \<Rightarrow> error + 'db) \<Rightarrow> 'tx External \<Rightarrow> environment \<Rightarrow> 'rpc surroundings \<Rightarrow>
   nat + ('rpc system + ('db, DemoQuorumBackend, 'rpc adapters) world)" where
  "main_start open L E e =
     (let cfg = Load E in
      case openStore open cfg of
        Inl err \<Rightarrow> Inl 1
      | Inr (UseMemory store) \<Rightarrow> (case boot_on store L cfg e of Inl err \<Rightarrow> Inl 1 | Inr w \<Rightarrow> Inr (Inl w))
      | Inr (UsePostgres db) \<Rightarrow> (case boot_on db L cfg e of Inl err \<Rightarrow> Inl 1 | Inr w \<Rightarrow> Inr (Inr w)))"

text \<open>The states the two models of the running program start from are those \<open>main_start\<close> returns.\<close>

lemma main_start_memory:
  "main_start open L E e = Inr (Inl w) \<longleftrightarrow> DatabaseURL (Load E) = [] \<and> boot L (Load E) e = Inr w"
  by (auto simp: main_start_def openStore_def boot_def Let_def split: sum.splits opened.splits)

lemma main_start_postgres:
  assumes "open = (\<lambda>url. case exec (OpenPostgres P c url) db of (Inl err, _) \<Rightarrow> Inl err | (Inr _, db') \<Rightarrow> Inr db')"
  shows "main_start open L E e = Inr (Inr w) \<longleftrightarrow> pg_starts P c L (Load E) e db w"
  unfolding main_start_def pg_starts_def assms Let_def
  by (auto split: sum.splits opened.splits)

subsection \<open>Serving and stopping\<close>

datatype phase = Serving | Stopping | Exited nat

type_synonym ('s, 'a) process_state = "phase \<times> ('s, 'a) config"

inductive main_step :: "('q \<Rightarrow> ('s, 'a) prog) \<Rightarrow> ('s, 'a) process_state \<Rightarrow> ('s, 'a) process_state \<Rightarrow> bool"
  for H where
  accept: "main_step H (Serving, s, ts) (Serving, s, ts @ [H q])"
| work: "ph = Serving \<or> ph = Stopping \<Longrightarrow> i < length ts \<Longrightarrow> ts ! i = Atomic f \<Longrightarrow> f s = (p, s') \<Longrightarrow>
     main_step H (ph, s, ts) (ph, s', ts[i := p])"
| listen_failed: "main_step H (Serving, s, ts) (Exited 1, s, ts)"
| signalled: "main_step H (Serving, s, ts) (Stopping, s, ts)"
| shut_down: "(\<forall>t \<in> set ts. \<exists>x. t = Return x) \<Longrightarrow>
     main_step H (Stopping, s, ts) (Exited (if closeErr = (None :: error option) then 0 else 1), s, ts)"
| grace_over: "t \<in> set ts \<Longrightarrow> t = Atomic f \<Longrightarrow> main_step H (Stopping, s, ts) (Exited 1, s, ts)"

inductive_cases main_exitedE: "main_step H (Exited n, c) d"

abbreviation main_steps ::
  "('q \<Rightarrow> ('s, 'a) prog) \<Rightarrow> ('s, 'a) process_state \<Rightarrow> ('s, 'a) process_state \<Rightarrow> bool" where
  "main_steps H \<equiv> (main_step H)\<^sup>*\<^sup>*"

text \<open>Whatever the phase, what the handlers have done is a run of the server.\<close>

lemma main_csteps:
  assumes "main_steps H (ph, c) (ph', c')"
  shows "csteps H c c'"
  using assms
proof (induction "(ph', c')" arbitrary: ph' c' rule: rtranclp_induct)
  case base
  then show ?case by (simp add: csteps_refl)
next
  case (step d)
  obtain ph1 c1 where d: "d = (ph1, c1)" by (cases d)
  have "c' = c1 \<or> cstep H c1 c'" using step.hyps(2) unfolding d
    by cases (auto intro: cstep.intros)
  then show ?case using step.hyps(3) [OF d] by (auto intro: csteps_step)
qed

text \<open>An exit is final, and status 0 is reached with every request answered only.\<close>

lemma exit_zero:
  assumes "main_steps H (Serving, s, []) (Exited 0, s', ts)"
  shows "\<forall>t \<in> set ts. \<exists>x. t = Return x"
  using assms
proof (cases rule: rtranclp.cases)
  case (rtrancl_into_rtrancl b)
  from rtrancl_into_rtrancl(2) show ?thesis by cases (auto split: if_splits)
qed

text \<open>Once stopping, the process accepts no further request.\<close>

lemma stopping_accepts_none:
  assumes "main_steps H (ph, s, ts) (ph', s', ts')" and "ph \<noteq> Serving"
  shows "length ts' = length ts \<and> ph' \<noteq> Serving"
  using assms(1)
proof (induction "(ph', s', ts')" arbitrary: ph' s' ts' rule: rtranclp_induct)
  case base
  with assms(2) show ?case by simp
next
  case (step d)
  obtain ph1 s1 ts1 where d: "d = (ph1, s1, ts1)" by (cases d)
  with step.hyps(3) [OF d] step.hyps(2) show ?case by (auto elim: main_step.cases)
qed

lemma runs_main:
  assumes "run_steps c n d"
  shows "main_steps H (Stopping, c) (Stopping, d)"
  using assms
proof induction
  case (runs_none c)
  then show ?case by simp
next
  case (runs_step i ts f s p s' n d)
  have "main_step H (Stopping, s, ts) (Stopping, s', ts[i := p])"
    by (rule work [OF _ runs_step.hyps(1-3)]) simp
  from converse_rtranclp_into_rtranclp [OF this runs_step.IH] show ?case .
qed

subsection \<open>Properties\<close>


end
