(* ===== verification/Component_Witnesses.thy ===== *)
theory Component_Witnesses
  imports Demo_Run Custody_Process
begin

section \<open>Component properties at work\<close>

text \<open>
  The properties of the store, the signing backend, the chain adapters and the process that
  have hypotheses, applied to the concrete run and its surroundings.
\<close>

theorem signed_once_at_latest_approval_witness:
  "\<exists>s j q s1. MarkTransactionSigned None j ''0xaa'' s = (Inr (q, True), s1) \<and>
     pStatus q = TransactionStatusSigned \<and> MarkTransactionSigned None j ''0xbb'' s1 = (Inr (q, False), s1)"
proof -
  obtain w ts j p where w: "demo_reach (w, ts)" and p: "demo_pending 1 (w_store w) (w_signer w) j p"
    by (rule demo_approved)
  obtain r s1 where run: "MarkTransactionSigned None j ''0xaa'' (w_store w) = (r, s1)"
    by (cases "MarkTransactionSigned None j ''0xaa'' (w_store w)")
  obtain q where "r = Inr (q, True)" "pStatus q = TransactionStatusSigned"
    "MarkTransactionSigned None j ''0xbb'' s1 = (Inr (q, False), s1)"
    using signed_once_at_latest_approval [OF demo_reach_mem_ok [OF w] _ _ run, of p "''0xbb''"] p
    by (auto simp: demo_pending_def)
  with run show ?thesis by (intro exI conjI) simp_all
qed

theorem signature_needs_quorum_witness:
  "\<exists>(w :: unit system) j p. transactions (w_store w) j = Some p \<and> ApprovalsCount p = 1 \<and>
     isl (fst (demo_SignTransaction demo_lib None p (w_signer w)))"
proof -
  obtain w ts j p where p: "demo_pending 1 (w_store (w :: unit system)) (w_signer w) j p"
    by (rule demo_approved)
  then have one: "ApprovalsCount p = 1" and tx: "transactions (w_store w) j = Some p"
    by (auto simp: demo_pending_def ApprovalsCount_def)
  have "isl (fst (demo_SignTransaction demo_lib None p (w_signer w)))"
    using signature_needs_quorum [of demo_lib None p "w_signer w" "fst (demo_SignTransaction demo_lib None p (w_signer w))"
        "snd (demo_SignTransaction demo_lib None p (w_signer w))"] one
    by simp
  with one tx show ?thesis by blast
qed

definition demo_signer :: DemoQuorumBackend where
  "demo_signer = \<lparr>records = [], evmPrivateKey = None, b_rand = sconst (Inr (\<lambda>_. 0)), b_clock = sconst 0\<rparr>"

theorem wallet_material_is_of_the_kept_key_witness:
  "\<exists>m b h. demo_CreateWallet demo_lib None ''w1'' ChainBitcoin demo_signer = (Inr m, b) \<and>
     mAddress m = ''tb1q'' @ h \<and> length h = 40 \<and> (\<exists>r. map_of (records b) ''w1'' = Some r)"
proof -
  obtain m b where run: "demo_CreateWallet demo_lib None ''w1'' ChainBitcoin demo_signer = (Inr m, b)"
    by (simp add: demo_CreateWallet_def createPrivateKey_def demo_lib_def chain_defs Let_def)
  have "backend_ok demo_lib demo_signer" by (simp add: backend_ok_def demo_signer_def)
  from wallet_material_is_of_the_kept_key [OF this run] run show ?thesis
    by auto
qed

theorem nonces_are_consecutive_witness:
  "fst (issue_nonces [''0x01'', ''0x02'', ''0x01''] \<lparr>nonces = [(''0x01'', 7)], ad_clock = sconst 0, ad_rpc = ()\<rparr>) ! 2 = 8"
proof -
  let ?st = "\<lparr>nonces = [(''0x01'', 7)], ad_clock = sconst 0, ad_rpc = ()\<rparr>"
    and ?as = "[''0x01'', ''0x02'', ''0x01'']"
  show ?thesis
    using nonces_are_consecutive [of ?as ?st "fst (issue_nonces ?as ?st)" "snd (issue_nonces ?as ?st)" 2]
    by (simp add: nonce_of_def)
qed



end
