(* ===== verification/Postgres_Demo.thy ===== *)
theory Postgres_Demo
  imports Postgres_System
begin

section \<open>A database that behaves as documented\<close>

text \<open>
  A concrete driver for the hypotheses on PostgreSQL and pgx: the committed tables and the
  statements of the one open transaction. Its \<^verbatim>\<open>JSONB\<close> columns give a document back as it was
  written, and refuse documents that are not JSON, repeat a key or hold an escape.
\<close>

definition demo_jsonb :: "string \<Rightarrow> string option" where
  "demo_jsonb s =
     (case parse_value (Suc (length s)) s of
        Some (v, rest) \<Rightarrow>
          if rest = [] \<and> skip_ws s = s \<and> distinct_keys v \<and> CHR 0x5C \<notin> set s then Some s else None
      | None \<Rightarrow> None)"

lemma demo_jsonb_law: "jsonb_law demo_jsonb"
  unfolding jsonb_law_def
proof (intro allI impI)
  fix s s' v
  assume "demo_jsonb s = Some s'" and parse: "json_parse s = Some v"
  then have s: "s' = s" and v: "reads s v" "distinct_keys v" and esc: "CHR 0x5C \<notin> set s"
    by (auto simp: demo_jsonb_def json_parse_def reads_def split: option.splits if_splits)
  then show "(\<exists>v'. reads s' v' \<and> canon v' = canon v \<and> distinct_keys v') \<and> unescaped s'"
    using no_escapes [OF esc] by blast
qed

type_synonym demo_db = "tables \<times> stmt list option"

definition demo_pend :: "demo_db \<Rightarrow> unit \<Rightarrow> stmt list option" where
  "demo_pend db tx = snd db"

definition demo_seen :: "unit option \<Rightarrow> demo_db \<Rightarrow> tables option" where
  "demo_seen k db = seen demo_jsonb fst demo_pend k db"

definition demo_query :: "(tables \<Rightarrow> 'q \<Rightarrow> 'row option) \<Rightarrow> ctx \<Rightarrow> unit option \<Rightarrow> 'q \<Rightarrow> demo_db \<Rightarrow> (error + 'row) \<times> demo_db" where
  "demo_query select c k q db =
     ((case demo_seen k db of None \<Rightarrow> Inl (Fresh ''tx is closed'')
       | Some T \<Rightarrow> (case select T q of None \<Rightarrow> Inl (Sentinel ''no rows in result set'') | Some row \<Rightarrow> Inr row)), db)"

definition demo_pg :: "(demo_db, unit) Pgx" where
  "demo_pg =
     \<lparr>pgNew = \<lambda>c url db. (Inr (), db), pgClose = \<lambda>db. ((), db),
      pgBegin = \<lambda>c db. (Inr (), (fst db, Some [])),
      pgCommit = \<lambda>c tx db. (case demo_seen (Some tx) db of None \<Rightarrow> (Inl (Fresh ''tx is closed''), (fst db, None))
                             | Some T \<Rightarrow> (Inr (), (T, None))),
      pgRollback = \<lambda>c tx db. (Inr (), (fst db, None)),
      pgExec = \<lambda>c k st db. (case demo_seen k db of None \<Rightarrow> (Inl (Fresh ''tx is closed''), db)
        | Some T \<Rightarrow> (case run demo_jsonb st T of Inl code \<Rightarrow> (Inl (Fresh code), db)
            | Inr (n, T') \<Rightarrow> (Inr n, (case k of None \<Rightarrow> (T', snd db)
                                     | Some _ \<Rightarrow> (fst db, map_option (\<lambda>sts. sts @ [st]) (snd db)))))),
      pgWallet = demo_query t_wallets,
      pgProposal = demo_query (\<lambda>T (i, lock). map_option rowProposal (t_proposals T i)),
      pgIdempotency = demo_query t_idem,
      pgListAudit = \<lambda>c rid limit db. (Inr (map Inr (take (nat limit) (rev (sort_key vCreatedAt
          (filter (\<lambda>e. rid = [] \<or> vResourceID e = rid) (t_audit (fst db)))))), None), db),
      pgNoRows = Sentinel ''no rows in result set'',
      pgCode = \<lambda>e. (case e of Fresh code \<Rightarrow> Some code | _ \<Rightarrow> None),
      goNow = \<lambda>db. 0, goParse = \<lambda>s. None\<rparr>"

lemma demo_query_law:
  "query_law (Sentinel ''no rows in result set'') (seen demo_jsonb fst demo_pend) fst demo_pend (demo_query select) select"
  unfolding query_law_def demo_query_def demo_seen_def
  by (auto split: option.splits)

lemma demo_listing:
  "listing rid limit log (take (nat limit) (rev (sort_key vCreatedAt (filter (\<lambda>e. rid = [] \<or> vResourceID e = rid) log))))"
proof -
  let ?all = "rev (sort_key vCreatedAt (filter (\<lambda>e. rid = [] \<or> vResourceID e = rid) log))"
  have "sorted (map vCreatedAt (rev ?all))" by simp
  then have "sorted_wrt (\<lambda>a b. vCreatedAt b \<le> vCreatedAt a) ?all" by (simp add: sorted_wrt_rev sorted_map)
  then show ?thesis unfolding listing_def by (intro exI [of _ ?all]) simp
qed

lemma demo_serves: "pg_serves demo_jsonb fst demo_pend demo_pg"
proof -
  have seen: "demo_seen k db = Some T \<longleftrightarrow> seen demo_jsonb fst demo_pend k db = Some T" for k db T
    by (simp add: demo_seen_def)
  have "exec_law demo_jsonb fst demo_pend demo_pg"
    unfolding exec_law_def demo_pg_def
    by (auto simp: demo_seen_def demo_pend_def split: option.splits sum.splits prod.splits)
  moreover have "transaction_law demo_jsonb fst demo_pend demo_pg"
    unfolding transaction_law_def demo_pg_def
    by (auto simp: demo_seen_def demo_pend_def split: option.splits)
  moreover have "list_law fst demo_pg"
    unfolding list_law_def using demo_listing
    by (auto simp: demo_pg_def inj_on_def dest!: map_injective)
  moreover have "connect_law fst demo_pg" by (simp add: connect_law_def demo_pg_def)
  ultimately show ?thesis
    unfolding pg_serves_def using demo_query_law [of t_wallets] demo_query_law [of t_idem]
      demo_query_law [of "\<lambda>T (i, lock). map_option rowProposal (t_proposals T i)"]
    by (simp add: demo_pg_def)
qed

end
