(* ===== verification/Postgres_Properties.thy ===== *)
theory Postgres_Properties
  imports Postgres_Demo Demo_Run
begin

section \<open>Properties of the program on PostgreSQL\<close>

text \<open>
  The custody guarantees of the program when \<^verbatim>\<open>DATABASE_URL\<close> is set, over any database and driver
  that behave as documented, each applied to a concrete database.
\<close>

subsection \<open>A concrete database with a signed transaction\<close>

definition demo_tx :: TransactionProposal where
  "demo_tx =
     \<lparr>pID = ''txn_1'', pWalletID = ''wlt_1'', pChain = ChainEVM, pStatus = TransactionStatusSigned,
      pRequest = zero_request\<lparr>rWalletID := ''wlt_1'', rTo := ''0x02'', rAmount := ''5''\<rparr>,
      pRawTransaction = \<lparr>rawChain = ChainEVM, Payload = []\<rparr>,
      pApprovals = Some [(''alice'', \<lparr>SignerID = ''alice'', aCreatedAt = 0\<rparr>), (''bob'', \<lparr>SignerID = ''bob'', aCreatedAt = 0\<rparr>)],
      pSignedTransaction = ''0xaa'', pBroadcastHash = [], pError = [], pTrace = None, pCreatedAt = 0, pUpdatedAt = 0\<rparr>"

definition demo_doc :: string where
  "demo_doc = json_text (the (proposal_json demo_tx))"

definition demo_wallet_row :: Wallet where
  "demo_wallet_row = \<lparr>wID = ''wlt_1'', wChain = ChainEVM, wAddress = ''0x01'', wPublicKey = [], wCreatedAt = 0\<rparr>"

definition demo_row :: proposal_row where
  "demo_row =
     \<lparr>rowID = ''txn_1'', rowWalletID = ''wlt_1'', rowChain = ChainEVM, rowStatus = TransactionStatusSigned,
      rowProposal = demo_doc, rowCreatedAt = 0, rowUpdatedAt = 0\<rparr>"

definition demo_tables :: tables where
  "demo_tables = no_tables\<lparr>t_wallets := [''wlt_1'' \<mapsto> demo_wallet_row], t_proposals := [''txn_1'' \<mapsto> demo_row]\<rparr>"

lemma demo_tx_json:
  "case proposal_json demo_tx of None \<Rightarrow> False
   | Some j \<Rightarrow> distinct_keys (reread j) \<and> CHR 0x5C \<notin> set (json_text j)"
  by code_simp

lemma demo_marshal: "marshal_proposal demo_tx = Inr demo_doc"
  using demo_tx_json by (auto simp: marshal_proposal_def demo_doc_def split: option.splits)

lemma demo_doc_kept: "demo_jsonb demo_doc = Some demo_doc"
proof -
  obtain j where j: "proposal_json demo_tx = Some j" "distinct_keys (reread j)" "CHR 0x5C \<notin> set (json_text j)"
    using demo_tx_json by (auto split: option.splits)
  have "reads (json_text j) (reread j)" by (rule reads_text [OF printable_proposal [OF j(1)]])
  with j show ?thesis by (simp add: demo_jsonb_def demo_doc_def reads_def del: parse_value.simps)
qed

lemma demo_tx_ok:
  "wf_proposal demo_tx" "fits utf8_ok demo_tx" "utf8_ok (pID demo_tx)" "utf8_ok (pStatus demo_tx)"
  "utf8_ok (pSignedTransaction demo_tx)" "utf8_ok (pBroadcastHash demo_tx)" "utf8_ok (pError demo_tx)"
  by (simp_all add: demo_tx_def wf_proposal_def approvals_def fits_def utf8_ok_ascii zero_request_def ChainEVM_def
      TransactionStatusSigned_def)

lemma demo_decoded:
  obtains q where "decode_row P demo_row = Some q" and "pg_kept demo_tx q"
proof -
  obtain q where "unmarshal_proposal (goParse P) demo_doc = Inr q" "pg_kept demo_tx q"
    by (rule stored_document [OF demo_jsonb_law demo_marshal demo_doc_kept demo_tx_ok(1-4)])
  with that show ?thesis by (simp add: decode_row_def demo_row_def)
qed

lemma big_amount: "validateAmountPolicy zero_policy ChainEVM ''5'' = None"
  by (simp add: validateAmountPolicy_def zero_policy_def ChainEVM_def ChainBitcoin_def big_5)

lemma demo_sound: "pg_sound demo_pg demo_tables"
proof -
  obtain q where q: "decode_row demo_pg demo_row = Some q" "pg_kept demo_tx q" by (rule demo_decoded)
  from q(2) have sc: "same_custody demo_tx q" and wf: "wf_proposal q" and fit: "fits utf8_ok q" by (auto simp: kept_def)
  have keys: "set (gkeys (approvals q)) = {''alice'', ''bob''}"
    using same_custody_keys [OF sc] by (simp add: demo_tx_def approvals_def)
  have two: "ApprovalsCount q = 2"
    using same_custody_count [OF sc demo_tx_ok(1) wf] by (simp add: ApprovalsCount_def demo_tx_def approvals_def)
  have f: "pID q = ''txn_1''" "pWalletID q = ''wlt_1''" "pChain q = ChainEVM" "pStatus q = TransactionStatusSigned"
      "rAmount (pRequest q) = ''5''" "pBroadcastHash q = []"
    using sc by (simp_all add: same_custody_def demo_tx_def zero_request_def)
  have "custody_ok zero_policy q"
    using keys two f by (auto simp: custody_ok_def laxest_signers big_amount TransactionStatusSigned_def
        TransactionStatusProposed_def TransactionStatusBroadcast_def)
  then show ?thesis
    using q(1) wf fit f
    by (auto simp: pg_sound_def pg_ok_def view_ok_def pg_view_def demo_tables_def no_tables_def demo_row_def demo_wallet_row_def
        utf8_ok_ascii ChainEVM_def bind_eq_Some_conv split: if_splits)
qed

text \<open>Starting the program on that database.\<close>

definition demo_pg_cfg :: Config where
  "demo_pg_cfg = demo_cfg\<lparr>DatabaseURL := ''postgres://db''\<rparr>"

lemma sorted_migrations: "RunMigrations P c = run_scripts P c [''001_init.sql'', ''002_audit_policy.sql'']"
proof -
  have "sort (map fst (filter (\<lambda>(name, script). script \<noteq> None) migrationFiles)) = [''001_init.sql'', ''002_audit_policy.sql'']"
    by code_simp
  then show ?thesis unfolding RunMigrations_def Let_def by simp
qed

lemma scripts_succeed:
  "\<exists>ns. run_script (the (the (map_of migrationFiles ''001_init.sql''))) names = Inr ns"
  "\<exists>ns. run_script (the (the (map_of migrationFiles ''002_audit_policy.sql''))) names = Inr ns"
  by (auto simp: migrationFiles_def split: if_splits)

lemma demo_script:
  assumes "run_script ds (schema T) = Inr ns"
  shows "pgExec demo_pg c None (Script ds) (T, None) = (Inr 0, (T\<lparr>schema := ns\<rparr>, None))"
  using assms by (simp add: demo_pg_def demo_seen_def seen_def)

lemma demo_open: "\<exists>ns. exec (OpenPostgres demo_pg c url) (T, None) = (Inr (), (T\<lparr>schema := ns\<rparr>, None))"
proof -
  obtain n1 where n1: "run_script (the (the (map_of migrationFiles ''001_init.sql''))) (schema T) = Inr n1"
    using scripts_succeed(1) by blast
  obtain n2 where n2: "run_script (the (the (map_of migrationFiles ''002_audit_policy.sql''))) n1 = Inr n2"
    using scripts_succeed(2) by blast
  have "pgNew demo_pg c url (T, None) = (Inr (), (T, None))" by (simp add: demo_pg_def)
  with demo_script [OF n1] demo_script [of _ "T\<lparr>schema := n1\<rparr>" n2] n2 show ?thesis
    by (intro exI [of _ n2]) (simp add: OpenPostgres_def sorted_migrations)
qed

lemma demo_pg_starts:
  obtains w ns where "pg_starts demo_pg None demo_lib demo_pg_cfg demo_surroundings (T, None) w"
    and "w_store w = (T\<lparr>schema := ns\<rparr>, None)"
proof -
  obtain ns where open_ok: "exec (OpenPostgres demo_pg None ''postgres://db'') (T, None) = (Inr (), (T\<lparr>schema := ns\<rparr>, None))"
    using demo_open by blast
  obtain w where w: "boot_on (T\<lparr>schema := ns\<rparr>, None :: stmt list option) demo_lib demo_pg_cfg demo_surroundings = Inr w"
    by (simp add: boot_on_def demo_pg_cfg_def NewDemoQuorumBackend_def WithEVMPrivateKey_def)
  have "pg_starts demo_pg None demo_lib demo_pg_cfg demo_surroundings (T, None) w"
    using open_ok w by (auto simp: pg_starts_def openStore_def demo_pg_cfg_def)
  with that boot_on_store [OF w] show ?thesis by blast
qed

subsection \<open>Properties\<close>





end
