(* ===== verification/Postgres_Behaviour.thy ===== *)
theory Postgres_Behaviour
  imports Postgres_Properties
begin

section \<open>Behaviour of the PostgreSQL store\<close>

text \<open>
  What single operations of the store do: the contract they implement, the round trip of a
  document through a \<^verbatim>\<open>JSONB\<close> column, the migrations, and what is returned for an idempotency
  key that another request took first.
\<close>







lemma wallet_of_the_winner:
  assumes "pg_serves jb tabs pend P" and "exec (walletForIdempotency P c scope key) db = (rw, db1)"
  shows "tabs db1 = tabs db \<and> (\<forall>x created. rw = Inr (x, created) \<longrightarrow> \<not> created \<and>
    (case t_idem (tabs db) (scope, key) of None \<Rightarrow> x = zero_wallet
     | Some record \<Rightarrow> t_wallets (tabs db) (iResourceID record) = Some x))"
proof -
  have pool: "seen jb tabs pend None d = Some (tabs d)" for d by (simp add: seen_def)
  obtain r db0 where look: "pgIdempotency P c None (scope, key) db = (r, db0)" by (cases "pgIdempotency P c None (scope, key) db")
  note R = read_idempotency [OF assms(1) pool look]
  show ?thesis
  proof (cases "found_record P r")
    case (Inl e)
    with assms(2) look R(1) show ?thesis by (auto simp: walletForIdempotency_def getIdempotencyPool_def)
  next
    case (Inr found)
    note found = R(3) [OF Inr]
    show ?thesis
    proof (cases found)
      case None
      with assms(2) look R(1) Inr found show ?thesis by (auto simp: walletForIdempotency_def getIdempotencyPool_def)
    next
      case (Some rec)
      have rec: "t_idem (tabs db) (scope, key) = Some rec" "found_record P r = Inr (Some rec)" using found Inr Some by simp_all
      obtain x d where g: "pgWallet P c None (iResourceID rec) db0 = (x, d)"
        by (cases "pgWallet P c None (iResourceID rec) db0")
      with assms(2) look R(1) rec read_wallet [OF assms(1) pool g] show ?thesis
        by (auto simp: walletForIdempotency_def getIdempotencyPool_def pg_GetWallet_def split: sum.splits)
    qed
  qed
qed

lemma transaction_of_the_winner:
  assumes "pg_serves jb tabs pend P" and "exec (transactionForIdempotency P c scope key) db = (rt, db2)"
  shows "tabs db2 = tabs db \<and> (\<forall>x created. rt = Inr (x, created) \<longrightarrow> \<not> created \<and>
    (case t_idem (tabs db) (scope, key) of None \<Rightarrow> x = zero_proposal
     | Some record \<Rightarrow> \<exists>row. t_proposals (tabs db) (iResourceID record) = Some row \<and> decode_row P row = Some x))"
proof -
  have pool: "seen jb tabs pend None d = Some (tabs d)" for d by (simp add: seen_def)
  obtain r db0 where look: "pgIdempotency P c None (scope, key) db = (r, db0)" by (cases "pgIdempotency P c None (scope, key) db")
  note R = read_idempotency [OF assms(1) pool look]
  show ?thesis
  proof (cases "found_record P r")
    case (Inl e)
    with assms(2) look R(1) show ?thesis by (auto simp: transactionForIdempotency_def getIdempotencyPool_def)
  next
    case (Inr found)
    note found = R(3) [OF Inr]
    show ?thesis
    proof (cases found)
      case None
      with assms(2) look R(1) Inr found show ?thesis by (auto simp: transactionForIdempotency_def getIdempotencyPool_def)
    next
      case (Some rec)
      have rec: "t_idem (tabs db) (scope, key) = Some rec" "found_record P r = Inr (Some rec)" using found Inr Some by simp_all
      obtain x d where g: "pgProposal P c None (iResourceID rec, False) db0 = (x, d)"
        by (cases "pgProposal P c None (iResourceID rec, False) db0")
      with assms(2) look R(1) rec read_proposal [OF assms(1) pool g] show ?thesis
        by (auto simp: transactionForIdempotency_def getIdempotencyPool_def pg_GetTransaction_def bind_eq_Some_conv
            split: sum.splits)
    qed
  qed
qed



end
