(* ===== verification/API_Properties.thy ===== *)
theory API_Properties
  imports API_Answers Demo_Run
begin

section \<open>Properties of the HTTP interface\<close>

text \<open>
  Whatever server the handlers run on: every request finishes, every answer has the form the
  clients rely on, a request without a valid key touches nothing, errors of the service reach
  the client under their own status, and the paths of the API lead to their handlers.
\<close>

subsection \<open>Answers\<close>







subsection \<open>Access\<close>

text \<open>What custody rests on: the store, the keys and the state of the adapters.\<close>

definition keeps_custody :: "('st, 'sg, 'ad) world \<Rightarrow> ('st, 'sg, 'ad) world \<Rightarrow> bool" where
  "keeps_custody w w' \<longleftrightarrow> w_store w' = w_store w \<and> w_signer w' = w_signer w \<and> w_adapters w' = w_adapters w"

lemma keeps_custody_steps [simp]:
  "keeps_custody w (snd (now w))" "keeps_custody w (snd (metrics_Inc n l w))"
  "keeps_custody w (snd (metrics_Observe n l d w))" "keeps_custody w (snd (rand_Read k w))" "keeps_custody w w"
  by (simp_all add: keeps_custody_def now_def metrics_Inc_def metrics_Observe_def rand_Read_def)

lemma serve_without_key:
  assumes "apiKeys s \<noteq> []" and "provided_key r \<notin> set (apiKeys s)"
  shows "serve L fmt_g fmt_sec mux s trace r \<in>
     {Return (mux r), health r, ready r, metricsHandler fmt_g fmt_sec r,
      Return (writeError 401 (Fresh ''missing or invalid api key''))}"
  using assms by (auto simp: serve_def requireAPIKey_def Let_def)


definition locked_server :: "(MemoryStore, DemoQuorumBackend, unit adapters) Server" where
  "locked_server = demo_server\<lparr>apiKeys := [''s3cret'']\<rparr>"


text \<open>
  C36. A refused approval reaches the client under the status of its reason and changes
  nothing: 403 for a signer the policy does not allow, 404 for an unknown transaction, 400 for
  one that is no longer a proposal or that the signer has approved already. A missing
  \<^verbatim>\<open>signer_id\<close> is answered with 500.
\<close>

theorem refused_approval_statuses:
  assumes "svStore (srvService s) = memory_store" and "shd (w_ctx w) = None"
    and "utf8_ok signer" and "rqBody r = json_text (JObj [(''signer_id'', JStr signer)])"
    and "\<not> (\<exists>p. transactions (w_store w) i = Some p \<and> may_approve (svPolicy (srvService s)) signer p)"
    and "exec (api_cosign L s i r) w = (resp, w')"
  shows "rsStatus resp =
       (if signer = [] then 500
        else if \<not> signerAllowed (svPolicy (srvService s)) signer then 403
        else case transactions (w_store w) i of None \<Rightarrow> 404 | Some p \<Rightarrow> 400) \<and>
     error_answer resp \<and> w_store w' = w_store w \<and> w_signer w' = w_signer w"
proof -
  let ?e = "cosign_refusal (svPolicy (srvService s)) (w_store w) i signer"
  have decoded: "decodeJSON L [str_field ''signer_id'' (\<lambda>c _. c)] [] r = Inr signer"
    by (rule decode_single [OF assms(3) _ assms(4)]) (simp add: utf8_ok_ascii)
  note refused = exec_CoSign_refused [OF assms(1,2,5)]
  have resp: "resp = writeError (statusFor ?e) ?e" "w' = snd (exec (CoSign (srvService s) i signer) w)"
    using assms(6) refused(1) by (auto simp: api_cosign_def decoded answer_def split: prod.splits)
  have "error_answer resp" unfolding resp(1) using statusFor_range [of ?e] by (intro error_answer_writeError) auto
  moreover have "rsStatus resp = statusFor ?e" by (simp add: resp(1) writeError_def writeJSON_def)
  moreover have "statusFor ?e = (if signer = [] then 500
        else if \<not> signerAllowed (svPolicy (srvService s)) signer then 403
        else case transactions (w_store w) i of None \<Rightarrow> 404 | Some p \<Rightarrow> 400)"
    by (auto simp: statusFor_def cosign_refusal_def sentinel_defs split: option.splits)
  ultimately show ?thesis using refused(2,3) resp(2) by presburger
qed

theorem refused_approval_statuses_witness:
  "\<exists>(w :: unit system) j. transactions (w_store w) j \<noteq> None \<and>
     rsStatus (fst (exec (api_cosign demo_lib demo_server j (post [] [(''signer_id'', JStr ''mallory'')])) w)) = 403 \<and>
     w_store (snd (exec (api_cosign demo_lib demo_server j (post [] [(''signer_id'', JStr ''mallory'')])) w)) = w_store w"
proof -
  obtain w ts j p where w: "demo_reach (w, ts)" "calm w" and p: "demo_pending 0 (w_store w) (w_signer w) j p"
    by (rule demo_proposed)
  let ?x = "exec (api_cosign demo_lib demo_server j (post [] [(''signer_id'', JStr ''mallory'')])) w"
  have no: "\<not> signerAllowed (svPolicy (srvService demo_server)) ''mallory''" by (simp add: signerAllowed_system)
  have "transactions (w_store w) j \<noteq> None" using p by (simp add: demo_pending_def)
  moreover have "rsStatus (fst ?x) = 403 \<and> w_store (snd ?x) = w_store w"
    using refused_approval_statuses [of demo_server w "''mallory''" "post [] [(''signer_id'', JStr ''mallory'')]" j
        demo_lib "fst ?x" "snd ?x"] no calm_ctx [OF w(2)]
    by (auto simp: may_approve_def utf8_ok_ascii)
  ultimately show ?thesis by blast
qed

subsection \<open>Routes\<close>

lemma id_in_path:
  assumes "is_id ''txn'' i"
  shows "CHR ''/'' \<notin> set i" and "i \<noteq> []" and "i \<noteq> ''.''" and "i \<noteq> ''..''"
  using assms by (auto simp: is_id_def dest: hex_chars)

lemma serve_action:
  assumes "path = i \<or> path = i @ ''/cosign'' \<or> path = i @ ''/broadcast''"
    and "is_id ''txn'' i" and "rqPath r = ''/v1/transactions/'' @ path" and "rqMethod r = ''GET'' \<or> rqMethod r = ''POST''"
    and "apiKeys s = [] \<or> provided_key r \<in> set (apiKeys s)"
  shows "serve L fmt_g fmt_sec mux s trace r = transactionAction L s r"
proof -
  have "clean_path (rqPath r)"
    using assms(1,3) id_in_path [OF assms(2)] by (auto simp: clean_path_def HasPrefix_def Split_append Split_notin)
  with assms show ?thesis by (auto simp: serve_def requireAPIKey_def HasPrefix_def Let_def)
qed

text \<open>
  C37. The paths of a transaction lead to their handlers: with an identifier that \<^verbatim>\<open>ids.New\<close>
  can return and a key that is accepted, \<^verbatim>\<open>GET /v1/transactions/{id}\<close> reads that transaction,
  and \<^verbatim>\<open>POST\<close> to its \<^verbatim>\<open>cosign\<close> and \<^verbatim>\<open>broadcast\<close> approves and broadcasts it.
\<close>

theorem transaction_routes:
  assumes "is_id ''txn'' i" and "apiKeys s = [] \<or> provided_key r \<in> set (apiKeys s)"
  shows "(rqMethod r = ''GET'' \<and> rqPath r = ''/v1/transactions/'' @ i \<longrightarrow>
         serve L fmt_g fmt_sec mux s trace r = api_getTransaction s i r) \<and>
     (rqMethod r = ''POST'' \<and> rqPath r = ''/v1/transactions/'' @ i @ ''/cosign'' \<longrightarrow>
         serve L fmt_g fmt_sec mux s trace r = api_cosign L s i r) \<and>
     (rqMethod r = ''POST'' \<and> rqPath r = ''/v1/transactions/'' @ i @ ''/broadcast'' \<longrightarrow>
         serve L fmt_g fmt_sec mux s trace r = api_broadcast s i r)"
proof -
  note i = id_in_path [OF assms(1)]
  note serve = serve_action [OF _ assms(1) _ _ assms(2)]
  have "serve L fmt_g fmt_sec mux s trace r = api_getTransaction s i r"
    if "rqMethod r = ''GET''" and path: "rqPath r = ''/v1/transactions/'' @ i"
    using serve [OF _ path] that(1) parse_path_get [OF i(2,1)]
    unfolding path [symmetric] by (simp add: transactionAction_def)
  moreover have "serve L fmt_g fmt_sec mux s trace r = api_cosign L s i r"
    if "rqMethod r = ''POST''" and path: "rqPath r = ''/v1/transactions/'' @ i @ ''/'' @ ''cosign''"
    using serve [OF _ path] that(1) parse_path_action [OF i(2,1), of "''cosign''"]
    unfolding path [symmetric] by (simp add: transactionAction_def)
  moreover have "serve L fmt_g fmt_sec mux s trace r = api_broadcast s i r"
    if "rqMethod r = ''POST''" and path: "rqPath r = ''/v1/transactions/'' @ i @ ''/'' @ ''broadcast''"
    using serve [OF _ path] that(1) parse_path_action [OF i(2,1), of "''broadcast''"]
    unfolding path [symmetric] by (simp add: transactionAction_def)
  ultimately show ?thesis by simp
qed

theorem transaction_routes_witness:
  "serve demo_lib (\<lambda>_. []) (\<lambda>_. []) (\<lambda>_. writeJSON 404 None) demo_server None
     (post (''/v1/transactions/txn_'' @ hex_EncodeToString (replicate 16 7) @ ''/cosign'') []) =
   api_cosign demo_lib demo_server (''txn_'' @ hex_EncodeToString (replicate 16 7))
     (post (''/v1/transactions/txn_'' @ hex_EncodeToString (replicate 16 7) @ ''/cosign'') [])"
proof -
  have "is_id ''txn'' (''txn_'' @ hex_EncodeToString (replicate 16 7))"
    unfolding is_id_def by (intro exI [of _ "replicate 16 7"]) simp
  from transaction_routes [OF this, of demo_server
      "post (''/v1/transactions/txn_'' @ hex_EncodeToString (replicate 16 7) @ ''/cosign'') []"]
  show ?thesis by simp
qed

subsection \<open>Traces\<close>

text \<open>
  C38. The trace of a request is its own header's when that has the length of a \<^verbatim>\<open>traceparent\<close>,
  and otherwise a new one from the random source; the header of the response reads back as the
  same trace. When the random source fails, the replacement for the trace identifier is too
  short, and what is returned reads back as no trace at all.
\<close>

theorem trace_header_roundtrip:
  assumes "exec (Handler L fmt_g fmt_sec other mux s r) w = ((h, resp), w')"
  shows "(length (header_Get r ''traceparent'') = 55 \<longrightarrow>
        traceFromHeader h = traceFromHeader (header_Get r ''traceparent'')) \<and>
     (length (header_Get r ''traceparent'') \<noteq> 55 \<longrightarrow> shd (w_rand w) = Inr a \<longrightarrow> shd (stl (w_rand w)) = Inr b \<longrightarrow>
        traceFromHeader h = \<lparr>TraceID = hex_EncodeToString (map a [0..<16]), SpanID = hex_EncodeToString (map b [0..<8])\<rparr>) \<and>
     (length (header_Get r ''traceparent'') \<noteq> 55 \<longrightarrow> isl (shd (w_rand w)) \<longrightarrow>
        traceFromHeader h = \<lparr>TraceID = [], SpanID = []\<rparr>)"
proof -
  let ?hd = "header_Get r ''traceparent''" and ?w = "w\<lparr>w_clock := stl (w_clock w)\<rparr>"
  have h: "h = traceparent (fst (exec (new_trace r) ?w))"
    using assms by (auto simp: Handler_def Middleware_def now_def Let_def split: prod.splits)
  have long: "fst (exec (new_trace r) ?w) = traceFromHeader ?hd" if "length ?hd = 55"
    using that by (auto simp: new_trace_def traceFromHeader_def Let_def)
  have fresh: "fst (exec (new_trace r) ?w) =
      \<lparr>TraceID = randomHex (fst (rand_Read 16 ?w)), SpanID = randomHex (fst (rand_Read 8 (snd (rand_Read 16 ?w))))\<rparr>"
    if "length ?hd \<noteq> 55"
    using that by (auto simp: new_trace_def traceFromHeader_def Let_def split: prod.splits)
  show ?thesis
  proof (intro conjI impI)
    assume "length ?hd = 55"
    then show "traceFromHeader h = traceFromHeader ?hd"
      unfolding h long [OF \<open>length ?hd = 55\<close>]
      by (intro traceFromHeader_traceparent) (simp_all add: traceFromHeader_def)
  next
    assume "length ?hd \<noteq> 55" "shd (w_rand w) = Inr a" "shd (stl (w_rand w)) = Inr b"
    then show "traceFromHeader h = \<lparr>TraceID = hex_EncodeToString (map a [0..<16]), SpanID = hex_EncodeToString (map b [0..<8])\<rparr>"
      unfolding h fresh [OF \<open>length ?hd \<noteq> 55\<close>]
      by (subst traceFromHeader_traceparent) (simp_all add: rand_Read_def randomHex_def)
  next
    assume "length ?hd \<noteq> 55" "isl (shd (w_rand w))"
    then show "traceFromHeader h = \<lparr>TraceID = [], SpanID = []\<rparr>"
      unfolding h fresh [OF \<open>length ?hd \<noteq> 55\<close>]
      by (cases "shd (w_rand w)"; cases "shd (stl (w_rand w))")
        (auto simp: traceFromHeader_def traceparent_def rand_Read_def randomHex_def)
  qed
qed

definition traced_request :: http_request where
  "traced_request =
     \<lparr>rqMethod = ''GET'', rqPath = ''/healthz'', rqQuery = [],
      rqHeader = [(''Traceparent'', traceparent \<lparr>TraceID = replicate 32 CHR ''a'', SpanID = replicate 16 CHR ''b''\<rparr>)],
      rqBody = []\<rparr>"

theorem trace_header_roundtrip_witness:
  "\<exists>(w :: unit system) ts h resp w'. demo_reach (w, ts) \<and> exec (demo_handler traced_request) w = ((h, resp), w') \<and>
     traceFromHeader h = \<lparr>TraceID = replicate 32 CHR ''a'', SpanID = replicate 16 CHR ''b''\<rparr>"
proof -
  obtain w ts where w: "demo_reach (w, ts)" by (rule demo_start)
  obtain h resp w' where x: "exec (demo_handler traced_request) w = ((h, resp), w')"
    by (cases "exec (demo_handler traced_request) w") auto
  have key: "CanonicalHeaderKey True ''traceparent'' = ''Traceparent''" by code_simp
  have hd: "header_Get traced_request ''traceparent'' =
      traceparent \<lparr>TraceID = replicate 32 CHR ''a'', SpanID = replicate 16 CHR ''b''\<rparr>"
    by (simp add: traced_request_def header_Get_def get_first_def key del: CanonicalHeaderKey.simps)
  then have "traceFromHeader h = \<lparr>TraceID = replicate 32 CHR ''a'', SpanID = replicate 16 CHR ''b''\<rparr>"
    using trace_header_roundtrip [OF x, where a = undefined and b = undefined]
    by (simp add: traceFromHeader_traceparent) (simp add: traceparent_def)
  with w x show ?thesis by blast
qed

end
