(* ===== verification/EVM_Properties.thy ===== *)
theory EVM_Properties
  imports Demo_Run
begin

section \<open>From an EVM request to the transaction on the network\<close>

text \<open>
  The three places an EVM transaction passes through, taken together: the adapter writes the
  request into a JSON payload, the signing backend reads the payload and signs, and the adapter
  sends what was signed. go-ethereum's functions are arguments; the broadcast relies on its
  documented codec (\<^const>\<open>tx_codec\<close>).
\<close>

definition evm_request_tx ::
  "'tx External \<Rightarrow> evm_Adapter \<Rightarrow> TransactionRequest \<Rightarrow> uint64 \<Rightarrow> int \<Rightarrow> int \<Rightarrow> byte list \<Rightarrow> DynamicFeeTx" where
  "evm_request_tx L a r nonce amount fee dat =
     \<lparr>txChainID = int (unat (chainID a)), txNonce = nonce, txGasTipCap = fee, txGasFeeCap = fee,
      txGas = rGasLimit r, txTo = HexToAddress L (rTo r), txValue = amount, txData = dat\<rparr>"

definition finish_signature :: "'tx External \<Rightarrow> error + 'tx \<Rightarrow> error + Signature" where
  "finish_signature L signedTx =
     (case signedTx of Inl err \<Rightarrow> Inl err
      | Inr tx \<Rightarrow> (case MarshalBinary L tx of Inl err \<Rightarrow> Inl err
          | Inr bs \<Rightarrow> Inr \<lparr>SignedTransaction = ''0x'' @ hex_EncodeToString bs, SignatureID = Hash_Hex L tx\<rparr>))"

text \<open>
  C12. What is signed is what was requested. For a payload the adapter built without a node,
  the backend signs, with the key it keeps for the wallet, exactly the transaction with the
  request's destination, amount, gas limit, fee and call data, the adapter's chain and the
  nonce of the address; the result is its binary form in hexadecimal with its hash.
\<close>

theorem evm_signs_the_request:
  assumes "rpcURL a = []" and "list_all utf8_ok [wAddress source, rTo r, rMaxFeePerGas r, rData r]"
    and "evm_request_ok r" and "big_SetString (rAmount r) = Some amount" and "big_SetString (rMaxFeePerGas r) = Some fee"
    and "hex_DecodeString (TrimPrefix (rData r) ''0x'') = Inr dat"
    and "evm_BuildTransaction L C a None source r st = (Inr raw, st')"
    and "pRawTransaction p = raw" and "pChain p = ChainEVM" and "2 \<le> ApprovalsCount p"
    and "map_of (records b) (pWalletID p) = Some k"
  shows "demo_SignTransaction L None p b =
     (finish_signature L (SignTx L (evm_request_tx L a r (nonce_of st (wAddress source)) amount fee dat)
        (int (unat (chainID a))) (kPrivate k)), b)"
proof -
  let ?e = "evm_local_payload a source r (shd (ad_clock st)) (nonce_of st (wAddress source))"
  have payload: "unmarshal_evm_payload (Payload (pRawTransaction p)) = Inr ?e"
    using evm_payload_roundtrip [OF utf8_local_payload [OF assms(3,2)]]
      evm_Build_local_ok [OF assms(1,3), of L C source st] assms(7,8)
    by auto
  have "eValueWei ?e = rAmount r" "eMaxFeePerGas ?e = rMaxFeePerGas r" "eMaxPriorityFeePerGas ?e = rMaxFeePerGas r"
    "eData ?e = rData r" "eChainID ?e = chainID a" "eNonce ?e = nonce_of st (wAddress source)"
    "eGasLimit ?e = rGasLimit r" "eTo ?e = rTo r"
    by (simp_all add: evm_local_payload_def evm_base_payload_def)
  with payload have "signEVMTransaction L p (kPrivate k) =
      finish_signature L (SignTx L (evm_request_tx L a r (nonce_of st (wAddress source)) amount fee dat)
        (int (unat (chainID a))) (kPrivate k))"
    by (simp add: signEVMTransaction_def assms(4-6) evm_request_tx_def finish_signature_def)
  with assms(9-11) show ?thesis by (simp add: demo_SignTransaction_def quorumThreshold_def)
qed

text \<open>A request, its wallet and a backend with the wallet's key, to see both at work.\<close>

definition demo_source :: Wallet where
  "demo_source = \<lparr>wID = ''w'', wChain = ChainEVM, wAddress = ''0x01'', wPublicKey = [], wCreatedAt = 0\<rparr>"

definition demo_chains :: "unit adapters" where
  "demo_chains = \<lparr>nonces = [(''0x01'', 4)], ad_clock = sconst 0, ad_rpc = ()\<rparr>"

definition demo_keys :: DemoQuorumBackend where
  "demo_keys =
     \<lparr>records = [(''w'', \<lparr>kChain = ChainEVM, kPrivate = demo_key, kPublicKey = [], kAddress = ''0x01''\<rparr>)],
      evmPrivateKey = None, b_rand = sconst (Inr (\<lambda>_. 0)), b_clock = sconst 0\<rparr>"

definition demo_built :: RawTransaction where
  "demo_built =
     \<lparr>rawChain = ChainEVM, Payload = json_text (evm_payload_json
        (evm_local_payload demo_evm demo_source (demo_request_of ''w'') 0 4))\<rparr>"

definition demo_approved_tx :: TransactionProposal where
  "demo_approved_tx =
     (new_proposal demo_source \<lparr>TraceID = [], SpanID = []\<rparr> (demo_request_of ''w'') demo_built ''t'' 0)
       \<lparr>pApprovals := Some [(''alice'', \<lparr>SignerID = ''alice'', aCreatedAt = 0\<rparr>), (''bob'', \<lparr>SignerID = ''bob'', aCreatedAt = 0\<rparr>)]\<rparr>"

lemma demo_build_built:
  "evm_BuildTransaction demo_lib demo_client demo_evm None demo_source (demo_request_of ''w'') demo_chains =
     (Inr demo_built, demo_chains\<lparr>nonces := gput ''0x01'' 5 (nonces demo_chains)\<rparr>)"
proof -
  have "rpcURL demo_evm = []" by (simp add: evm_NewAdapter_def)
  from evm_Build_local_ok [OF this demo_request_fields(2), of demo_lib demo_client demo_source "''w''" demo_chains]
  show ?thesis by (simp add: demo_built_def demo_chains_def demo_source_def nonce_of_def)
qed

lemma demo_approved_fields:
  "pRawTransaction demo_approved_tx = demo_built" "pChain demo_approved_tx = ChainEVM"
  "ApprovalsCount demo_approved_tx = 2" "pWalletID demo_approved_tx = ''w''"
  by (simp_all add: demo_approved_tx_def new_proposal_def demo_source_def ApprovalsCount_def approvals_def)

theorem evm_signs_the_request_witness:
  "fst (demo_SignTransaction demo_lib None demo_approved_tx demo_keys) =
     Inr \<lparr>SignedTransaction = ''0x'' @ hex_EncodeToString (be_bytes 32 5), SignatureID = ''0x'' @ hex_EncodeToString (be_bytes 32 5)\<rparr>"
proof -
  have hyps: "rpcURL demo_evm = []" "hex_DecodeString (TrimPrefix (rData (demo_request_of ''w'')) ''0x'') = Inr []"
    "list_all utf8_ok [wAddress demo_source, rTo (demo_request_of ''w''), rMaxFeePerGas (demo_request_of ''w''), rData (demo_request_of ''w'')]"
    "big_SetString (rAmount (demo_request_of ''w'')) = Some 5" "big_SetString (rMaxFeePerGas (demo_request_of ''w'')) = Some 7"
    by (simp_all add: evm_NewAdapter_def demo_request_fields demo_source_def big_5 big_7 utf8_ok_ascii
        TrimPrefix_def HasPrefix_def)
  have key: "map_of (records demo_keys) (pWalletID demo_approved_tx) =
      Some \<lparr>kChain = ChainEVM, kPrivate = demo_key, kPublicKey = [], kAddress = ''0x01''\<rparr>"
    by (simp add: demo_keys_def demo_approved_fields)
  show ?thesis
    using evm_signs_the_request [OF hyps(1,3) demo_request_fields(2) hyps(4,5,2) demo_build_built
        demo_approved_fields(1,2) eq_imp_le [OF demo_approved_fields(3) [symmetric]] key]
    by (simp add: finish_signature_def demo_lib_def evm_request_tx_def)
qed

lemma bindR_ret: "bindR (retR (Inr x)) k = k x"
  by (simp add: fun_eq_iff bindR_def retR_def)

text \<open>
  C17. What is sent is what was signed. With a node and the documented codec, broadcasting the
  payload of a signature dials the node, sends the very transaction the key signed, and
  reports its hash, which is the signature's identifier; an error of the node is passed on.
\<close>

theorem evm_broadcast_sends_the_signed_transaction:
  assumes "tx_codec L" and "signEVMTransaction L p key = Inr sig" and "rpcURL a \<noteq> []"
  shows "\<exists>t n tx bs. SignTx L t n key = Inr tx \<and> Hash_Hex L tx = SignatureID sig \<and>
     MarshalBinary L tx = Inr bs \<and> SignedTransaction sig = ''0x'' @ hex_EncodeToString bs \<and>
     evm_Broadcast L C send a None (SignedTransaction sig) st =
       bindR (on_rpc (DialContext C None (rpcURL a))) (\<lambda>_.
       bindR (on_rpc (send None tx)) (\<lambda>_. retR (Inr (SignatureID sig)))) st"
proof -
  from assms(2) obtain t n tx bs where tx: "SignTx L t n key = Inr tx" and bs: "MarshalBinary L tx = Inr bs"
    and sig: "sig = \<lparr>SignedTransaction = ''0x'' @ hex_EncodeToString bs, SignatureID = Hash_Hex L tx\<rparr>"
    by (auto simp: signEVMTransaction_def Let_def split: sum.splits option.splits)
  have "UnmarshalBinary L bs = Inr tx" using assms(1) bs by (simp add: tx_codec_def)
  then have "evm_Broadcast L C send a None (SignedTransaction sig) st =
       bindR (on_rpc (DialContext C None (rpcURL a))) (\<lambda>_.
       bindR (on_rpc (send None tx)) (\<lambda>_. retR (Inr (SignatureID sig)))) st"
    using assms(3) by (simp add: evm_Broadcast_def sig trimHexPrefix_def hex_Decode_Encode bindR_ret)
  with tx bs sig show ?thesis by auto
qed

theorem evm_broadcast_sends_the_signed_transaction_witness:
  "\<exists>sig. signEVMTransaction demo_lib demo_approved_tx demo_key = Inr sig \<and>
     fst (evm_Broadcast demo_lib demo_client demo_send (evm_NewAdapter 1 [''http://node'']) None (SignedTransaction sig) demo_chains) =
       Inr (SignatureID sig)"
proof -
  have codec: "tx_codec demo_lib" by (simp add: tx_codec_def demo_lib_def)
  have e: "utf8_payload (evm_local_payload demo_evm demo_source (demo_request_of ''w'') 0 4)"
    by (intro utf8_local_payload) (auto simp: demo_request_fields demo_source_def intro!: utf8_ok_ascii)
  have "unmarshal_evm_payload (Payload (pRawTransaction demo_approved_tx)) =
      Inr (evm_local_payload demo_evm demo_source (demo_request_of ''w'') 0 4)"
    using evm_payload_roundtrip [OF e] by (simp add: demo_approved_fields demo_built_def)
  then obtain sig where sig: "signEVMTransaction demo_lib demo_approved_tx demo_key = Inr sig"
    by (simp add: signEVMTransaction_def evm_local_payload_def evm_base_payload_def demo_request_fields big_5 big_7
        TrimPrefix_def HasPrefix_def) (simp add: demo_lib_def)
  have url: "rpcURL (evm_NewAdapter 1 [''http://node'']) \<noteq> []" by (simp add: evm_NewAdapter_def)
  from evm_broadcast_sends_the_signed_transaction [OF codec sig url, of demo_client demo_send demo_chains] sig
  show ?thesis by (auto simp: bindR_def on_rpc_def retR_def demo_client_def demo_send_def)
qed

end
