(* ===== verification/Spec2Isabelle.thy ===== *)
theory Spec2Isabelle
  imports Service_Properties Service_Races Component_Witnesses Postgres_Behaviour API_Properties EVM_Properties
begin

text \<open>
  A verification of the custody service \<^verbatim>\<open>mpc-custody\<close>: an HTTP API that creates wallets, takes
  transaction proposals, collects approvals, signs at a quorum of two and broadcasts.

  \<^bold>\<open>The program and its model.\<close> A handler of the Go program is a sequence of calls, each of them
  atomic with respect to the other goroutines (it runs under a mutex, or on data of its own).
  Handlers are therefore programs (type \<^verbatim>\<open>prog\<close>, theory Custody_Prelude): one definition, run
  alone by \<open>exec\<close> and interleaved with any number of others by \<open>cstep\<close> and \<open>csteps\<close>. The state they
  share is the record \<open>world\<close> (Service_World): store, signing backend, adapters, metrics, and
  streams for the random source, the clock and the state of the caller's context at each call.
  Errors are values (\<open>Inl\<close>), so every early return of the source is a branch.

  \<^item> \<^verbatim>\<open>internal/wallet/types.go\<close>: Custody_Types (records, chains, statuses, sentinel errors),
    Custody_Json and Proposal_Json (the JSON forms the field tags give, written and read).
  \<^item> \<^verbatim>\<open>internal/wallet/service.go\<close>: Store_Interface and Service_World (the interfaces \<^verbatim>\<open>Store\<close>,
    \<^verbatim>\<open>SigningBackend\<close> and \<^verbatim>\<open>ChainAdapter\<close> as records of operations), Wallet_Service (every handler,
    the policy checks, the audit and failure records).
  \<^item> \<^verbatim>\<open>internal/store/memory.go\<close>: Memory_Store, every operation as one step under the mutex.
  \<^item> \<^verbatim>\<open>internal/store/postgres.go\<close> and the migrations: Postgres_Client (the calls of the pgx driver,
    the statements the program sends and what they do to tables), Postgres_Store (every
    operation as the sequence of its driver calls, with its transactions and error branches).
  \<^item> \<^verbatim>\<open>internal/signing/demo.go\<close>: Signing_Demo (keys, quorum gate, signed envelope, EIP-1559).
  \<^item> \<^verbatim>\<open>internal/chains/bitcoin\<close>, \<^verbatim>\<open>internal/chains/evm\<close>: Chain_Adapters (local and JSON-RPC mode).
  \<^item> \<^verbatim>\<open>internal/api/server.go\<close>, \<^verbatim>\<open>internal/observability\<close>: API_Server (routing, keys, bodies,
    statuses, the middleware) and Observability (metrics, the metrics page, traces).
  \<^item> \<^verbatim>\<open>internal/ids\<close>, \<^verbatim>\<open>internal/config\<close>, \<^verbatim>\<open>cmd/custody-api/main.go\<close>: Service_World, Config, and
    Custody_System and Postgres_System (the program put together on either store) and
    Custody_Process (the start with its failures; serving, signal and shutdown as a state machine).
  \<^item> What the sources use of Go: Go_Base (errors, contexts, strings, numbers, hex), Go_Encoding
    (SHA-256, ASN.1), Go_Time (calendar and RFC 3339), Go_Json and Go_Json_Parse
    (\<^verbatim>\<open>encoding/json\<close> with its escapes, UTF-8 repair and decoding into structs).

  \<^bold>\<open>What is shown.\<close>
  \<^item> Safety under interleaving. \<open>safe\<close> (Custody_Prelude) is a rely-guarantee notion; the locale
    \<open>custody_service\<close> (Service_Safety) proves every handler safe against the store's contract
    alone, API_Safety lifts it to HTTP. The contract is the locale \<open>store_contract\<close>
    (Store_Interface): an abstract view of a store, one specification per operation.
    Memory_Store and Postgres_Contract interpret it on the two stores, so the quorum, history
    and amount theorems below hold for both, for PostgreSQL also over restarts.
  \<^item> The JSON theories Go_Json_Laws, Go_Json_Compact, Go_Json_Reread, Json_Canon, Json_Stored,
    Json_Utf8, Proposal_Roundtrip and Proposal_Stored prove that a proposal survives being
    written into a JSONB column and read back; Postgres_Laws turns tables into views with it.
  \<^item> Functional behaviour of the handlers on every branch: Service_Behaviour and
    Service_Properties; orders of steps that lose information: Service_Races.
  \<^item> Total correctness of the HTTP layer: \<open>within\<close> (Prog_Bounds) bounds the steps of a program
    whatever the others do; API_Answers and API_Properties show that every request is answered,
    in which form, with which status, and that a request without a key touches nothing;
    Custody_Process, that a shutdown loses no request.
  \<^item> EVM_Properties follows an EVM request through build, signature and broadcast;
    Postgres_Properties and Postgres_Behaviour hold the properties of the PostgreSQL store.
  \<^item> Demo_Run, Component_Witnesses, Postgres_Demo: a concrete run of the assembled program on
    either store, at which the theorems with hypotheses are applied.

  \<^bold>\<open>Parameters.\<close> Code outside the repository is an argument: go-ethereum and the randomised part
  of ECDSA (\<open>External\<close>, External_Libs), the JSON-RPC client (\<open>EthClient\<close>), what \<^verbatim>\<open>http.ServeMux\<close>
  answers by itself, the formatting of floats, and the pgx driver with the database. The
  hypotheses on them state documented behaviour: \<open>tx_codec\<close> (decoding the binary form of a
  transaction gives it back), \<open>pg_serves\<close> (a statement that does not fail does to the tables
  what its SQL says, a failed transaction is undone) and \<open>jsonb_law\<close> (a JSONB column gives back
  a document with the same value); \<open>demo_serves\<close> shows that they can hold together.

  \<^bold>\<open>Bounds and fuel.\<close> The JSON reader recurses with fuel \<open>Suc (length s)\<close>; every step consumes a
  character, and \<open>parse_fuel\<close> (Go_Json_Laws) shows that any fuel from the length of the text on
  gives the same result. \<open>trim_left\<close> and \<open>trim_right\<close> (Config) use the length of the string, which
  their \<open>_done\<close> lemmas show to be enough. Integers have their width where it matters (nonces, gas,
  inputs, durations, counters as floats up to \<open>2 ^ 53\<close>).

  \<^bold>\<open>Not modelled.\<close> Log lines; the passing of time during the grace period of a shutdown, which may
  end at any moment; percent-encoded request paths; the nesting limit of 10000 of the JSON decoder and the size limits of \<^verbatim>\<open>net/http\<close>; other sessions
  between the statements of one PostgreSQL operation and a commit whose acknowledgement is
  lost: each operation of that store runs alone against the tables.
\<close>

section \<open>Custody safety of the running program\<close>

text \<open>
  C1. Whatever HTTP requests arrive and however the steps of their handlers interleave, a
  stored transaction that is signed or broadcast carries the approvals of at least two
  different signers, none of them empty, and when signers are configured every one of them
  is a configured signer.
\<close>

theorem quorum_safety:
  assumes "system_reach L C send fmt_g fmt_sec other mux cfg e (w, ts)"
    and "transactions (w_store w) i = Some p"
    and "pStatus p = TransactionStatusSigned \<or> pStatus p = TransactionStatusBroadcast"
  shows "2 \<le> card (SignerID ` snd ` set (approvals p)) \<and> [] \<notin> SignerID ` snd ` set (approvals p) \<and>
     (SignerIDs cfg \<noteq> [] \<longrightarrow> SignerID ` snd ` set (approvals p) \<subseteq> set (SignerIDs cfg))"
proof -
  note tx = system_tx [OF assms(1,2)]
  have signers: "SignerID ` snd ` set (approvals p) = set (gkeys (approvals p))"
    using tx(2) by (force simp: wf_proposal_def image_image intro!: image_cong)
  show ?thesis
    using tx(1,2) assms(3) ApprovalsCount_card [OF tx(2)] unfolding signers
    by (auto simp: custody_ok_def signerAllowed_system)
qed

theorem quorum_safety_witness:
  "\<exists>w ts i p. demo_reach (w, ts) \<and> transactions (w_store w) i = Some p \<and>
     pStatus p = TransactionStatusSigned \<and>
     2 \<le> card (SignerID ` snd ` set (approvals p)) \<and>
     SignerID ` snd ` set (approvals p) \<subseteq> {''alice'', ''bob'', ''carol''}"
proof -
  obtain w ts j p where w: "demo_reach (w, ts)" "transactions (w_store w) j = Some p"
    "pStatus p = TransactionStatusSigned" by (rule demo_signed)
  with quorum_safety [OF w(1) [unfolded demo_reach_def] w(2)] show ?thesis by auto
qed

text \<open>
  C2. From any reachable state on, whatever requests run: the audit log only grows at its
  end, a stored wallet never changes, and an idempotency key keeps the resource it names.
\<close>

theorem history_is_append_only:
  assumes "system_reach L C send fmt_g fmt_sec other mux cfg e (w, ts)"
    and "csteps (Handler L fmt_g fmt_sec other mux (system_server memory_store L C send cfg)) (w, ts) (w', ts')"
  shows "(\<exists>es. auditEvents (w_store w') = auditEvents (w_store w) @ es) \<and>
     wallets (w_store w) \<subseteq>\<^sub>m wallets (w_store w') \<and> idempotency (w_store w) \<subseteq>\<^sub>m idempotency (w_store w')"
  using system_reach_step [OF assms] by (simp add: view_step_def)

theorem history_is_append_only_witness:
  "\<exists>w ts w' ts' j. demo_reach (w, ts) \<and> transactions (w_store w) j \<noteq> None \<and>
     csteps demo_handler (w, ts) (w', ts' @ [Return (fst (exec (demo_handler (demo_broadcast_request j)) w))]) \<and>
     (\<exists>es. auditEvents (w_store w') = auditEvents (w_store w) @ es) \<and>
     wallets (w_store w) \<subseteq>\<^sub>m wallets (w_store w')"
proof -
  obtain w ts j p where w: "demo_reach (w, ts)" "transactions (w_store w) j = Some p" by (rule demo_signed)
  note steps = demo_then [of w ts "demo_broadcast_request j"]
  from history_is_append_only [OF w(1) [unfolded demo_reach_def] steps] w steps show ?thesis by blast
qed

text \<open>
  C3. A stored transaction stays stored under its identifier with the same wallet, chain,
  request, raw payload and creation time; once it has left the state proposed it never is a
  proposal again, and while it is one no approval is lost or altered.
\<close>

theorem transaction_core_is_immutable:
  assumes "system_reach L C send fmt_g fmt_sec other mux cfg e (w, ts)"
    and "csteps (Handler L fmt_g fmt_sec other mux (system_server memory_store L C send cfg)) (w, ts) (w', ts')"
    and "transactions (w_store w) i = Some p"
  shows "\<exists>q. transactions (w_store w') i = Some q \<and> pID q = pID p \<and> pWalletID q = pWalletID p \<and>
     pChain q = pChain p \<and> pRequest q = pRequest p \<and> pRawTransaction q = pRawTransaction p \<and>
     pCreatedAt q = pCreatedAt p \<and>
     (pStatus q = TransactionStatusProposed \<longrightarrow>
        pStatus p = TransactionStatusProposed \<and> map_of (approvals p) \<subseteq>\<^sub>m map_of (approvals q))"
  using system_reach_step [OF assms(1,2)] assms(3) by (auto simp: view_step_def tx_step_def)

theorem transaction_core_is_immutable_witness:
  "\<exists>w ts w' ts' j p q. demo_reach (w, ts) \<and> csteps demo_handler (w, ts) (w', ts') \<and>
     transactions (w_store w) j = Some p \<and> pStatus p = TransactionStatusSigned \<and>
     transactions (w_store w') j = Some q \<and> pRawTransaction q = pRawTransaction p \<and>
     pStatus q \<noteq> TransactionStatusProposed"
proof -
  obtain w ts j p where w: "demo_reach (w, ts)" "transactions (w_store w) j = Some p"
    "pStatus p = TransactionStatusSigned" by (rule demo_signed)
  note steps = demo_then [of w ts "demo_broadcast_request j"]
  obtain q where "transactions (w_store (snd (exec (demo_handler (demo_broadcast_request j)) w))) j = Some q"
    "pRawTransaction q = pRawTransaction p" "pStatus q \<noteq> TransactionStatusProposed"
    using transaction_core_is_immutable [OF w(1) [unfolded demo_reach_def] steps w(2)] w(3) by auto
  with w steps show ?thesis by blast
qed

text \<open>
  C4. Every stored transaction moves a positive amount, written in base 10, and respects the
  configured caps: at most the Bitcoin cap where one is set, at most the EVM cap where one is
  set; Bitcoin amounts also fit 64 bits.
\<close>

theorem stored_amounts_respect_policy:
  assumes "system_reach L C send fmt_g fmt_sec other mux cfg e (w, ts)"
    and "transactions (w_store w) i = Some p"
  shows "(pChain p = ChainBitcoin \<longrightarrow>
       (\<exists>v. big_SetString (rAmount (pRequest p)) = Some v \<and> 0 < v \<and> v < 2 ^ 63 \<and>
         (0 < MaxBTCAmountSats cfg \<longrightarrow> v \<le> MaxBTCAmountSats cfg))) \<and>
     (pChain p = ChainEVM \<longrightarrow>
       (\<exists>v. big_SetString (rAmount (pRequest p)) = Some v \<and> 0 < v \<and>
         (\<forall>cap. cfgMaxEVMAmountWei cfg = Some cap \<longrightarrow> v \<le> cap)))"
proof (intro conjI impI)
  have ok: "validateAmountPolicy (system_policy cfg) (pChain p) (rAmount (pRequest p)) = None"
    using system_tx(1) [OF assms] by (simp add: custody_ok_def)
  show "\<exists>v. big_SetString (rAmount (pRequest p)) = Some v \<and> 0 < v \<and> v < 2 ^ 63 \<and>
      (0 < MaxBTCAmountSats cfg \<longrightarrow> v \<le> MaxBTCAmountSats cfg)" if "pChain p = ChainBitcoin"
    using ok that
    by (auto simp: validateAmountPolicy_def system_policy_def ParseInt64_def split: option.splits if_splits)
  show "\<exists>v. big_SetString (rAmount (pRequest p)) = Some v \<and> 0 < v \<and>
      (\<forall>cap. cfgMaxEVMAmountWei cfg = Some cap \<longrightarrow> v \<le> cap)" if "pChain p = ChainEVM"
    using ok that
    by (auto simp: validateAmountPolicy_def system_policy_def cloneBigInt_def split: option.splits if_splits)
qed

theorem stored_amounts_respect_policy_witness:
  "\<exists>w ts i p v. demo_reach (w, ts) \<and> transactions (w_store w) i = Some p \<and> pChain p = ChainEVM \<and>
     big_SetString (rAmount (pRequest p)) = Some v \<and> 0 < v"
proof -
  obtain w ts j p where w: "demo_reach (w, ts)" "transactions (w_store w) j = Some p" "pChain p = ChainEVM"
    by (rule demo_signed)
  with stored_amounts_respect_policy [OF w(1) [unfolded demo_reach_def] w(2)] show ?thesis by blast
qed

text \<open>
  C5. The store is consistent in every reachable state: a transaction is filed under its own
  identifier and its wallet exists on the same chain; an idempotency key points to a wallet
  or a transaction that exists.
\<close>

theorem stored_references_resolve:
  assumes "system_reach L C send fmt_g fmt_sec other mux cfg e (w, ts)"
  shows "(\<forall>i p. transactions (w_store w) i = Some p \<longrightarrow>
         pID p = i \<and> (\<exists>x. wallets (w_store w) (pWalletID p) = Some x \<and> wChain x = pChain p)) \<and>
     (\<forall>k r. idempotency (w_store w) k = Some r \<longrightarrow>
         iResourceType r = ''wallet'' \<and> wallets (w_store w) (iResourceID r) \<noteq> None \<or>
         iResourceType r = ''transaction'' \<and> transactions (w_store w) (iResourceID r) \<noteq> None)"
  using system_tx [OF assms] system_reach_inv [OF assms] by (auto simp: custody_inv_def view_ok_def)

theorem stored_references_resolve_witness:
  "\<exists>w ts i p x. demo_reach (w, ts) \<and> transactions (w_store w) i = Some p \<and>
     wallets (w_store w) (pWalletID p) = Some x \<and> wChain x = ChainEVM"
proof -
  obtain w ts j p where w: "demo_reach (w, ts)" "transactions (w_store w) j = Some p" "pChain p = ChainEVM"
    by (rule demo_signed)
  with stored_references_resolve [OF w(1) [unfolded demo_reach_def]] show ?thesis by fastforce
qed

end
